(* ===== verification/Aios_Prelude.thy ===== *)
theory Aios_Prelude
  imports
    Main
    "HOL-Library.Char_ord"
    "HOL-Library.List_Lexorder"
    "HOL-Library.Product_Lexorder"
    "HOL-Library.Word"
begin

text \<open>
  Shared vocabulary of the development.

  \<^item> Rust strings are their UTF-8 bytes (\<open>str::len\<close> is \<open>length\<close>, \<open>Ord for str\<close> is the
    lexicographic order of \<open>HOL-Library.List_Lexorder\<close> over \<open>HOL-Library.Char_ord\<close>);
    \<open>char_count\<close> is \<open>chars().count()\<close>, \<open>truncate_chars\<close> cuts at a scalar boundary.
  \<^item> \<open>BTreeMap\<close> is an association list in strictly increasing key order (\<open>bm_insert\<close>,
    \<open>map_of\<close>), \<open>BTreeSet\<close> a strictly increasing list (\<open>bs_insert\<close>).
  \<^item> Three interfaces are locales: \<open>ordered_index\<close> (what the map promises to code that
    indexes records), \<open>graph_search\<close> (what a worklist loop promises to code that asks
    whether a goal is reachable) and \<open>run_system\<close> (what the steps of a state machine promise to
    code that meets a later state).
\<close>

type_synonym u8 = "8 word"
type_synonym u64 = "64 word"
type_synonym ('k, 'v) bmap = "('k \<times> 'v) list"
type_synonym 'a bset = "'a list"

named_theorems bt_simps \<open>rewrite rules for the ordered maps and sets\<close>
named_theorems diag_simps \<open>unfolding rules that expose the diagnostics a check emits\<close>


section \<open>Strings as UTF-8 bytes\<close>

definition utf8_continuation :: "char \<Rightarrow> bool" where
  "utf8_continuation c = (of_char c div 64 = (2::nat))"

definition char_count :: "string \<Rightarrow> nat" where
  "char_count s = length (filter (\<lambda>c. \<not> utf8_continuation c) s)"

fun truncate_chars :: "nat \<Rightarrow> string \<Rightarrow> string" where
  "truncate_chars n [] = []"
| "truncate_chars n (c # cs) =
     (if utf8_continuation c then c # truncate_chars n cs
      else if n = 0 then [] else c # truncate_chars (n - 1) cs)"

definition digit_char :: "nat \<Rightarrow> char" where
  "digit_char d = char_of (48 + d)"

fun show_nat :: "nat \<Rightarrow> string" where
  "show_nat n = (if n < 10 then [digit_char n] else show_nat (n div 10) @ [digit_char (n mod 10)])"

declare show_nat.simps [simp del]

definition is_ascii_digit :: "char \<Rightarrow> bool" where
  "is_ascii_digit c = (48 \<le> (of_char c :: nat) \<and> (of_char c :: nat) \<le> 57)"

definition is_ascii_lowercase :: "char \<Rightarrow> bool" where
  "is_ascii_lowercase c = (97 \<le> (of_char c :: nat) \<and> (of_char c :: nat) \<le> 122)"

definition is_ascii_uppercase :: "char \<Rightarrow> bool" where
  "is_ascii_uppercase c = (65 \<le> (of_char c :: nat) \<and> (of_char c :: nat) \<le> 90)"

fun strip_prefix :: "string \<Rightarrow> string \<Rightarrow> string option" where
  "strip_prefix [] s = Some s"
| "strip_prefix (p # ps) [] = None"
| "strip_prefix (p # ps) (c # cs) = (if p = c then strip_prefix ps cs else None)"

definition starts_with :: "string \<Rightarrow> string \<Rightarrow> bool" where
  "starts_with p s = (strip_prefix p s \<noteq> None)"

fun replace_char :: "char \<Rightarrow> string \<Rightarrow> string \<Rightarrow> string" where
  "replace_char c r [] = []"
| "replace_char c r (x # xs) = (if x = c then r @ replace_char c r xs else x # replace_char c r xs)"

lemma char_count_le_length: "char_count s \<le> length s"
  by (simp add: char_count_def)

lemma truncate_chars_count: "char_count (truncate_chars n s) = min n (char_count s)"
  by (induction n s rule: truncate_chars.induct) (auto simp: char_count_def)

lemma truncate_chars_id: "char_count s \<le> n \<Longrightarrow> truncate_chars n s = s"
  by (induction n s rule: truncate_chars.induct) (auto simp: char_count_def split: if_splits)

lemma truncate_chars_idem [simp]: "truncate_chars n (truncate_chars n s) = truncate_chars n s"
  by (rule truncate_chars_id) (simp add: truncate_chars_count)

lemma truncate_chars_prefix: "\<exists>r. s = truncate_chars n s @ r"
  by (induction n s rule: truncate_chars.induct) auto

lemma strip_prefix_Some_iff: "strip_prefix p s = Some r \<longleftrightarrow> s = p @ r"
  by (induction p s rule: strip_prefix.induct) auto

lemma strip_prefix_append [simp]: "strip_prefix p (p @ r) = Some r"
  by (simp add: strip_prefix_Some_iff)

lemma starts_with_iff: "starts_with p s \<longleftrightarrow> (\<exists>r. s = p @ r)"
  by (auto simp: starts_with_def strip_prefix_Some_iff)


section \<open>Results with an early return\<close>

text \<open>
  \<open>Result<T, E>\<close> is \<open>'e + 'a\<close>; \<open>and_then\<close> is the \<open>?\<close> operator, \<open>ensure\<close> a guarded early return and
  \<open>for_each\<close> a loop whose body may return early.
\<close>

fun and_then :: "'e + 'a \<Rightarrow> ('a \<Rightarrow> 'e + 'b) \<Rightarrow> 'e + 'b" where
  "and_then (Inl e) f = Inl e"
| "and_then (Inr x) f = f x"

definition ensure :: "bool \<Rightarrow> 'e \<Rightarrow> 'e + unit" where
  "ensure b e = (if b then Inr () else Inl e)"

fun for_each :: "('a \<Rightarrow> 'e + unit) \<Rightarrow> 'a list \<Rightarrow> 'e + unit" where
  "for_each f [] = Inr ()"
| "for_each f (x # xs) = and_then (f x) (\<lambda>_. for_each f xs)"

definition is_ok :: "'e + 'a \<Rightarrow> bool" where
  "is_ok r = (\<exists>x. r = Inr x)"

lemma is_ok_code [code, simp]: "is_ok (Inl e) = False" "is_ok (Inr x) = True"
  by (simp_all add: is_ok_def)

lemma and_then_Inr_iff [simp]: "and_then r f = Inr y \<longleftrightarrow> (\<exists>x. r = Inr x \<and> f x = Inr y)"
  by (cases r) auto

lemma ensure_Inr_iff [simp]: "ensure b e = Inr u \<longleftrightarrow> b"
  by (cases u) (simp add: ensure_def)

lemma ensure_Inl_iff [simp]: "ensure b e = Inl e' \<longleftrightarrow> \<not> b \<and> e' = e"
  by (auto simp: ensure_def)

lemma for_each_Inr_iff [simp]: "for_each f xs = Inr u \<longleftrightarrow> (\<forall>x \<in> set xs. f x = Inr ())"
  by (cases u) (induction xs; auto)

lemma and_then_cong [fundef_cong]:
  "r = r' \<Longrightarrow> (\<And>x. r' = Inr x \<Longrightarrow> f x = g x) \<Longrightarrow> and_then r f = and_then r' g"
  by (cases r') auto


section \<open>Decimal numerals\<close>

definition digits_value :: "string \<Rightarrow> nat" where
  "digits_value s = foldl (\<lambda>v c. v * 10 + (of_char c - 48)) 0 s"

definition canonical_digits :: "string \<Rightarrow> bool" where
  "canonical_digits s =
     (s \<noteq> [] \<and> list_all is_ascii_digit s \<and> \<not> (1 < length s \<and> hd s = CHR ''0''))"

lemma digits_value_snoc: "digits_value (s @ [c]) = digits_value s * 10 + (of_char c - 48)"
  by (simp add: digits_value_def)

lemma of_char_digit_char [simp]: "d < 10 \<Longrightarrow> (of_char (digit_char d) :: nat) = 48 + d"
  by (simp add: digit_char_def)

lemma is_ascii_digit_digit_char [simp]: "d < 10 \<Longrightarrow> is_ascii_digit (digit_char d)"
  by (simp add: is_ascii_digit_def)

lemma digit_char_of_char: "is_ascii_digit c \<Longrightarrow> digit_char (of_char c - 48) = c"
  by (simp add: digit_char_def is_ascii_digit_def)

lemma of_char_48_iff: "(of_char c :: nat) = 48 \<longleftrightarrow> c = CHR ''0''"
proof -
  have "(of_char c :: nat) = of_char (CHR ''0'') \<longleftrightarrow> c = CHR ''0''"
    by (simp only: of_char_eq_iff)
  then show ?thesis by simp
qed

lemma is_ascii_digit_value: "is_ascii_digit c \<Longrightarrow> of_char c - 48 < (10::nat)"
  by (auto simp: is_ascii_digit_def)

lemma show_nat_nonempty [simp]: "show_nat n \<noteq> []"
  by (subst show_nat.simps) simp

lemma digits_value_show_nat [simp]: "digits_value (show_nat n) = n"
proof (induction n rule: show_nat.induct)
  case (1 n)
  show ?case
  proof (cases "n < 10")
    case True
    then show ?thesis by (subst show_nat.simps) (simp add: digits_value_def)
  next
    case False
    with 1 show ?thesis by (subst show_nat.simps) (simp add: digits_value_snoc)
  qed
qed

lemma show_nat_inj: "show_nat m = show_nat n \<Longrightarrow> m = n"
  by (metis digits_value_show_nat)

lemma show_nat_digits: "list_all is_ascii_digit (show_nat n)"
proof (induction n rule: show_nat.induct)
  case (1 n)
  then show ?case by (subst show_nat.simps) auto
qed

lemma hd_show_nat: "0 < n \<Longrightarrow> hd (show_nat n) \<noteq> CHR ''0''"
proof (induction n rule: show_nat.induct)
  case (1 n)
  show ?case
  proof (cases "n < 10")
    case True
    then have "digit_char n \<noteq> CHR ''0''"
      using 1 by (simp flip: of_char_48_iff)
    with True show ?thesis by (subst show_nat.simps) simp
  next
    case False
    with 1 show ?thesis by (subst show_nat.simps) simp
  qed
qed

lemma canonical_show_nat: "canonical_digits (show_nat n)"
proof (cases "n = 0")
  case True
  then show ?thesis
    using show_nat_digits [of 0] by (simp add: canonical_digits_def show_nat.simps [of 0])
next
  case False
  then show ?thesis using hd_show_nat [of n] show_nat_digits [of n] by (simp add: canonical_digits_def)
qed

lemma digits_value_ge:
  "list_all is_ascii_digit s \<Longrightarrow> s \<noteq> [] \<Longrightarrow> hd s \<noteq> CHR ''0'' \<Longrightarrow> 10 ^ (length s - 1) \<le> digits_value s"
proof (induction s rule: rev_induct)
  case (snoc c s)
  show ?case
  proof (cases "s = []")
    case True
    have "c \<noteq> CHR ''0''" using snoc.prems True by simp
    then have "(of_char c :: nat) \<noteq> 48" by (simp add: of_char_48_iff)
    then show ?thesis using snoc.prems True by (auto simp: digits_value_def is_ascii_digit_def)
  next
    case False
    then have "10 ^ (length s - 1) \<le> digits_value s" using snoc by simp
    moreover obtain k where "length s = Suc k" using False by (cases s) auto
    ultimately show ?thesis by (simp add: digits_value_snoc)
  qed
qed simp

lemma show_nat_digits_value: "canonical_digits s \<Longrightarrow> show_nat (digits_value s) = s"
proof (induction s rule: rev_induct)
  case (snoc c s)
  have c: "is_ascii_digit c" using snoc.prems by (simp add: canonical_digits_def)
  show ?case
  proof (cases "s = []")
    case True
    then show ?thesis
      using is_ascii_digit_value [OF c] digit_char_of_char [OF c]
      by (subst show_nat.simps) (simp add: digits_value_def)
  next
    case False
    then have canon: "canonical_digits s" "hd s \<noteq> CHR ''0''"
      using snoc.prems by (auto simp: canonical_digits_def)
    then have "10 ^ (length s - 1) \<le> digits_value s"
      using False by (intro digits_value_ge) (auto simp: canonical_digits_def)
    then have "1 \<le> digits_value s" by (metis le_trans one_le_numeral one_le_power)
    then show ?thesis
      using is_ascii_digit_value [OF c] digit_char_of_char [OF c] snoc.IH [OF canon(1)]
      by (subst show_nat.simps) (simp add: digits_value_snoc)
  qed
qed (simp add: canonical_digits_def)


section \<open>Ordered maps and sets\<close>

fun bm_insert :: "'k::linorder \<Rightarrow> 'v \<Rightarrow> ('k, 'v) bmap \<Rightarrow> ('k, 'v) bmap" where
  "bm_insert k v [] = [(k, v)]"
| "bm_insert k v ((a, b) # m) =
     (if k < a then (k, v) # (a, b) # m
      else if k = a then (k, v) # m
      else (a, b) # bm_insert k v m)"

definition bm_wf :: "('k::linorder, 'v) bmap \<Rightarrow> bool" where
  "bm_wf m = sorted_wrt (<) (map fst m)"

definition contains_key :: "('k, 'v) bmap \<Rightarrow> 'k \<Rightarrow> bool" where
  "contains_key m k = (map_of m k \<noteq> None)"

fun bs_insert :: "'a::linorder \<Rightarrow> 'a bset \<Rightarrow> 'a bset" where
  "bs_insert x [] = [x]"
| "bs_insert x (y # ys) = (if x < y then x # y # ys else if x = y then y # ys else y # bs_insert x ys)"

definition bs_wf :: "'a::linorder bset \<Rightarrow> bool" where
  "bs_wf s = sorted_wrt (<) s"

definition bs_of_list :: "'a::linorder list \<Rightarrow> 'a bset" where
  "bs_of_list xs = fold bs_insert xs []"

lemma map_of_bm_insert [simp, bt_simps]: "map_of (bm_insert k v m) = (map_of m)(k \<mapsto> v)"
  by (induction k v m rule: bm_insert.induct) auto

lemma keys_bm_insert [simp, bt_simps]: "fst ` set (bm_insert k v m) = insert k (fst ` set m)"
  by (induction k v m rule: bm_insert.induct) auto

lemma set_bs_insert [simp, bt_simps]: "set (bs_insert x s) = insert x (set s)"
  by (induction x s rule: bs_insert.induct) auto

lemma length_bs_insert_le: "length (bs_insert x s) \<le> Suc (length s)"
  by (induction x s rule: bs_insert.induct) auto

lemma bs_wf_insert [intro, bt_simps]: "bs_wf s \<Longrightarrow> bs_wf (bs_insert x s)"
  by (induction x s rule: bs_insert.induct) (auto simp: bs_wf_def)

lemma bs_wf_Nil [simp, bt_simps]: "bs_wf []"
  by (simp add: bs_wf_def)

lemma bs_wf_distinct: "bs_wf s \<Longrightarrow> distinct s"
  by (auto simp: bs_wf_def strict_sorted_iff)

lemma set_fold_bs_insert: "set (fold bs_insert xs s) = set xs \<union> set s"
  by (induction xs arbitrary: s) auto

lemma bs_wf_fold_bs_insert: "bs_wf s \<Longrightarrow> bs_wf (fold bs_insert xs s)"
  by (induction xs arbitrary: s) auto

lemma set_bs_of_list [simp, bt_simps]: "set (bs_of_list xs) = set xs"
  by (simp add: bs_of_list_def set_fold_bs_insert)

lemma bs_wf_bs_of_list [simp, bt_simps]: "bs_wf (bs_of_list xs)"
  by (simp add: bs_of_list_def bs_wf_fold_bs_insert)

lemma bs_eqI: "bs_wf s \<Longrightarrow> bs_wf t \<Longrightarrow> set s = set t \<Longrightarrow> s = t"
  unfolding bs_wf_def by (rule strict_sorted_equal)

lemma length_bs_of_list: "length (bs_of_list xs) = card (set xs)"
  by (metis bs_wf_bs_of_list bs_wf_distinct distinct_card set_bs_of_list)

lemma length_bs_of_list_eq_iff: "length (bs_of_list xs) = length xs \<longleftrightarrow> distinct xs"
  by (auto simp: length_bs_of_list distinct_card dest: card_distinct)

lemma bm_wf_Nil [simp, bt_simps]: "bm_wf []"
  by (simp add: bm_wf_def)

lemma bm_wf_insert [intro, bt_simps]: "bm_wf m \<Longrightarrow> bm_wf (bm_insert k v m)"
proof (induction k v m rule: bm_insert.induct)
  case (2 k v a b m)
  have "\<forall>x \<in> fst ` set (bm_insert k v m). x = k \<or> x \<in> fst ` set m" by simp
  with 2 show ?case by (auto simp: bm_wf_def)
qed (simp add: bm_wf_def)

lemma bm_wf_distinct: "bm_wf m \<Longrightarrow> distinct (map fst m)"
  by (auto simp: bm_wf_def strict_sorted_iff)

lemma bm_wf_map_of_iff: "bm_wf m \<Longrightarrow> map_of m k = Some v \<longleftrightarrow> (k, v) \<in> set m"
  by (simp add: bm_wf_distinct)

lemma contains_key_iff [bt_simps]: "contains_key m k \<longleftrightarrow> k \<in> fst ` set m"
  by (simp add: contains_key_def map_of_eq_None_iff)

lemma contains_key_insert [simp, bt_simps]:
  "contains_key (bm_insert k v m) k' \<longleftrightarrow> k' = k \<or> contains_key m k'"
  by (auto simp: contains_key_iff)

lemma card_keys_bm_wf: "bm_wf m \<Longrightarrow> card (fst ` set m) = length m"
  by (metis bm_wf_distinct distinct_card length_map list.set_map)

lemma contains_key_SomeD: "contains_key m k \<Longrightarrow> \<exists>v. map_of m k = Some v"
  by (auto simp: contains_key_def)


section \<open>Interface: an ordered index\<close>

text \<open>
  What the components that index records by a key rely on: an empty index, an insertion that
  overwrites, a lookup, the keys it holds and the invariant every insertion keeps. The lemmas
  say what folding the insertion over a list of records yields.
\<close>

locale ordered_index =
  fixes empty :: "'m"
    and put :: "'k \<Rightarrow> 'v \<Rightarrow> 'm \<Rightarrow> 'm"
    and get :: "'m \<Rightarrow> 'k \<rightharpoonup> 'v"
    and keys :: "'m \<Rightarrow> 'k set"
    and wf :: "'m \<Rightarrow> bool"
  assumes get_empty: "get empty k = None"
    and get_put: "wf m \<Longrightarrow> get (put k v m) k' = (if k' = k then Some v else get m k')"
    and keys_get: "keys m = {k. get m k \<noteq> None}"
    and wf_empty: "wf empty"
    and wf_put: "wf m \<Longrightarrow> wf (put k v m)"
begin

lemma keys_empty: "keys empty = {}"
  by (simp add: keys_get get_empty)

lemma keys_put: "wf m \<Longrightarrow> keys (put k v m) = insert k (keys m)"
  by (auto simp: keys_get get_put)

lemma wf_fold: "wf m \<Longrightarrow> wf (fold (\<lambda>x. put (f x) (g x)) xs m)"
  by (induction xs arbitrary: m) (auto simp: wf_put)

lemma keys_fold: "wf m \<Longrightarrow> keys (fold (\<lambda>x. put (f x) (g x)) xs m) = f ` set xs \<union> keys m"
  by (induction xs arbitrary: m) (auto simp: wf_put keys_put)

lemma get_fold_fresh:
  "wf m \<Longrightarrow> k \<notin> f ` set xs \<Longrightarrow> get (fold (\<lambda>x. put (f x) (g x)) xs m) k = get m k"
  by (induction xs arbitrary: m) (auto simp: wf_put get_put)

lemma get_fold_distinct:
  "wf m \<Longrightarrow> distinct (map f xs) \<Longrightarrow> x \<in> set xs \<Longrightarrow>
    get (fold (\<lambda>x. put (f x) (g x)) xs m) (f x) = Some (g x)"
  by (induction xs arbitrary: m) (auto simp: wf_put get_put get_fold_fresh)

lemma get_fold_SomeD:
  "wf m \<Longrightarrow> get (fold (\<lambda>x. put (f x) (g x)) xs m) k = Some v \<Longrightarrow>
    (\<exists>x \<in> set xs. f x = k \<and> g x = v) \<or> get m k = Some v"
proof (induction xs arbitrary: m)
  case (Cons x xs)
  then have "(\<exists>y \<in> set xs. f y = k \<and> g y = v) \<or> get (put (f x) (g x) m) k = Some v"
    by (simp add: wf_put)
  with Cons.prems(1) show ?case by (auto simp: get_put split: if_splits)
qed simp

end

interpretation bm: ordered_index "[]" bm_insert map_of "\<lambda>m. fst ` set m" bm_wf
  by unfold_locales (auto simp: dom_map_of_conv_image_fst [symmetric] dom_def)


section \<open>Interface: worklist search\<close>

text \<open>
  What a breadth-first loop promises to the code that runs it. \<open>search pending visited\<close> is the
  loop; the assumptions are its unfoldings on the four shapes of its state, and that only
  finitely many nodes have successors (so the loop ends). The lemma is the loop's meaning:
  started with nothing visited, it answers whether a goal is reachable from the pending nodes.
\<close>

locale graph_search =
  fixes search :: "'a list \<Rightarrow> 'a list \<Rightarrow> bool"
    and succs :: "'a \<Rightarrow> 'a list"
    and goal :: "'a \<Rightarrow> bool"
  assumes finite_succs: "finite {x. succs x \<noteq> []}"
    and search_Nil: "search [] vs = False"
    and search_goal: "x \<notin> set vs \<Longrightarrow> goal x \<Longrightarrow> search (x # p) vs = True"
    and search_seen: "x \<in> set vs \<Longrightarrow> \<not> goal x \<Longrightarrow> search (x # p) vs = search p vs"
    and search_new: "x \<notin> set vs \<Longrightarrow> \<not> goal x \<Longrightarrow>
      \<exists>vs'. set vs' = insert x (set vs) \<and> search (x # p) vs = search (p @ succs x) vs'"
begin

definition edge :: "('a \<times> 'a) set" where
  "edge = {(x, y). y \<in> set (succs x)}"

definition reaches :: "'a \<Rightarrow> bool" where
  "reaches x = (\<exists>y. (x, y) \<in> edge\<^sup>* \<and> goal y)"

lemma reaches_goal: "goal x \<Longrightarrow> reaches x"
  by (auto simp: reaches_def)

lemma reaches_step: "\<not> goal x \<Longrightarrow> reaches x \<longleftrightarrow> (\<exists>y \<in> set (succs x). reaches y)"
  by (auto simp: reaches_def edge_def elim: converse_rtranclE intro: converse_rtrancl_into_rtrancl)

lemma visited_reaches_frontier:
  assumes clear: "\<And>v. v \<in> set vs \<Longrightarrow> \<not> goal v"
    and closed: "\<And>v w. v \<in> set vs \<Longrightarrow> w \<in> set (succs v) \<Longrightarrow> w \<in> set vs \<union> set q"
    and v: "v \<in> set vs" and r: "reaches v"
  shows "\<exists>y \<in> set q. reaches y"
proof -
  have "y \<in> set vs \<or> (\<exists>z \<in> set q. (z, y) \<in> edge\<^sup>*)" if "(v, y) \<in> edge\<^sup>*" for y
    using that
  proof induction
    case base
    then show ?case using v by blast
  next
    case (step y z)
    then show ?case
      using closed [of y z] by (auto simp: edge_def dest: rtrancl_into_rtrancl)
  qed
  with r clear show ?thesis unfolding reaches_def by blast
qed

lemma visit_decreases:
  assumes "set vs' = insert x (set vs)" and "x \<notin> set vs"
  shows "((card ({x. succs x \<noteq> []} - set vs'), length (q @ succs x)),
      (card ({x. succs x \<noteq> []} - set vs), length (x # q))) \<in> less_than <*lex*> less_than"
proof (cases "succs x = []")
  case True
  then have "{x. succs x \<noteq> []} - set vs' = {x. succs x \<noteq> []} - set vs" using assms by auto
  with True show ?thesis by simp
next
  case False
  then have "{x. succs x \<noteq> []} - set vs' \<subset> {x. succs x \<noteq> []} - set vs"
    using assms by auto
  then have "card ({x. succs x \<noteq> []} - set vs') < card ({x. succs x \<noteq> []} - set vs)"
    by (rule psubset_card_mono [rotated]) (simp add: finite_succs)
  then show ?thesis by simp
qed

lemma search_reaches_general:
  assumes "\<And>v. v \<in> set vs \<Longrightarrow> \<not> goal v"
    and "\<And>v w. v \<in> set vs \<Longrightarrow> w \<in> set (succs v) \<Longrightarrow> w \<in> set vs \<union> set p"
  shows "search p vs \<longleftrightarrow> (\<exists>x \<in> set p. reaches x)"
  using assms
proof (induction "(card ({x. succs x \<noteq> []} - set vs), length p)" arbitrary: p vs
    rule: wf_induct_rule [OF wf_lex_prod [OF wf_less_than wf_less_than]])
  case (1 p vs)
  note IH = 1(1) and clear = 1(2) and closed = 1(3)
  consider (finished) "p = []" | (goal) x q where "p = x # q" "goal x"
    | (seen) x q where "p = x # q" "x \<in> set vs" "\<not> goal x"
    | (new) x q where "p = x # q" "x \<notin> set vs" "\<not> goal x"
    by (cases p) blast+
  then show ?case
  proof cases
    case finished
    then show ?thesis by (simp add: search_Nil)
  next
    case (goal x q)
    then have "x \<notin> set vs" using clear by blast
    with goal show ?thesis by (auto simp: search_goal reaches_goal)
  next
    case (seen x q)
    have closed': "w \<in> set vs \<union> set q" if "v \<in> set vs" "w \<in> set (succs v)" for v w
      using closed [OF that] seen by auto
    have "search q vs \<longleftrightarrow> (\<exists>y \<in> set q. reaches y)"
      using closed' by (intro IH) (auto simp: seen clear)
    then show ?thesis
      using visited_reaches_frontier [OF clear closed' seen(2)] seen by (auto simp: search_seen)
  next
    case (new x q)
    obtain vs' where vs': "set vs' = insert x (set vs)"
      and s: "search (x # q) vs = search (q @ succs x) vs'"
      using search_new [OF new(2,3)] by blast
    have "search (q @ succs x) vs' \<longleftrightarrow> (\<exists>y \<in> set (q @ succs x). reaches y)"
    proof (rule IH)
      show "((card ({x. succs x \<noteq> []} - set vs'), length (q @ succs x)),
          (card ({x. succs x \<noteq> []} - set vs), length p)) \<in> less_than <*lex*> less_than"
        using visit_decreases [OF vs' new(2)] by (simp add: new)
      show "\<not> goal v" if "v \<in> set vs'" for v using that vs' clear new by auto
      show "w \<in> set vs' \<union> set (q @ succs x)" if "v \<in> set vs'" "w \<in> set (succs v)" for v w
        using that vs' closed [of v w] new by auto
    qed
    then show ?thesis using reaches_step [OF new(3)] by (auto simp: new s)
  qed
qed

theorem search_iff: "search p [] \<longleftrightarrow> (\<exists>x \<in> set p. reaches x)"
  by (rule search_reaches_general) auto

end


section \<open>Runs of a state machine\<close>

text \<open>
  What a component promises of its steps (they keep an invariant and move up in an order) holds of
  its runs; every client that reasons about a later state uses the two lemmas.
\<close>

locale run_system =
  fixes step :: "'s \<Rightarrow> 's \<Rightarrow> bool" and inv :: "'s \<Rightarrow> bool" and le :: "'s \<Rightarrow> 's \<Rightarrow> bool"
  assumes inv_step: "step s t \<Longrightarrow> inv s \<Longrightarrow> inv t"
    and le_step: "step s t \<Longrightarrow> inv s \<Longrightarrow> le s t"
    and le_refl: "le s s"
    and le_trans: "le s t \<Longrightarrow> le t u \<Longrightarrow> le s u"
begin

lemma inv_run: "step\<^sup>*\<^sup>* s t \<Longrightarrow> inv s \<Longrightarrow> inv t"
  by (induction rule: rtranclp_induct) (auto intro: inv_step)

lemma le_run: "step\<^sup>*\<^sup>* s t \<Longrightarrow> inv s \<Longrightarrow> le s t"
proof (induction rule: rtranclp_induct)
  case (step t u)
  then show ?case using inv_run le_step le_trans by blast
qed (rule le_refl)

end

end
