(* ===== verification/Aios_Contracts.thy ===== *)
theory Aios_Contracts
  imports Aios_Prelude
begin

text \<open>
  The data contracts of \<open>crates/aios-contracts\<close>: the JSON value of \<open>serde_json\<close>, the AIOS IR
  program, the registry contracts, the provider manifest and the validator output, with the
  source's fields in the source's order. A struct is a record whose field names carry a short
  prefix (\<open>ir_\<close>, \<open>node_\<close>, \<open>cap_\<close>, ...); an enum is a datatype. \<open>Ord\<close> derived on an enum is the
  order of its variants, given here by an index function and a \<open>linorder\<close> instance.
\<close>

section \<open>JSON values\<close>

text \<open>An \<open>f64\<close> is its IEEE 754 bit pattern; \<open>serde_json::Number\<close> has the three internal forms.\<close>

type_synonym f64 = u64

definition f64_is_finite :: "f64 \<Rightarrow> bool" where
  "f64_is_finite w = (unat (drop_bit 52 w) mod 2048 \<noteq> 2047)"

definition f64_is_nan :: "f64 \<Rightarrow> bool" where
  "f64_is_nan w = (unat (drop_bit 52 w) mod 2048 = 2047 \<and> unat w mod 2 ^ 52 \<noteq> 0)"

definition f64_ge_zero :: "f64 \<Rightarrow> bool" where
  "f64_ge_zero w = (\<not> f64_is_nan w \<and> (unat w < 2 ^ 63 \<or> unat w = 2 ^ 63))"

datatype json_number = PosInt u64 | NegInt u64 | Float f64

datatype json =
    Null
  | Bool bool
  | Number json_number
  | String string
  | Array "json list"
  | Object "(string \<times> json) list"

type_synonym metadata = "(string, json) bmap"

fun as_u64 :: "json_number \<Rightarrow> u64 option" where
  "as_u64 (PosInt n) = Some n"
| "as_u64 _ = None"

text \<open>\<open>NegInt\<close> carries the two's complement bits of a negative \<open>i64\<close>.\<close>

fun as_i64 :: "json_number \<Rightarrow> int option" where
  "as_i64 (PosInt n) = (if unat n < 2 ^ 63 then Some (uint n) else None)"
| "as_i64 (NegInt n) = Some (sint n)"
| "as_i64 (Float _) = None"

fun as_str :: "json \<Rightarrow> string option" where
  "as_str (String s) = Some s"
| "as_str _ = None"

fun as_array :: "json \<Rightarrow> json list option" where
  "as_array (Array vs) = Some vs"
| "as_array _ = None"

fun as_object :: "json \<Rightarrow> (string, json) bmap option" where
  "as_object (Object m) = Some m"
| "as_object _ = None"

text \<open>\<open>Value::get\<close> with a string index: the member of an object, \<open>None\<close> elsewhere.\<close>

fun json_get :: "string \<Rightarrow> json \<Rightarrow> json option" where
  "json_get k (Object m) = map_of m k"
| "json_get k _ = None"


section \<open>AIOS IR programs\<close>

datatype program_kind = TaskGraph | SkillGraph

record program_input =
  pin_type_ref :: string
  pin_required :: bool
  pin_media_types :: "string list"
  pin_description :: "string option"

datatype operation_kind = Invoke | Verify

record operation =
  op_kind :: operation_kind
  op_capability :: string

datatype execution_class = Deterministic | BoundedNondeterministic | Probabilistic | OpaqueExternal

datatype value_ref = InputRef string | NodeRef string string

record authority_request =
  ar_action :: string
  ar_resource :: string
  ar_reason :: "string option"

datatype egress_mode = Deny | Policy

record egress =
  eg_mode :: egress_mode
  eg_destination_classes :: "string list"

datatype locality = Local | Peer | Remote | Hybrid

datatype accelerator_kind = Gpu | Npu | Dsp | Fpga | OtherAccelerator

record accelerator_constraint =
  acc_kind :: accelerator_kind
  acc_min_memory_bytes :: "u64 option"
  acc_optional :: bool

record constraints =
  con_locality :: "locality list"
  con_max_latency_ms :: "u64 option"
  con_max_cost_microusd :: "u64 option"
  con_min_memory_bytes :: "u64 option"
  con_accelerator :: "accelerator_constraint option"

datatype failure_policy = Stop | Retry u8 | Fallback "string list" | Replan u8

datatype cache_policy = Never | DeterministicOnly | ContentAddressed

record node =
  node_id :: string
  node_operation :: operation
  node_execution_class :: execution_class
  node_inputs :: "(string, value_ref) bmap"
  node_outputs :: "(string, string) bmap"
  node_authority_requests :: "authority_request list"
  node_egress :: egress
  node_constraints :: "constraints option"
  node_failure :: failure_policy
  node_cache :: cache_policy
  node_description :: "string option"
  node_metadata :: "metadata option"

record aios_ir =
  ir_version :: string
  ir_program_id :: string
  ir_kind :: program_kind
  ir_inputs :: "(string, program_input) bmap"
  ir_nodes :: "node list"
  ir_outputs :: "(string, value_ref) bmap"
  ir_metadata :: "metadata option"


section \<open>Registry contracts\<close>

datatype effect_class =
    Pure
  | ArtifactRead
  | ArtifactWrite
  | Network
  | DataEgress
  | ExternalMessage
  | SecretAccess
  | PersistentState
  | DeviceAccess
  | SystemChange
  | LegacyOpaque

datatype capability_role = Ordinary | Verifier

record port_contract =
  port_type_ref :: string
  port_required :: bool
  port_description :: "string option"

datatype determinism_equivalence =
  DetByteIdentical | DetCanonicalValue | DetNumericTolerance | DetSemantic | DetNotApplicable

record determinism =
  det_equivalence :: "determinism_equivalence option"
  det_numeric_absolute_tolerance :: "f64 option"
  det_numeric_relative_tolerance :: "f64 option"

record conformance =
  cf_suite_id :: string
  cf_suite_version :: "string option"
  cf_suite_hash :: "string option"

record capability_contract =
  cap_capability :: string
  cap_version :: string
  cap_description :: "string option"
  cap_role :: capability_role
  cap_inputs :: "(string, port_contract) bmap"
  cap_outputs :: "(string, port_contract) bmap"
  cap_allowed_execution_classes :: "execution_class list"
  cap_required_effect_classes :: "effect_class list"
  cap_allowed_effect_classes :: "effect_class list"
  cap_required_authority_classes :: "string list"
  cap_allowed_authority_classes :: "string list"
  cap_allowed_egress_modes :: "egress_mode list"
  cap_determinism :: "determinism option"
  cap_error_classes :: "string list"
  cap_conformance :: conformance
  cap_notes :: "string list"

datatype type_kind = Scalar | Structured | Artifact | Stream | Handle

record representation =
  rep_id :: string
  rep_media_type :: "string option"
  rep_schema_ref :: "string option"
  rep_zero_copy_candidate :: bool

datatype equality_mode = EqByteIdentical | EqCanonicalValue | EqNumericTolerance | EqSemantic | EqNotDefined

record type_equality =
  te_mode :: equality_mode
  te_canonicalizer :: "string option"
  te_numeric_absolute_tolerance :: "f64 option"
  te_numeric_relative_tolerance :: "f64 option"

record unit_semantics =
  us_unit_required :: "bool option"
  us_canonical_unit :: "string option"
  us_notes :: "string option"

record type_contract =
  ty_type_id :: string
  ty_version :: string
  ty_kind :: type_kind
  ty_description :: string
  ty_logical_schema_ref :: "string option"
  ty_nullable :: bool
  ty_representations :: "representation list"
  ty_equality :: type_equality
  ty_unit_semantics :: "unit_semantics option"
  ty_conversion_capabilities :: "string list"
  ty_conformance :: conformance
  ty_notes :: "string list"

record contract_ref =
  cr_id :: string
  cr_version :: string
  cr_content_hash :: string
  cr_source :: "string option"

record registry_publisher =
  pub_id :: "string option"
  pub_signature :: "string option"

record registry_snapshot =
  rs_schema_version :: string
  rs_snapshot_id :: string
  rs_generation :: "string option"
  rs_type_contracts :: "contract_ref list"
  rs_capability_contracts :: "contract_ref list"
  rs_created_at :: string
  rs_publisher :: "registry_publisher option"
  rs_notes :: "string list"


section \<open>Validator output\<close>

record node_effect_summary =
  nes_node_id :: string
  nes_capability :: string
  nes_execution_class :: execution_class
  nes_effects :: "effect_class list"
  nes_authority_classes :: "string list"
  nes_egress_mode :: egress_mode
  nes_verification_gate :: bool

record generated_by =
  gb_id :: "string option"
  gb_version :: "string option"

record effect_summary =
  es_schema_version :: string
  es_semantic_program_hash :: string
  es_registry_snapshot_id :: string
  es_effects :: "effect_class list"
  es_authority_classes :: "string list"
  es_egress_modes :: "egress_mode list"
  es_contains_probabilistic :: bool
  es_contains_opaque_external :: bool
  es_nodes :: "node_effect_summary list"
  es_verification_barriers :: "string list"
  es_generated_by :: "generated_by option"
  es_generated_at :: "string option"

record validator_identity =
  vi_id :: string
  vi_version :: string
  vi_build_hash :: "string option"


section \<open>Provider manifests\<close>

record provider_publisher =
  pp_id :: string
  pp_name :: "string option"
  pp_source_url :: "string option"
  pp_signature :: "string option"

datatype provider_runtime_kind =
  Builtin | Process | Varlink | Oci | Wasm | ModelAdapter | LegacyAdapter | RemoteRuntime

record provider_runtime =
  pr_kind :: provider_runtime_kind
  pr_entrypoint :: "string option"
  pr_interface :: "string option"
  pr_image :: "string option"
  pr_digest :: "string option"

record provider_contract_claim =
  pcc_capability :: string
  pcc_version :: string
  pcc_contract_hash :: "string option"
  pcc_contract_source :: "string option"

datatype conformance_status = Declared | Tested | Certified

record provider_conformance =
  pc_suite :: string
  pc_suite_hash :: "string option"
  pc_status :: conformance_status
  pc_tested_at :: "string option"
  pc_test_environment :: "string option"

datatype isolation_profile = P0 | P1 | P2 | P3 | P4 | P5

datatype network_default = NetNone | NetAllowlist | NetInternet

record provider_execution =
  px_locality :: "locality list"
  px_execution_class :: execution_class
  px_minimum_isolation :: isolation_profile
  px_network_default :: "network_default option"

record provider_authority =
  pa_actions :: "string list"
  pa_resource_classes :: "string list"

record provider_resource_requirements =
  prr_min_memory_bytes :: "u64 option"
  prr_preferred_accelerators :: "string list"
  prr_requires_gpu :: bool

record provider_capability =
  pv_contract :: provider_contract_claim
  pv_conformance :: provider_conformance
  pv_effect_classes :: "effect_class list"
  pv_execution :: provider_execution
  pv_authority :: "provider_authority option"
  pv_representations :: "(string, string list) bmap"
  pv_resource_requirements :: "provider_resource_requirements option"

datatype provider_review_status = Unreviewed | ProjectReviewed | ThirdPartyReviewed

record provider_trust =
  pt_source_hash :: "string option"
  pt_build_provenance :: "string option"
  pt_review_status :: "provider_review_status option"

record capability_manifest =
  cm_schema_version :: string
  cm_id :: string
  cm_version :: string
  cm_publisher :: provider_publisher
  cm_runtime :: provider_runtime
  cm_provides :: "provider_capability list"
  cm_trust :: "provider_trust option"

definition SCHEMA_VERSION_V0_1 :: string where
  "SCHEMA_VERSION_V0_1 = ''0.1''"


section \<open>Derived orders\<close>

fun effect_index :: "effect_class \<Rightarrow> nat" where
  "effect_index Pure = 0"
| "effect_index ArtifactRead = 1"
| "effect_index ArtifactWrite = 2"
| "effect_index Network = 3"
| "effect_index DataEgress = 4"
| "effect_index ExternalMessage = 5"
| "effect_index SecretAccess = 6"
| "effect_index PersistentState = 7"
| "effect_index DeviceAccess = 8"
| "effect_index SystemChange = 9"
| "effect_index LegacyOpaque = 10"

lemma effect_index_inj: "effect_index a = effect_index b \<Longrightarrow> a = b"
  by (cases a; cases b) simp_all

instantiation effect_class :: linorder
begin

definition less_eq_effect_class :: "effect_class \<Rightarrow> effect_class \<Rightarrow> bool" where
  "less_eq_effect_class a b = (effect_index a \<le> effect_index b)"

definition less_effect_class :: "effect_class \<Rightarrow> effect_class \<Rightarrow> bool" where
  "less_effect_class a b = (effect_index a < effect_index b)"

instance
  by standard (auto simp: less_eq_effect_class_def less_effect_class_def dest: effect_index_inj)

end

fun execution_index :: "execution_class \<Rightarrow> nat" where
  "execution_index Deterministic = 0"
| "execution_index BoundedNondeterministic = 1"
| "execution_index Probabilistic = 2"
| "execution_index OpaqueExternal = 3"

lemma execution_index_inj: "execution_index a = execution_index b \<Longrightarrow> a = b"
  by (cases a; cases b) simp_all

instantiation execution_class :: linorder
begin

definition less_eq_execution_class :: "execution_class \<Rightarrow> execution_class \<Rightarrow> bool" where
  "less_eq_execution_class a b = (execution_index a \<le> execution_index b)"

definition less_execution_class :: "execution_class \<Rightarrow> execution_class \<Rightarrow> bool" where
  "less_execution_class a b = (execution_index a < execution_index b)"

instance
  by standard
    (auto simp: less_eq_execution_class_def less_execution_class_def dest: execution_index_inj)

end

fun egress_index :: "egress_mode \<Rightarrow> nat" where
  "egress_index Deny = 0"
| "egress_index Policy = 1"

lemma egress_index_inj: "egress_index a = egress_index b \<Longrightarrow> a = b"
  by (cases a; cases b) simp_all

instantiation egress_mode :: linorder
begin

definition less_eq_egress_mode :: "egress_mode \<Rightarrow> egress_mode \<Rightarrow> bool" where
  "less_eq_egress_mode a b = (egress_index a \<le> egress_index b)"

definition less_egress_mode :: "egress_mode \<Rightarrow> egress_mode \<Rightarrow> bool" where
  "less_egress_mode a b = (egress_index a < egress_index b)"

instance
  by standard (auto simp: less_eq_egress_mode_def less_egress_mode_def dest: egress_index_inj)

end

fun isolation_index :: "isolation_profile \<Rightarrow> nat" where
  "isolation_index P0 = 0"
| "isolation_index P1 = 1"
| "isolation_index P2 = 2"
| "isolation_index P3 = 3"
| "isolation_index P4 = 4"
| "isolation_index P5 = 5"

lemma isolation_index_inj: "isolation_index a = isolation_index b \<Longrightarrow> a = b"
  by (cases a; cases b) simp_all

instantiation isolation_profile :: linorder
begin

definition less_eq_isolation_profile :: "isolation_profile \<Rightarrow> isolation_profile \<Rightarrow> bool" where
  "less_eq_isolation_profile a b = (isolation_index a \<le> isolation_index b)"

definition less_isolation_profile :: "isolation_profile \<Rightarrow> isolation_profile \<Rightarrow> bool" where
  "less_isolation_profile a b = (isolation_index a < isolation_index b)"

instance
  by standard
    (auto simp: less_eq_isolation_profile_def less_isolation_profile_def dest: isolation_index_inj)

end

lemma UNIV_effect_class:
  "UNIV = {Pure, ArtifactRead, ArtifactWrite, Network, DataEgress, ExternalMessage, SecretAccess,
    PersistentState, DeviceAccess, SystemChange, LegacyOpaque}"
  using effect_class.exhaust by blast

end
