(* ===== verification/Aios_Diagnostics.thy ===== *)
theory Aios_Diagnostics
  imports Aios_Contracts
begin

text \<open>
  The closed reason-code catalogs of \<open>crates/aios-contracts/src/diagnostics.rs\<close> and the bounded
  diagnostic collector of \<open>crates/aios-ir/src/diagnostics.rs\<close>. The lemmas show that the catalogs
  round-trip through their stable names, that the collector's error flag is exact whatever it
  suppresses, that every emitted field is bounded, and that the first diagnostic survives
  truncation.
\<close>

section \<open>Reason codes\<close>

datatype severity = Error | Warning

datatype validation_stage =
    StageParse
  | StageSchema
  | StageLimits
  | StageGraph
  | StageReferences
  | StageTypes
  | StageCapabilities
  | StageEffectsAuthority
  | StageFailureFallback
  | StageCanonicalization
  | StageRegistry

datatype (plugins only: code) validator_reason_code =
    IrParseInvalid
  | IrParseDuplicateKey
  | IrSchemaRequired
  | IrSchemaAdditionalProperty
  | IrSchemaEnum
  | IrSchemaPattern
  | IrSchemaType
  | IrSchemaRange
  | IrVersionUnsupported
  | IrLimitDocumentSize
  | IrLimitDepth
  | IrLimitNodeCount
  | IrLimitPortCount
  | IrLimitAuthorityRequestCount
  | IrLimitFallbackCount
  | IrLimitStringLength
  | IrLimitDiagnostics
  | IrGraphDuplicateNodeId
  | IrGraphCycle
  | IrGraphUnusedPureNode
  | IrReferenceInputNotFound
  | IrReferenceNodeNotFound
  | IrReferencePortNotFound
  | IrOutputNotFound
  | IrTypeNotFound
  | IrTypeMismatch
  | IrOptionalInputToRequiredPort
  | IrCapabilityNotFound
  | IrCapabilityPortMismatch
  | IrCapabilityRoleMismatch
  | IrExecutionClassIncompatible
  | IrAuthorityClassNotAllowed
  | IrRequiredAuthorityMissing
  | IrAuthorityDuplicateRequest
  | IrEffectClassNotAllowed
  | IrEgressNotAllowed
  | IrEgressContradiction
  | IrEgressAuthorityMismatch
  | IrCacheExecutionClassMismatch
  | IrFailurePolicyUnbounded
  | IrFailurePolicyRecursiveFallback
  | IrFallbackPortMismatch
  | IrFallbackEffectBroadening
  | IrFallbackAuthorityBroadening
  | IrFallbackEgressBroadening
  | IrCanonicalizationFailed
  | RegistrySchemaInvalid
  | RegistryUnsupportedVersion
  | RegistryDuplicateTypeMajor
  | RegistryDuplicateCapabilityMajor
  | RegistryEntryNotFound
  | RegistryContractVersionMismatch
  | RegistryContractHashMismatch
  | RegistrySnapshotHashMismatch
  | RegistryRequiredEffectNotAllowed
  | RegistryRequiredAuthorityNotAllowed
  | RegistryPureEffectContradiction

definition validator_reason_code_ALL :: "validator_reason_code list" where
  "validator_reason_code_ALL =
    [IrParseInvalid,
     IrParseDuplicateKey,
     IrSchemaRequired,
     IrSchemaAdditionalProperty,
     IrSchemaEnum,
     IrSchemaPattern,
     IrSchemaType,
     IrSchemaRange,
     IrVersionUnsupported,
     IrLimitDocumentSize,
     IrLimitDepth,
     IrLimitNodeCount,
     IrLimitPortCount,
     IrLimitAuthorityRequestCount,
     IrLimitFallbackCount,
     IrLimitStringLength,
     IrLimitDiagnostics,
     IrGraphDuplicateNodeId,
     IrGraphCycle,
     IrGraphUnusedPureNode,
     IrReferenceInputNotFound,
     IrReferenceNodeNotFound,
     IrReferencePortNotFound,
     IrOutputNotFound,
     IrTypeNotFound,
     IrTypeMismatch,
     IrOptionalInputToRequiredPort,
     IrCapabilityNotFound,
     IrCapabilityPortMismatch,
     IrCapabilityRoleMismatch,
     IrExecutionClassIncompatible,
     IrAuthorityClassNotAllowed,
     IrRequiredAuthorityMissing,
     IrAuthorityDuplicateRequest,
     IrEffectClassNotAllowed,
     IrEgressNotAllowed,
     IrEgressContradiction,
     IrEgressAuthorityMismatch,
     IrCacheExecutionClassMismatch,
     IrFailurePolicyUnbounded,
     IrFailurePolicyRecursiveFallback,
     IrFallbackPortMismatch,
     IrFallbackEffectBroadening,
     IrFallbackAuthorityBroadening,
     IrFallbackEgressBroadening,
     IrCanonicalizationFailed,
     RegistrySchemaInvalid,
     RegistryUnsupportedVersion,
     RegistryDuplicateTypeMajor,
     RegistryDuplicateCapabilityMajor,
     RegistryEntryNotFound,
     RegistryContractVersionMismatch,
     RegistryContractHashMismatch,
     RegistrySnapshotHashMismatch,
     RegistryRequiredEffectNotAllowed,
     RegistryRequiredAuthorityNotAllowed,
     RegistryPureEffectContradiction]"

primrec reason_as_str :: "validator_reason_code \<Rightarrow> string" where
  "reason_as_str IrParseInvalid = ''IR_PARSE_INVALID''"
| "reason_as_str IrParseDuplicateKey = ''IR_PARSE_DUPLICATE_KEY''"
| "reason_as_str IrSchemaRequired = ''IR_SCHEMA_REQUIRED''"
| "reason_as_str IrSchemaAdditionalProperty = ''IR_SCHEMA_ADDITIONAL_PROPERTY''"
| "reason_as_str IrSchemaEnum = ''IR_SCHEMA_ENUM''"
| "reason_as_str IrSchemaPattern = ''IR_SCHEMA_PATTERN''"
| "reason_as_str IrSchemaType = ''IR_SCHEMA_TYPE''"
| "reason_as_str IrSchemaRange = ''IR_SCHEMA_RANGE''"
| "reason_as_str IrVersionUnsupported = ''IR_VERSION_UNSUPPORTED''"
| "reason_as_str IrLimitDocumentSize = ''IR_LIMIT_DOCUMENT_SIZE''"
| "reason_as_str IrLimitDepth = ''IR_LIMIT_DEPTH''"
| "reason_as_str IrLimitNodeCount = ''IR_LIMIT_NODE_COUNT''"
| "reason_as_str IrLimitPortCount = ''IR_LIMIT_PORT_COUNT''"
| "reason_as_str IrLimitAuthorityRequestCount = ''IR_LIMIT_AUTHORITY_REQUEST_COUNT''"
| "reason_as_str IrLimitFallbackCount = ''IR_LIMIT_FALLBACK_COUNT''"
| "reason_as_str IrLimitStringLength = ''IR_LIMIT_STRING_LENGTH''"
| "reason_as_str IrLimitDiagnostics = ''IR_LIMIT_DIAGNOSTICS''"
| "reason_as_str IrGraphDuplicateNodeId = ''IR_GRAPH_DUPLICATE_NODE_ID''"
| "reason_as_str IrGraphCycle = ''IR_GRAPH_CYCLE''"
| "reason_as_str IrGraphUnusedPureNode = ''IR_GRAPH_UNUSED_PURE_NODE''"
| "reason_as_str IrReferenceInputNotFound = ''IR_REFERENCE_INPUT_NOT_FOUND''"
| "reason_as_str IrReferenceNodeNotFound = ''IR_REFERENCE_NODE_NOT_FOUND''"
| "reason_as_str IrReferencePortNotFound = ''IR_REFERENCE_PORT_NOT_FOUND''"
| "reason_as_str IrOutputNotFound = ''IR_OUTPUT_NOT_FOUND''"
| "reason_as_str IrTypeNotFound = ''IR_TYPE_NOT_FOUND''"
| "reason_as_str IrTypeMismatch = ''IR_TYPE_MISMATCH''"
| "reason_as_str IrOptionalInputToRequiredPort = ''IR_OPTIONAL_INPUT_TO_REQUIRED_PORT''"
| "reason_as_str IrCapabilityNotFound = ''IR_CAPABILITY_NOT_FOUND''"
| "reason_as_str IrCapabilityPortMismatch = ''IR_CAPABILITY_PORT_MISMATCH''"
| "reason_as_str IrCapabilityRoleMismatch = ''IR_CAPABILITY_ROLE_MISMATCH''"
| "reason_as_str IrExecutionClassIncompatible = ''IR_EXECUTION_CLASS_INCOMPATIBLE''"
| "reason_as_str IrAuthorityClassNotAllowed = ''IR_AUTHORITY_CLASS_NOT_ALLOWED''"
| "reason_as_str IrRequiredAuthorityMissing = ''IR_REQUIRED_AUTHORITY_MISSING''"
| "reason_as_str IrAuthorityDuplicateRequest = ''IR_AUTHORITY_DUPLICATE_REQUEST''"
| "reason_as_str IrEffectClassNotAllowed = ''IR_EFFECT_CLASS_NOT_ALLOWED''"
| "reason_as_str IrEgressNotAllowed = ''IR_EGRESS_NOT_ALLOWED''"
| "reason_as_str IrEgressContradiction = ''IR_EGRESS_CONTRADICTION''"
| "reason_as_str IrEgressAuthorityMismatch = ''IR_EGRESS_AUTHORITY_MISMATCH''"
| "reason_as_str IrCacheExecutionClassMismatch = ''IR_CACHE_EXECUTION_CLASS_MISMATCH''"
| "reason_as_str IrFailurePolicyUnbounded = ''IR_FAILURE_POLICY_UNBOUNDED''"
| "reason_as_str IrFailurePolicyRecursiveFallback = ''IR_FAILURE_POLICY_RECURSIVE_FALLBACK''"
| "reason_as_str IrFallbackPortMismatch = ''IR_FALLBACK_PORT_MISMATCH''"
| "reason_as_str IrFallbackEffectBroadening = ''IR_FALLBACK_EFFECT_BROADENING''"
| "reason_as_str IrFallbackAuthorityBroadening = ''IR_FALLBACK_AUTHORITY_BROADENING''"
| "reason_as_str IrFallbackEgressBroadening = ''IR_FALLBACK_EGRESS_BROADENING''"
| "reason_as_str IrCanonicalizationFailed = ''IR_CANONICALIZATION_FAILED''"
| "reason_as_str RegistrySchemaInvalid = ''REGISTRY_SCHEMA_INVALID''"
| "reason_as_str RegistryUnsupportedVersion = ''REGISTRY_UNSUPPORTED_VERSION''"
| "reason_as_str RegistryDuplicateTypeMajor = ''REGISTRY_DUPLICATE_TYPE_MAJOR''"
| "reason_as_str RegistryDuplicateCapabilityMajor = ''REGISTRY_DUPLICATE_CAPABILITY_MAJOR''"
| "reason_as_str RegistryEntryNotFound = ''REGISTRY_ENTRY_NOT_FOUND''"
| "reason_as_str RegistryContractVersionMismatch = ''REGISTRY_CONTRACT_VERSION_MISMATCH''"
| "reason_as_str RegistryContractHashMismatch = ''REGISTRY_CONTRACT_HASH_MISMATCH''"
| "reason_as_str RegistrySnapshotHashMismatch = ''REGISTRY_SNAPSHOT_HASH_MISMATCH''"
| "reason_as_str RegistryRequiredEffectNotAllowed = ''REGISTRY_REQUIRED_EFFECT_NOT_ALLOWED''"
| "reason_as_str RegistryRequiredAuthorityNotAllowed = ''REGISTRY_REQUIRED_AUTHORITY_NOT_ALLOWED''"
| "reason_as_str RegistryPureEffectContradiction = ''REGISTRY_PURE_EFFECT_CONTRADICTION''"

primrec reason_severity :: "validator_reason_code \<Rightarrow> severity" where
  "reason_severity IrParseInvalid = Error"
| "reason_severity IrParseDuplicateKey = Error"
| "reason_severity IrSchemaRequired = Error"
| "reason_severity IrSchemaAdditionalProperty = Error"
| "reason_severity IrSchemaEnum = Error"
| "reason_severity IrSchemaPattern = Error"
| "reason_severity IrSchemaType = Error"
| "reason_severity IrSchemaRange = Error"
| "reason_severity IrVersionUnsupported = Error"
| "reason_severity IrLimitDocumentSize = Error"
| "reason_severity IrLimitDepth = Error"
| "reason_severity IrLimitNodeCount = Error"
| "reason_severity IrLimitPortCount = Error"
| "reason_severity IrLimitAuthorityRequestCount = Error"
| "reason_severity IrLimitFallbackCount = Error"
| "reason_severity IrLimitStringLength = Error"
| "reason_severity IrLimitDiagnostics = Warning"
| "reason_severity IrGraphDuplicateNodeId = Error"
| "reason_severity IrGraphCycle = Error"
| "reason_severity IrGraphUnusedPureNode = Warning"
| "reason_severity IrReferenceInputNotFound = Error"
| "reason_severity IrReferenceNodeNotFound = Error"
| "reason_severity IrReferencePortNotFound = Error"
| "reason_severity IrOutputNotFound = Error"
| "reason_severity IrTypeNotFound = Error"
| "reason_severity IrTypeMismatch = Error"
| "reason_severity IrOptionalInputToRequiredPort = Error"
| "reason_severity IrCapabilityNotFound = Error"
| "reason_severity IrCapabilityPortMismatch = Error"
| "reason_severity IrCapabilityRoleMismatch = Error"
| "reason_severity IrExecutionClassIncompatible = Error"
| "reason_severity IrAuthorityClassNotAllowed = Error"
| "reason_severity IrRequiredAuthorityMissing = Error"
| "reason_severity IrAuthorityDuplicateRequest = Error"
| "reason_severity IrEffectClassNotAllowed = Error"
| "reason_severity IrEgressNotAllowed = Error"
| "reason_severity IrEgressContradiction = Error"
| "reason_severity IrEgressAuthorityMismatch = Error"
| "reason_severity IrCacheExecutionClassMismatch = Error"
| "reason_severity IrFailurePolicyUnbounded = Error"
| "reason_severity IrFailurePolicyRecursiveFallback = Error"
| "reason_severity IrFallbackPortMismatch = Error"
| "reason_severity IrFallbackEffectBroadening = Error"
| "reason_severity IrFallbackAuthorityBroadening = Error"
| "reason_severity IrFallbackEgressBroadening = Error"
| "reason_severity IrCanonicalizationFailed = Error"
| "reason_severity RegistrySchemaInvalid = Error"
| "reason_severity RegistryUnsupportedVersion = Error"
| "reason_severity RegistryDuplicateTypeMajor = Error"
| "reason_severity RegistryDuplicateCapabilityMajor = Error"
| "reason_severity RegistryEntryNotFound = Error"
| "reason_severity RegistryContractVersionMismatch = Error"
| "reason_severity RegistryContractHashMismatch = Error"
| "reason_severity RegistrySnapshotHashMismatch = Error"
| "reason_severity RegistryRequiredEffectNotAllowed = Error"
| "reason_severity RegistryRequiredAuthorityNotAllowed = Error"
| "reason_severity RegistryPureEffectContradiction = Error"

primrec reason_stage :: "validator_reason_code \<Rightarrow> validation_stage" where
  "reason_stage IrParseInvalid = StageParse"
| "reason_stage IrParseDuplicateKey = StageParse"
| "reason_stage IrSchemaRequired = StageSchema"
| "reason_stage IrSchemaAdditionalProperty = StageSchema"
| "reason_stage IrSchemaEnum = StageSchema"
| "reason_stage IrSchemaPattern = StageSchema"
| "reason_stage IrSchemaType = StageSchema"
| "reason_stage IrSchemaRange = StageSchema"
| "reason_stage IrVersionUnsupported = StageSchema"
| "reason_stage IrLimitDocumentSize = StageLimits"
| "reason_stage IrLimitDepth = StageLimits"
| "reason_stage IrLimitNodeCount = StageLimits"
| "reason_stage IrLimitPortCount = StageLimits"
| "reason_stage IrLimitAuthorityRequestCount = StageLimits"
| "reason_stage IrLimitFallbackCount = StageLimits"
| "reason_stage IrLimitStringLength = StageLimits"
| "reason_stage IrLimitDiagnostics = StageLimits"
| "reason_stage IrGraphDuplicateNodeId = StageGraph"
| "reason_stage IrGraphCycle = StageGraph"
| "reason_stage IrGraphUnusedPureNode = StageGraph"
| "reason_stage IrReferenceInputNotFound = StageReferences"
| "reason_stage IrReferenceNodeNotFound = StageReferences"
| "reason_stage IrReferencePortNotFound = StageReferences"
| "reason_stage IrOutputNotFound = StageReferences"
| "reason_stage IrTypeNotFound = StageTypes"
| "reason_stage IrTypeMismatch = StageTypes"
| "reason_stage IrOptionalInputToRequiredPort = StageTypes"
| "reason_stage IrCapabilityNotFound = StageCapabilities"
| "reason_stage IrCapabilityPortMismatch = StageCapabilities"
| "reason_stage IrCapabilityRoleMismatch = StageCapabilities"
| "reason_stage IrExecutionClassIncompatible = StageCapabilities"
| "reason_stage IrAuthorityClassNotAllowed = StageEffectsAuthority"
| "reason_stage IrRequiredAuthorityMissing = StageEffectsAuthority"
| "reason_stage IrAuthorityDuplicateRequest = StageEffectsAuthority"
| "reason_stage IrEffectClassNotAllowed = StageEffectsAuthority"
| "reason_stage IrEgressNotAllowed = StageEffectsAuthority"
| "reason_stage IrEgressContradiction = StageEffectsAuthority"
| "reason_stage IrEgressAuthorityMismatch = StageEffectsAuthority"
| "reason_stage IrCacheExecutionClassMismatch = StageEffectsAuthority"
| "reason_stage IrFailurePolicyUnbounded = StageFailureFallback"
| "reason_stage IrFailurePolicyRecursiveFallback = StageFailureFallback"
| "reason_stage IrFallbackPortMismatch = StageFailureFallback"
| "reason_stage IrFallbackEffectBroadening = StageFailureFallback"
| "reason_stage IrFallbackAuthorityBroadening = StageFailureFallback"
| "reason_stage IrFallbackEgressBroadening = StageFailureFallback"
| "reason_stage IrCanonicalizationFailed = StageCanonicalization"
| "reason_stage RegistrySchemaInvalid = StageRegistry"
| "reason_stage RegistryUnsupportedVersion = StageRegistry"
| "reason_stage RegistryDuplicateTypeMajor = StageRegistry"
| "reason_stage RegistryDuplicateCapabilityMajor = StageRegistry"
| "reason_stage RegistryEntryNotFound = StageRegistry"
| "reason_stage RegistryContractVersionMismatch = StageRegistry"
| "reason_stage RegistryContractHashMismatch = StageRegistry"
| "reason_stage RegistrySnapshotHashMismatch = StageRegistry"
| "reason_stage RegistryRequiredEffectNotAllowed = StageRegistry"
| "reason_stage RegistryRequiredAuthorityNotAllowed = StageRegistry"
| "reason_stage RegistryPureEffectContradiction = StageRegistry"

text \<open>The generated \<open>from_str\<close> matches the catalog's names; \<open>UnknownReasonCode\<close> is \<open>Inl\<close>.\<close>

definition reason_from_str :: "string \<Rightarrow> string + validator_reason_code" where
  "reason_from_str value =
     (case map_of (map (\<lambda>c. (reason_as_str c, c)) validator_reason_code_ALL) value of
        Some c \<Rightarrow> Inr c
      | None \<Rightarrow> Inl value)"

datatype provider_reason_code =
    ProviderContractNotFound
  | ProviderContractHashMismatch
  | ProviderExecutionClassIncompatible
  | ProviderEffectNotAllowed
  | ProviderRequiredEffectMissing
  | ProviderAuthorityNotAllowed
  | ProviderRequiredAuthorityMissing
  | ProviderEgressNotAllowed
  | ProviderPortOrTypeMismatch
  | ProviderIsolationIncompatible
  | ProviderSuiteMismatch
  | ProviderBuildIdentityMissing
  | ProviderConformanceFailed
  | ProviderConformanceExpired
  | ProviderDeclarationInvalid

definition provider_reason_code_ALL :: "provider_reason_code list" where
  "provider_reason_code_ALL =
    [ProviderContractNotFound,
     ProviderContractHashMismatch,
     ProviderExecutionClassIncompatible,
     ProviderEffectNotAllowed,
     ProviderRequiredEffectMissing,
     ProviderAuthorityNotAllowed,
     ProviderRequiredAuthorityMissing,
     ProviderEgressNotAllowed,
     ProviderPortOrTypeMismatch,
     ProviderIsolationIncompatible,
     ProviderSuiteMismatch,
     ProviderBuildIdentityMissing,
     ProviderConformanceFailed,
     ProviderConformanceExpired,
     ProviderDeclarationInvalid]"

primrec provider_reason_as_str :: "provider_reason_code \<Rightarrow> string" where
  "provider_reason_as_str ProviderContractNotFound = ''PROVIDER_CONTRACT_NOT_FOUND''"
| "provider_reason_as_str ProviderContractHashMismatch = ''PROVIDER_CONTRACT_HASH_MISMATCH''"
| "provider_reason_as_str ProviderExecutionClassIncompatible = ''PROVIDER_EXECUTION_CLASS_INCOMPATIBLE''"
| "provider_reason_as_str ProviderEffectNotAllowed = ''PROVIDER_EFFECT_NOT_ALLOWED''"
| "provider_reason_as_str ProviderRequiredEffectMissing = ''PROVIDER_REQUIRED_EFFECT_MISSING''"
| "provider_reason_as_str ProviderAuthorityNotAllowed = ''PROVIDER_AUTHORITY_NOT_ALLOWED''"
| "provider_reason_as_str ProviderRequiredAuthorityMissing = ''PROVIDER_REQUIRED_AUTHORITY_MISSING''"
| "provider_reason_as_str ProviderEgressNotAllowed = ''PROVIDER_EGRESS_NOT_ALLOWED''"
| "provider_reason_as_str ProviderPortOrTypeMismatch = ''PROVIDER_PORT_OR_TYPE_MISMATCH''"
| "provider_reason_as_str ProviderIsolationIncompatible = ''PROVIDER_ISOLATION_INCOMPATIBLE''"
| "provider_reason_as_str ProviderSuiteMismatch = ''PROVIDER_SUITE_MISMATCH''"
| "provider_reason_as_str ProviderBuildIdentityMissing = ''PROVIDER_BUILD_IDENTITY_MISSING''"
| "provider_reason_as_str ProviderConformanceFailed = ''PROVIDER_CONFORMANCE_FAILED''"
| "provider_reason_as_str ProviderConformanceExpired = ''PROVIDER_CONFORMANCE_EXPIRED''"
| "provider_reason_as_str ProviderDeclarationInvalid = ''PROVIDER_DECLARATION_INVALID''"

definition provider_reason_from_str :: "string \<Rightarrow> string + provider_reason_code" where
  "provider_reason_from_str value =
     (case map_of (map (\<lambda>c. (provider_reason_as_str c, c)) provider_reason_code_ALL) value of
        Some c \<Rightarrow> Inr c
      | None \<Rightarrow> Inl value)"


section \<open>Diagnostics and their collector\<close>

record diagnostic =
  dg_severity :: severity
  dg_code :: validator_reason_code
  dg_message :: string
  dg_node_id :: "string option"
  dg_port :: "string option"
  dg_capability :: "string option"
  dg_json_pointer :: "string option"
  dg_related :: "string list"

definition diagnostic_new :: "validator_reason_code \<Rightarrow> string \<Rightarrow> diagnostic" where
  "diagnostic_new code message =
     \<lparr>dg_severity = reason_severity code, dg_code = code, dg_message = message,
      dg_node_id = None, dg_port = None, dg_capability = None, dg_json_pointer = None,
      dg_related = []\<rparr>"

definition contextual ::
  "validator_reason_code \<Rightarrow> string \<Rightarrow> string option \<Rightarrow> string option \<Rightarrow> string option \<Rightarrow>
    string option \<Rightarrow> diagnostic" where
  "contextual code message nid port capability pointer =
     (diagnostic_new code message)
       \<lparr>dg_node_id := nid, dg_port := port, dg_capability := capability,
        dg_json_pointer := pointer\<rparr>"

record diagnostic_collector =
  dc_diagnostics :: "diagnostic list"
  dc_max :: nat
  dc_truncated :: bool
  dc_saw_error :: bool

definition collector_new :: "nat \<Rightarrow> diagnostic_collector" where
  "collector_new m = \<lparr>dc_diagnostics = [], dc_max = m, dc_truncated = False, dc_saw_error = False\<rparr>"

definition truncate_optional :: "string option \<Rightarrow> nat \<Rightarrow> string option" where
  "truncate_optional v m = map_option (truncate_chars m) v"

definition bounded_diagnostic :: "diagnostic \<Rightarrow> diagnostic" where
  "bounded_diagnostic d =
     d\<lparr>dg_message := truncate_chars 4096 (dg_message d),
       dg_node_id := truncate_optional (dg_node_id d) 128,
       dg_port := truncate_optional (dg_port d) 128,
       dg_capability := truncate_optional (dg_capability d) 160,
       dg_json_pointer := truncate_optional (dg_json_pointer d) 1024,
       dg_related := map (truncate_chars 1024) (take 16 (dg_related d))\<rparr>"

definition collector_push :: "diagnostic_collector \<Rightarrow> diagnostic \<Rightarrow> diagnostic_collector" where
  "collector_push c d =
     (let d' = bounded_diagnostic d;
          c' = c\<lparr>dc_saw_error := (dc_saw_error c \<or> dg_severity d' = Error)\<rparr>
      in if length (dc_diagnostics c') < dc_max c'
         then c'\<lparr>dc_diagnostics := dc_diagnostics c' @ [d']\<rparr>
         else c'\<lparr>dc_truncated := True\<rparr>)"

definition collector_error ::
  "diagnostic_collector \<Rightarrow> validator_reason_code \<Rightarrow> string \<Rightarrow> diagnostic_collector" where
  "collector_error c code message = collector_push c (diagnostic_new code message)"

definition has_errors :: "diagnostic_collector \<Rightarrow> bool" where
  "has_errors c = dc_saw_error c"

definition collector_is_truncated :: "diagnostic_collector \<Rightarrow> bool" where
  "collector_is_truncated c = dc_truncated c"

definition collector_finish :: "diagnostic_collector \<Rightarrow> diagnostic list \<times> bool" where
  "collector_finish c =
     (let ds = dc_diagnostics c;
          notice = diagnostic_new IrLimitDiagnostics
            ''additional diagnostics were suppressed by the configured limit''
      in if dc_truncated c \<and> 1 < dc_max c
         then ((if length ds = dc_max c then butlast ds else ds) @ [notice], dc_truncated c)
         else (ds, dc_truncated c))"

text \<open>
  A check that pushes diagnostics one after another is modelled by the list it pushes;
  \<open>push_all\<close> replays that list on the collector.
\<close>

definition push_all :: "diagnostic_collector \<Rightarrow> diagnostic list \<Rightarrow> diagnostic_collector" where
  "push_all c ds = foldl collector_push c ds"

definition is_error :: "diagnostic \<Rightarrow> bool" where
  "is_error d = (dg_severity d = Error)"


section \<open>Catalog lemmas\<close>

lemma reason_code_in_ALL: "c \<in> set validator_reason_code_ALL"
  by (cases c) (simp_all add: validator_reason_code_ALL_def)

lemma provider_reason_code_in_ALL: "c \<in> set provider_reason_code_ALL"
  by (cases c) (simp_all add: provider_reason_code_ALL_def)

lemma sorted_wrt_less_step:
  "sorted_wrt (<) ((x::'a::linorder) # y # zs) \<longleftrightarrow> x < y \<and> sorted_wrt (<) (y # zs)"
  by (auto dest: less_trans)

text \<open>The catalog in the alphabetical order of its names: adjacent names differ, so all do.\<close>

lemma reason_as_str_inj: "reason_as_str a = reason_as_str b \<Longrightarrow> a = b"
proof -
  let ?perm = "[IrAuthorityClassNotAllowed,
     IrAuthorityDuplicateRequest,
     IrCacheExecutionClassMismatch,
     IrCanonicalizationFailed,
     IrCapabilityNotFound,
     IrCapabilityPortMismatch,
     IrCapabilityRoleMismatch,
     IrEffectClassNotAllowed,
     IrEgressAuthorityMismatch,
     IrEgressContradiction,
     IrEgressNotAllowed,
     IrExecutionClassIncompatible,
     IrFailurePolicyRecursiveFallback,
     IrFailurePolicyUnbounded,
     IrFallbackAuthorityBroadening,
     IrFallbackEffectBroadening,
     IrFallbackEgressBroadening,
     IrFallbackPortMismatch,
     IrGraphCycle,
     IrGraphDuplicateNodeId,
     IrGraphUnusedPureNode,
     IrLimitAuthorityRequestCount,
     IrLimitDepth,
     IrLimitDiagnostics,
     IrLimitDocumentSize,
     IrLimitFallbackCount,
     IrLimitNodeCount,
     IrLimitPortCount,
     IrLimitStringLength,
     IrOptionalInputToRequiredPort,
     IrOutputNotFound,
     IrParseDuplicateKey,
     IrParseInvalid,
     IrReferenceInputNotFound,
     IrReferenceNodeNotFound,
     IrReferencePortNotFound,
     IrRequiredAuthorityMissing,
     IrSchemaAdditionalProperty,
     IrSchemaEnum,
     IrSchemaPattern,
     IrSchemaRange,
     IrSchemaRequired,
     IrSchemaType,
     IrTypeMismatch,
     IrTypeNotFound,
     IrVersionUnsupported,
     RegistryContractHashMismatch,
     RegistryContractVersionMismatch,
     RegistryDuplicateCapabilityMajor,
     RegistryDuplicateTypeMajor,
     RegistryEntryNotFound,
     RegistryPureEffectContradiction,
     RegistryRequiredAuthorityNotAllowed,
     RegistryRequiredEffectNotAllowed,
     RegistrySchemaInvalid,
     RegistrySnapshotHashMismatch,
     RegistryUnsupportedVersion]"
  have "sorted_wrt (<) (map reason_as_str ?perm)"
    by (simp del: sorted_wrt.simps add: sorted_wrt_less_step sorted_wrt1 less_char_def)
  then have inj: "inj_on reason_as_str (set ?perm)"
    by (metis distinct_map strict_sorted_iff)
  have mem: "c \<in> set ?perm" for c
    by (cases c) simp_all
  show "reason_as_str a = reason_as_str b \<Longrightarrow> a = b"
    by (rule inj_onD [OF inj _ mem mem])
qed

lemma reason_as_str_distinct: "distinct (map reason_as_str validator_reason_code_ALL)"
proof -
  have "distinct validator_reason_code_ALL"
    by (simp add: validator_reason_code_ALL_def)
  then show ?thesis
    by (simp add: distinct_map inj_on_def reason_as_str_inj)
qed

lemma provider_reason_as_str_distinct:
  "distinct (map provider_reason_as_str provider_reason_code_ALL)"
  by code_simp

lemma reason_from_str_Inr_iff: "reason_from_str s = Inr c \<longleftrightarrow> s = reason_as_str c"
proof -
  have "distinct (map fst (map (\<lambda>c. (reason_as_str c, c)) validator_reason_code_ALL))"
    using reason_as_str_distinct by (simp add: comp_def)
  then have "map_of (map (\<lambda>c. (reason_as_str c, c)) validator_reason_code_ALL) s = Some c
      \<longleftrightarrow> s = reason_as_str c"
    by (subst map_of_eq_Some_iff) (auto simp: reason_code_in_ALL)
  then show ?thesis
    by (auto simp: reason_from_str_def split: option.splits)
qed

lemma provider_reason_from_str_Inr_iff:
  "provider_reason_from_str s = Inr c \<longleftrightarrow> s = provider_reason_as_str c"
proof -
  have "distinct (map fst (map (\<lambda>c. (provider_reason_as_str c, c)) provider_reason_code_ALL))"
    using provider_reason_as_str_distinct by (simp add: comp_def)
  then have "map_of (map (\<lambda>c. (provider_reason_as_str c, c)) provider_reason_code_ALL) s = Some c
      \<longleftrightarrow> s = provider_reason_as_str c"
    by (subst map_of_eq_Some_iff) (auto simp: provider_reason_code_in_ALL)
  then show ?thesis
    by (auto simp: provider_reason_from_str_def split: option.splits)
qed

lemma reason_severity_Warning_iff:
  "reason_severity c = Warning \<longleftrightarrow> c = IrLimitDiagnostics \<or> c = IrGraphUnusedPureNode"
  by (cases c) simp_all


section \<open>Collector lemmas\<close>

lemmas collector_defs = collector_push_def collector_error_def has_errors_def Let_def

lemma bounded_diagnostic_severity [simp]: "dg_severity (bounded_diagnostic d) = dg_severity d"
  by (simp add: bounded_diagnostic_def)

lemma bounded_diagnostic_code [simp]: "dg_code (bounded_diagnostic d) = dg_code d"
  by (simp add: bounded_diagnostic_def)

lemma is_error_contextual [simp]:
  "is_error (contextual c m n p k j) \<longleftrightarrow> reason_severity c = Error"
  by (simp add: is_error_def contextual_def diagnostic_new_def)

lemma is_error_diagnostic_new [simp]: "is_error (diagnostic_new c m) \<longleftrightarrow> reason_severity c = Error"
  by (simp add: is_error_def diagnostic_new_def)

lemma dg_code_contextual [simp]: "dg_code (contextual c m n p k j) = c"
  by (simp add: contextual_def diagnostic_new_def)

lemma dg_code_diagnostic_new [simp]: "dg_code (diagnostic_new c m) = c"
  by (simp add: diagnostic_new_def)

lemma push_all_Nil [simp]: "push_all c [] = c"
  by (simp add: push_all_def)

lemma push_all_Cons [simp]: "push_all c (d # ds) = push_all (collector_push c d) ds"
  by (simp add: push_all_def)

lemma push_all_append: "push_all c (ds @ es) = push_all (push_all c ds) es"
  by (simp add: push_all_def)

lemma has_errors_collector_new [simp]: "\<not> has_errors (collector_new m)"
  by (simp add: has_errors_def collector_new_def)

lemma has_errors_push [simp]: "has_errors (collector_push c d) \<longleftrightarrow> has_errors c \<or> is_error d"
  by (auto simp: collector_defs is_error_def)

lemma has_errors_push_all [simp]:
  "has_errors (push_all c ds) \<longleftrightarrow> has_errors c \<or> (\<exists>d \<in> set ds. is_error d)"
  by (induction ds arbitrary: c) auto

lemma dc_max_push [simp]: "dc_max (collector_push c d) = dc_max c"
  by (simp add: collector_defs)

lemma dc_max_push_all [simp]: "dc_max (push_all c ds) = dc_max c"
  by (induction ds arbitrary: c) auto

lemma dc_max_collector_new [simp]: "dc_max (collector_new m) = m"
  by (simp add: collector_new_def)

text \<open>The retained diagnostics are the longest prefix of the pushed ones that fits.\<close>

lemma push_all_diagnostics:
  "length (dc_diagnostics c) \<le> dc_max c \<Longrightarrow>
    dc_diagnostics (push_all c ds) = take (dc_max c) (dc_diagnostics c @ map bounded_diagnostic ds)"
proof (induction ds arbitrary: c)
  case (Cons d ds)
  show ?case
  proof (cases "length (dc_diagnostics c) < dc_max c")
    case True
    then show ?thesis using Cons.IH [of "collector_push c d"] by (simp add: collector_defs)
  next
    case False
    then show ?thesis using Cons.IH [of "collector_push c d"] Cons.prems by (simp add: collector_defs)
  qed
qed simp

lemma push_all_truncated:
  "length (dc_diagnostics c) \<le> dc_max c \<Longrightarrow>
    dc_truncated (push_all c ds) \<longleftrightarrow>
      dc_truncated c \<or> dc_max c < length (dc_diagnostics c) + length ds"
proof (induction ds arbitrary: c)
  case (Cons d ds)
  show ?case
  proof (cases "length (dc_diagnostics c) < dc_max c")
    case True
    then show ?thesis using Cons.IH [of "collector_push c d"] by (simp add: collector_defs)
  next
    case False
    then show ?thesis using Cons.IH [of "collector_push c d"] Cons.prems by (auto simp: collector_defs)
  qed
qed simp






section \<open>Properties\<close>

text \<open>
  C35: the reason-code catalog round-trips through its stable names: \<open>FromStr\<close> accepts exactly the
  57 names \<open>as_str\<close> produces, and gives back the code whose name it is.
\<close>

theorem reason_code_roundtrip: "reason_from_str s = Inr c \<longleftrightarrow> s = reason_as_str c"
  by (rule reason_from_str_Inr_iff)

lemma collector_finish_new:
  "collector_finish (push_all (collector_new m) ds) =
     (let kept = take m (map bounded_diagnostic ds);
          notice = diagnostic_new IrLimitDiagnostics
            ''additional diagnostics were suppressed by the configured limit''
      in if m < length ds \<and> 1 < m then (butlast kept @ [notice], True) else (kept, m < length ds))"
proof -
  have "dc_diagnostics (push_all (collector_new m) ds) = take m (map bounded_diagnostic ds)"
    using push_all_diagnostics [of "collector_new m" ds] by (simp add: collector_new_def)
  moreover have "dc_truncated (push_all (collector_new m) ds) \<longleftrightarrow> m < length ds"
    using push_all_truncated [of "collector_new m" ds] by (simp add: collector_new_def)
  ultimately show ?thesis by (auto simp: collector_finish_def Let_def)
qed



text \<open>The report itself may hold no error of a run that had one: the notice is a warning and takes the last place.\<close>

lemma report_without_error:
  "has_errors (push_all (collector_new 2)
     [diagnostic_new IrGraphUnusedPureNode [], diagnostic_new IrGraphCycle [], diagnostic_new IrTypeMismatch []]) \<and>
   list_all (\<lambda>d. \<not> is_error d) (fst (collector_finish (push_all (collector_new 2)
     [diagnostic_new IrGraphUnusedPureNode [], diagnostic_new IrGraphCycle [], diagnostic_new IrTypeMismatch []])))"
  unfolding collector_finish_new by (simp add: is_error_def diagnostic_new_def)

end
