(* ===== verification/Aios_Version.thy ===== *)
theory Aios_Version
  imports Aios_Diagnostics
begin

text \<open>
  \<open>crates/aios-registry/src/version.rs\<close>, \<open>error.rs\<close> and \<open>authority.rs\<close>: full contract versions,
  major-version semantic references, the registry error with its catalog code (its message is
  prose no code inspects and is left out) and the closed authority-to-effect mapping. The lemmas
  show that both grammars are canonical: a parsed value determines its source text, and every
  well-formed value is the parse of its text.
\<close>

section \<open>Registry errors\<close>

datatype registry_error = RegistryError (error_code: "validator_reason_code option")

definition validation_error :: "validator_reason_code \<Rightarrow> registry_error" where
  "validation_error code = RegistryError (Some code)"

definition operational_error :: registry_error where
  "operational_error = RegistryError None"

definition schema_error :: registry_error where
  "schema_error = validation_error RegistrySchemaInvalid"

definition is_operational :: "registry_error \<Rightarrow> bool" where
  "is_operational e = (error_code e = None)"

type_synonym 'a registry_result = "registry_error + 'a"


section \<open>Versions and references\<close>

fun split_on :: "char \<Rightarrow> string \<Rightarrow> string list" where
  "split_on c [] = [[]]"
| "split_on c (x # xs) =
     (if x = c then [] # split_on c xs
      else (case split_on c xs of [] \<Rightarrow> [[x]] | w # ws \<Rightarrow> (x # w) # ws))"

fun rsplit_once :: "char \<Rightarrow> string \<Rightarrow> (string \<times> string) option" where
  "rsplit_once c [] = None"
| "rsplit_once c (x # xs) =
     (case rsplit_once c xs of
        Some (a, b) \<Rightarrow> Some (x # a, b)
      | None \<Rightarrow> if x = c then Some ([], xs) else None)"

text \<open>\<open>str::parse::<u64>\<close> on a nonempty run of digits.\<close>

definition parse_u64 :: "string \<Rightarrow> u64 option" where
  "parse_u64 s = (if digits_value s < 2 ^ 64 then Some (of_nat (digits_value s)) else None)"

lemma parse_u64_code [code]:
  "parse_u64 s = (if int (digits_value s) < 18446744073709551616 then Some (of_nat (digits_value s)) else None)"
proof -
  have "int (digits_value s) < 18446744073709551616 \<longleftrightarrow> digits_value s < 2 ^ 64" by simp
  then show ?thesis by (simp add: parse_u64_def)
qed

record full_version =
  fv_major :: u64
  fv_minor :: u64
  fv_patch :: "u64 option"
  fv_source :: string

definition parse_component :: "string \<Rightarrow> u64 registry_result" where
  "parse_component component =
     (if component = [] \<or> \<not> list_all is_ascii_digit component
         \<or> (1 < length component \<and> starts_with ''0'' component)
      then Inl schema_error
      else case parse_u64 component of None \<Rightarrow> Inl schema_error | Some v \<Rightarrow> Inr v)"

definition full_version_parse :: "string \<Rightarrow> full_version registry_result" where
  "full_version_parse source =
     (let components = split_on (CHR ''.'') source in
      if \<not> (length components = 2 \<or> length components = 3) then Inl schema_error
      else and_then (parse_component (components ! 0)) (\<lambda>major.
           and_then (parse_component (components ! 1)) (\<lambda>minor.
           and_then (if length components = 3
                     then and_then (parse_component (components ! 2)) (\<lambda>p. Inr (Some p))
                     else Inr None) (\<lambda>patch.
           Inr \<lparr>fv_major = major, fv_minor = minor, fv_patch = patch, fv_source = source\<rparr>))))"

definition full_version_key :: "full_version \<Rightarrow> u64 \<times> u64 \<times> u64 \<times> string" where
  "full_version_key v =
     (fv_major v, fv_minor v, (case fv_patch v of None \<Rightarrow> 0 | Some p \<Rightarrow> p), fv_source v)"

text \<open>\<open>Ord::cmp\<close> of \<open>FullVersion\<close>: lexicographic on the key.\<close>

definition full_version_le :: "full_version \<Rightarrow> full_version \<Rightarrow> bool" where
  "full_version_le a b = (full_version_key a \<le> full_version_key b)"

record semantic_ref =
  sr_id :: string
  sr_major :: u64

definition semantic_id_char :: "char \<Rightarrow> bool" where
  "semantic_id_char c =
     (is_ascii_lowercase c \<or> is_ascii_digit c \<or> c = CHR ''_'' \<or> c = CHR ''.'' \<or> c = CHR ''-'')"

definition validate_semantic_id :: "string \<Rightarrow> unit registry_result" where
  "validate_semantic_id i =
     (if length i < 3 \<or> 160 < length i then Inl schema_error
      else if \<not> (case i of [] \<Rightarrow> False | c # cs \<Rightarrow> is_ascii_lowercase c)
              \<or> \<not> list_all semantic_id_char (drop 1 i)
      then Inl schema_error
      else Inr ())"

definition semantic_ref_parse :: "string \<Rightarrow> semantic_ref registry_result" where
  "semantic_ref_parse source =
     (case rsplit_once (CHR ''@'') source of
        None \<Rightarrow> Inl schema_error
      | Some (i, major) \<Rightarrow>
          and_then (validate_semantic_id i) (\<lambda>_.
          if major = [] \<or> \<not> list_all is_ascii_digit major
             \<or> (1 < length major \<and> starts_with ''0'' major)
          then Inl schema_error
          else case parse_u64 major of
                 None \<Rightarrow> Inl schema_error
               | Some m \<Rightarrow> Inr \<lparr>sr_id = i, sr_major = m\<rparr>))"


section \<open>Authority classes\<close>

definition effect_for_authority_class :: "string \<Rightarrow> effect_class option" where
  "effect_for_authority_class authority =
     (if authority = ''artifact.read'' then Some ArtifactRead
      else if authority = ''artifact.write'' then Some ArtifactWrite
      else if authority = ''network.connect'' then Some Network
      else if authority = ''data.egress'' then Some DataEgress
      else if authority = ''external.send'' then Some ExternalMessage
      else if authority = ''secret.use'' then Some SecretAccess
      else if authority = ''state.write'' then Some PersistentState
      else if authority = ''device.use'' then Some DeviceAccess
      else if authority = ''system.change'' then Some SystemChange
      else None)"


section \<open>Canonical grammars\<close>

lemma starts_with_zero: "s \<noteq> [] \<Longrightarrow> starts_with ''0'' s \<longleftrightarrow> hd s = CHR ''0''"
  by (cases s) (auto simp: starts_with_def)

lemma canonical_digits_guard:
  "(s = [] \<or> \<not> list_all is_ascii_digit s \<or> (1 < length s \<and> starts_with ''0'' s))
    \<longleftrightarrow> \<not> canonical_digits s"
  using starts_with_zero [of s] by (auto simp: canonical_digits_def)

lemma parse_u64_Some_iff: "parse_u64 s = Some v \<longleftrightarrow> unat v = digits_value s"
proof -
  have bound: "unat v < 2 ^ 64" using unsigned_less [of v, where 'a = nat] by simp
  have "of_nat (digits_value s) = v" if "unat v = digits_value s"
    unfolding that [symmetric] by simp
  with bound show ?thesis
    by (auto simp: parse_u64_def unat_of_nat)
qed

lemma parse_component_Inr_iff:
  "parse_component s = Inr v \<longleftrightarrow> canonical_digits s \<and> unat v = digits_value s"
  unfolding parse_component_def canonical_digits_guard parse_u64_Some_iff [symmetric]
  by (auto split: option.splits)

lemma parse_component_show [simp]: "parse_component (show_nat (unat v)) = Inr v"
  by (simp add: parse_component_Inr_iff canonical_show_nat)

lemma parse_component_source: "parse_component s = Inr v \<Longrightarrow> s = show_nat (unat v)"
  by (auto simp: parse_component_Inr_iff show_nat_digits_value)

lemma rsplit_once_None_iff: "rsplit_once c s = None \<longleftrightarrow> c \<notin> set s"
  by (induction s) (auto split: option.splits)

lemma rsplit_once_Some_iff:
  "rsplit_once c s = Some (a, b) \<longleftrightarrow> s = a @ c # b \<and> c \<notin> set b"
proof (induction s arbitrary: a)
  case (Cons x xs)
  show ?case
  proof (cases a)
    case Nil
    have "c \<notin> set xs" if "rsplit_once c xs = None" using that by (simp add: rsplit_once_None_iff)
    moreover have "c \<in> set xs" if "rsplit_once c xs = Some p" for p
      using that rsplit_once_None_iff [of c xs] by simp
    ultimately show ?thesis using Nil by (cases "rsplit_once c xs") auto
  next
    case (Cons y ys)
    then show ?thesis using Cons.IH [of ys] by (auto split: option.splits)
  qed
qed simp

lemma semantic_ref_parse_Inr_iff:
  "semantic_ref_parse s = Inr r \<longleftrightarrow>
    s = sr_id r @ ''@'' @ show_nat (unat (sr_major r)) \<and> validate_semantic_id (sr_id r) = Inr ()"
proof
  assume "semantic_ref_parse s = Inr r"
  then obtain i m where split: "rsplit_once (CHR ''@'') s = Some (i, m)"
    and valid: "validate_semantic_id i = Inr ()"
    and comp: "parse_component m = Inr (sr_major r)" "i = sr_id r"
    unfolding semantic_ref_parse_def parse_component_def
    by (auto split: option.splits if_splits)
  from comp(1) have "m = show_nat (unat (sr_major r))" by (rule parse_component_source)
  with split valid comp(2) show "s = sr_id r @ ''@'' @ show_nat (unat (sr_major r))
      \<and> validate_semantic_id (sr_id r) = Inr ()"
    by (simp add: rsplit_once_Some_iff)
next
  let ?m = "show_nat (unat (sr_major r))"
  assume "s = sr_id r @ ''@'' @ ?m \<and> validate_semantic_id (sr_id r) = Inr ()"
  moreover have "CHR ''@'' \<notin> set ?m"
    using show_nat_digits [of "unat (sr_major r)"] by (auto simp: list_all_iff is_ascii_digit_def)
  moreover have "canonical_digits ?m" by (rule canonical_show_nat)
  ultimately show "semantic_ref_parse s = Inr r"
    unfolding semantic_ref_parse_def canonical_digits_guard
    by (simp add: rsplit_once_Some_iff [THEN iffD2] parse_u64_Some_iff [THEN iffD2])
qed

lemma split_on_nonempty [simp]: "split_on c s \<noteq> []"
  by (induction s) (auto split: list.splits)

lemma split_on_no_sep: "c \<notin> set s \<Longrightarrow> split_on c s = [s]"
  by (induction s) auto

lemma split_on_append_sep: "c \<notin> set a \<Longrightarrow> split_on c (a @ c # b) = a # split_on c b"
  by (induction a) auto

fun join_with :: "char \<Rightarrow> string list \<Rightarrow> string" where
  "join_with c [] = []"
| "join_with c [w] = w"
| "join_with c (w # ws) = w @ c # join_with c ws"

lemma join_split_on: "join_with c (split_on c s) = s"
proof (induction s)
  case (Cons x xs)
  obtain w ws where "split_on c xs = w # ws" using split_on_nonempty by (cases "split_on c xs") auto
  with Cons show ?case by (cases ws) auto
qed simp

lemma dot_notin_show_nat: "CHR ''.'' \<notin> set (show_nat n)"
  using show_nat_digits [of n] by (auto simp: list_all_iff is_ascii_digit_def)


definition version_text :: "u64 \<Rightarrow> u64 \<Rightarrow> u64 option \<Rightarrow> string" where
  "version_text major minor patch =
     show_nat (unat major) @ ''.'' @ show_nat (unat minor) @
     (case patch of None \<Rightarrow> [] | Some p \<Rightarrow> ''.'' @ show_nat (unat p))"

lemma split_on_version_text:
  "split_on (CHR ''.'') (version_text major minor patch) =
     show_nat (unat major) # show_nat (unat minor) #
       (case patch of None \<Rightarrow> [] | Some p \<Rightarrow> [show_nat (unat p)])"
  by (auto simp: version_text_def split_on_append_sep split_on_no_sep dot_notin_show_nat
      split: option.split)

lemma join_two_or_three:
  assumes "length ws = 2 \<or> length ws = 3"
  shows "join_with c ws = ws ! 0 @ c # ws ! 1 @ (if length ws = 3 then c # ws ! 2 else [])"
proof -
  from assms consider a b where "ws = [a, b]" | a b d where "ws = [a, b, d]"
    by (auto simp: length_Suc_conv numeral_2_eq_2 numeral_3_eq_3)
  then show ?thesis by cases auto
qed

lemma full_version_parse_Inr_iff:
  "full_version_parse s = Inr v \<longleftrightarrow>
     fv_source v = s \<and>
     s = version_text (fv_major v) (fv_minor v) (fv_patch v)"
proof
  let ?ws = "split_on (CHR ''.'') s"
  assume *: "full_version_parse s = Inr v"
  then have len: "length ?ws = 2 \<or> length ?ws = 3"
    by (auto simp: full_version_parse_def Let_def split: if_splits)
  have src: "fv_source v = s"
    and ma: "parse_component (?ws ! 0) = Inr (fv_major v)"
    and mi: "parse_component (?ws ! 1) = Inr (fv_minor v)"
    and pa: "if length ?ws = 3 then (\<exists>p. parse_component (?ws ! 2) = Inr p \<and> fv_patch v = Some p)
      else fv_patch v = None"
    using * by (auto simp: full_version_parse_def Let_def split: if_splits)
  have "s = join_with (CHR ''.'') ?ws" by (simp add: join_split_on)
  also have "\<dots> = version_text (fv_major v) (fv_minor v) (fv_patch v)"
    unfolding join_two_or_three [OF len] version_text_def
    using parse_component_source [OF ma] parse_component_source [OF mi] pa
    by (auto split: if_splits dest: parse_component_source)
  finally show "fv_source v = s \<and>
     s = version_text (fv_major v) (fv_minor v) (fv_patch v)"
    using src by simp
next
  assume "fv_source v = s \<and>
     s = version_text (fv_major v) (fv_minor v) (fv_patch v)"
  then show "full_version_parse s = Inr v"
    by (auto simp: full_version_parse_def Let_def split_on_version_text split: option.split)
qed

text \<open>The patch as a number, and the order of texts with a common start.\<close>

definition patch_number :: "full_version \<Rightarrow> nat" where
  "patch_number v = (case fv_patch v of None \<Rightarrow> 0 | Some p \<Rightarrow> unat p)"

lemma append_le_append: "xs @ ys \<le> xs @ zs \<longleftrightarrow> ys \<le> zs" for xs :: "string"
  by (induction xs) auto

lemma append_le_iff: "xs @ ys \<le> xs \<longleftrightarrow> ys = []" for xs :: "string"
  using append_le_append [of xs ys "[]"] by simp


section \<open>Properties\<close>

text \<open>
  C31: a semantic reference is canonical: parsing accepts exactly the texts
  \<open>id@major\<close> with a valid id and the shortest decimal numeral of a 64-bit major, so two different
  texts never name the same contract family.
\<close>

theorem semantic_ref_canonical:
  "semantic_ref_parse s = Inr r \<longleftrightarrow>
     s = sr_id r @ ''@'' @ show_nat (unat (sr_major r)) \<and> validate_semantic_id (sr_id r) = Inr ()"
  by (rule semantic_ref_parse_Inr_iff)

text \<open>
  C32: a full version is canonical: parsing accepts exactly \<open>major.minor\<close> and \<open>major.minor.patch\<close> in
  shortest decimal numerals below \<open>2^64\<close>, and keeps the source text.
\<close>

theorem full_version_canonical:
  "full_version_parse s = Inr v \<longleftrightarrow>
     fv_source v = s \<and> s = version_text (fv_major v) (fv_minor v) (fv_patch v)"
  by (rule full_version_parse_Inr_iff)

text \<open>
  C33: the order of parsed versions is numeric, component by component, with a missing patch read as zero:
  \<open>1.9\<close> comes before \<open>1.10\<close>. Two texts with the same components differ in the patch being written out, and
  the one without it comes first (\<open>1.0\<close> before \<open>1.0.0\<close>).
\<close>

theorem full_version_order_numeric:
  assumes "full_version_parse s = Inr v" and "full_version_parse t = Inr w"
  shows "full_version_le v w \<longleftrightarrow>
    (if fv_major v \<noteq> fv_major w then unat (fv_major v) < unat (fv_major w)
     else if fv_minor v \<noteq> fv_minor w then unat (fv_minor v) < unat (fv_minor w)
     else if patch_number v \<noteq> patch_number w then patch_number v < patch_number w
     else fv_patch v = None \<or> fv_patch w \<noteq> None)"
proof -
  have p: "patch_number x = unat (case fv_patch x of None \<Rightarrow> 0 | Some p \<Rightarrow> p)" for x
    by (simp add: patch_number_def split: option.split)
  have le: "full_version_le v w \<longleftrightarrow>
    (if fv_major v \<noteq> fv_major w then fv_major v < fv_major w
     else if fv_minor v \<noteq> fv_minor w then fv_minor v < fv_minor w
     else if patch_number v \<noteq> patch_number w then patch_number v < patch_number w
     else fv_source v \<le> fv_source w)"
    by (auto simp: full_version_le_def full_version_key_def p le_less simp flip: word_less_nat_alt word_unat_eq_iff)
  have "fv_source v \<le> fv_source w \<longleftrightarrow> fv_patch v = None \<or> fv_patch w \<noteq> None"
    if "fv_major v = fv_major w" "fv_minor v = fv_minor w" "patch_number v = patch_number w"
  proof -
    have "fv_source v = version_text (fv_major v) (fv_minor v) (fv_patch v)"
      "fv_source w = version_text (fv_major v) (fv_minor v) (fv_patch w)"
      using assms that by (simp_all add: full_version_parse_Inr_iff)
    then show ?thesis using that(3)
      by (auto simp: version_text_def patch_number_def append_le_append append_le_iff split: option.splits)
  qed
  then show ?thesis unfolding le word_less_nat_alt by simp
qed

lemma full_version_order_numeric_witness:
  "full_version_le \<lparr>fv_major = 1, fv_minor = 9, fv_patch = None, fv_source = ''1.9''\<rparr>
     \<lparr>fv_major = 1, fv_minor = 10, fv_patch = None, fv_source = ''1.10''\<rparr> \<and>
   \<not> full_version_le \<lparr>fv_major = 1, fv_minor = 10, fv_patch = None, fv_source = ''1.10''\<rparr>
     \<lparr>fv_major = 1, fv_minor = 9, fv_patch = None, fv_source = ''1.9''\<rparr>" (is "full_version_le ?v ?w \<and> _")
proof -
  have "version_text 1 9 None = ''1.9''" "version_text 1 10 None = ''1.10''" by code_simp+
  then have "full_version_parse ''1.9'' = Inr ?v" "full_version_parse ''1.10'' = Inr ?w"
    by (simp_all add: full_version_parse_Inr_iff)
  then show ?thesis
    using full_version_order_numeric [of "''1.9''" ?v "''1.10''" ?w] full_version_order_numeric [of "''1.10''" ?w "''1.9''" ?v]
    by simp
qed

end
