(* ===== verification/Aios_Registry.thy ===== *)
theory Aios_Registry
  imports Aios_Version
begin

text \<open>
  The semantic registry of \<open>crates/aios-registry\<close>: the immutable indexed registry with its
  resolution functions, the checks a type or capability contract passes before it is indexed, the
  snapshot indexing and the cross references (\<open>loader.rs\<close>, and the identity predicates of
  \<open>hash.rs\<close>). Timestamps are judged by \<open>OffsetDateTime::parse\<close> of the \<open>time\<close> crate, which is the
  parameter \<open>parse_rfc3339\<close>. The lemmas read an accepted contract back as its semantic
  well-formedness: required envelopes inside allowed ones, every authority class backed by its
  effect, and the egress modes in step with \<open>DATA_EGRESS\<close>.
\<close>

section \<open>The registry and its lookups\<close>

datatype hash_verification_mode = Strict | BootstrapGenerate

record semantic_registry =
  reg_snapshot :: registry_snapshot
  reg_snapshot_id :: string
  reg_hash_verification :: hash_verification_mode
  reg_types :: "(string \<times> u64, type_contract) bmap"
  reg_capabilities :: "(string \<times> u64, capability_contract) bmap"
  reg_type_hashes :: "(string \<times> u64, string) bmap"
  reg_capability_hashes :: "(string \<times> u64, string) bmap"

definition is_strictly_verified :: "semantic_registry \<Rightarrow> bool" where
  "is_strictly_verified reg = (reg_hash_verification reg = Strict)"

definition registry_type_contract :: "semantic_registry \<Rightarrow> string \<Rightarrow> u64 \<Rightarrow> type_contract option" where
  "registry_type_contract reg i major = map_of (reg_types reg) (i, major)"

definition registry_capability_contract ::
  "semantic_registry \<Rightarrow> string \<Rightarrow> u64 \<Rightarrow> capability_contract option" where
  "registry_capability_contract reg i major = map_of (reg_capabilities reg) (i, major)"

definition registry_type_contract_hash :: "semantic_registry \<Rightarrow> string \<Rightarrow> u64 \<Rightarrow> string option" where
  "registry_type_contract_hash reg i major = map_of (reg_type_hashes reg) (i, major)"

definition registry_capability_contract_hash ::
  "semantic_registry \<Rightarrow> string \<Rightarrow> u64 \<Rightarrow> string option" where
  "registry_capability_contract_hash reg i major = map_of (reg_capability_hashes reg) (i, major)"

definition resolve_type :: "semantic_registry \<Rightarrow> string \<Rightarrow> type_contract option registry_result" where
  "resolve_type reg reference =
     and_then (semantic_ref_parse reference) (\<lambda>r.
       Inr (registry_type_contract reg (sr_id r) (sr_major r)))"

definition resolve_capability ::
  "semantic_registry \<Rightarrow> string \<Rightarrow> capability_contract option registry_result" where
  "resolve_capability reg reference =
     and_then (semantic_ref_parse reference) (\<lambda>r.
       Inr (registry_capability_contract reg (sr_id r) (sr_major r)))"

text \<open>\<open>.ok().flatten()\<close> on a resolution.\<close>

fun ok_flatten :: "'a option registry_result \<Rightarrow> 'a option" where
  "ok_flatten (Inl e) = None"
| "ok_flatten (Inr v) = v"


section \<open>Identities and length limits\<close>

definition is_ascii_hexdigit :: "char \<Rightarrow> bool" where
  "is_ascii_hexdigit c =
     (is_ascii_digit c
      \<or> (65 \<le> (of_char c :: nat) \<and> (of_char c :: nat) \<le> 70)
      \<or> (97 \<le> (of_char c :: nat) \<and> (of_char c :: nat) \<le> 102))"

definition is_sha256_id :: "string \<Rightarrow> bool" where
  "is_sha256_id v =
     (case strip_prefix ''sha256:'' v of
        None \<Rightarrow> False
      | Some digest \<Rightarrow>
          length digest = 64 \<and>
          list_all (\<lambda>b. is_ascii_hexdigit b \<and> \<not> is_ascii_uppercase b) digest)"

definition is_obvious_placeholder_hash :: "string \<Rightarrow> bool" where
  "is_obvious_placeholder_hash v =
     (case strip_prefix ''sha256:'' v of
        None \<Rightarrow> False
      | Some digest \<Rightarrow>
          length digest = 64 \<and> list_all is_ascii_hexdigit digest \<and>
          list_all (\<lambda>b. b = CHR ''0'') (take 56 digest))"

definition exceeds_max_length :: "string \<Rightarrow> nat \<Rightarrow> bool" where
  "exceeds_max_length v maximum = (maximum < char_count v)"

definition opt_exceeds :: "string option \<Rightarrow> nat \<Rightarrow> bool" where
  "opt_exceeds v maximum = (case v of None \<Rightarrow> False | Some s \<Rightarrow> exceeds_max_length s maximum)"

definition valid_tolerance :: "f64 option \<Rightarrow> bool" where
  "valid_tolerance v = (case v of None \<Rightarrow> True | Some f \<Rightarrow> f64_is_finite f \<and> f64_ge_zero f)"

definition is_rfc3339_datetime :: "(string \<Rightarrow> bool) \<Rightarrow> string \<Rightarrow> bool" where
  "is_rfc3339_datetime parse_rfc3339 v =
     ((10 < length v \<and> (v ! 10 = CHR ''T'' \<or> v ! 10 = CHR ''t'')) \<and> parse_rfc3339 v)"

definition is_ascii_alphabetic :: "char \<Rightarrow> bool" where
  "is_ascii_alphabetic c = (is_ascii_lowercase c \<or> is_ascii_uppercase c)"

definition validate_port_name :: "string \<Rightarrow> unit registry_result" where
  "validate_port_name name =
     ensure (case name of
               [] \<Rightarrow> False
             | b # bs \<Rightarrow>
                 (is_ascii_alphabetic b \<or> b = CHR ''_'') \<and>
                 list_all (\<lambda>c. is_ascii_alphabetic c \<or> is_ascii_digit c \<or> c = CHR ''_'') bs)
       schema_error"

definition authority_class_char :: "char \<Rightarrow> bool" where
  "authority_class_char c =
     (is_ascii_lowercase c \<or> is_ascii_digit c \<or> c = CHR ''_'' \<or> c = CHR ''.'' \<or> c = CHR '':''
      \<or> c = CHR ''-'')"

definition validate_authority_class :: "string \<Rightarrow> unit registry_result" where
  "validate_authority_class authority =
     ensure (\<not> (length authority < 3
               \<or> exceeds_max_length authority 128
               \<or> \<not> (case authority of [] \<Rightarrow> False | b # bs \<Rightarrow> is_ascii_lowercase b)
               \<or> \<not> list_all authority_class_char (drop 1 authority)))
       schema_error"

definition unique_strings :: "string list \<Rightarrow> unit registry_result" where
  "unique_strings values = ensure (length (bs_of_list values) = length values) schema_error"

definition unique_values :: "'a::linorder list \<Rightarrow> unit registry_result" where
  "unique_values values = ensure (length (bs_of_list values) = length values) schema_error"

definition validate_conformance :: "conformance \<Rightarrow> unit registry_result" where
  "validate_conformance cf =
     and_then (ensure (\<not> (cf_suite_id cf = [] \<or> exceeds_max_length (cf_suite_id cf) 256))
                schema_error) (\<lambda>_.
     and_then (ensure (\<not> opt_exceeds (cf_suite_version cf) 64) schema_error) (\<lambda>_.
     ensure (\<not> opt_exceeds (cf_suite_hash cf) 256) schema_error))"

definition verify_declared_hash ::
  "string \<Rightarrow> string \<Rightarrow> hash_verification_mode \<Rightarrow> unit registry_result" where
  "verify_declared_hash declared computed mode =
     ensure (declared = computed
             \<or> (mode = BootstrapGenerate \<and> is_obvious_placeholder_hash declared))
       (validation_error RegistryContractHashMismatch)"

definition verify_snapshot_hash ::
  "string \<Rightarrow> string \<Rightarrow> hash_verification_mode \<Rightarrow> unit registry_result" where
  "verify_snapshot_hash declared computed mode =
     ensure (declared = computed
             \<or> (mode = BootstrapGenerate \<and> is_obvious_placeholder_hash declared))
       (validation_error RegistrySnapshotHashMismatch)"


section \<open>Snapshot header and index\<close>

definition validate_snapshot_header ::
  "(string \<Rightarrow> bool) \<Rightarrow> registry_snapshot \<Rightarrow> unit registry_result" where
  "validate_snapshot_header parse_rfc3339 snapshot =
     and_then (ensure (rs_schema_version snapshot = SCHEMA_VERSION_V0_1)
                (validation_error RegistryUnsupportedVersion)) (\<lambda>_.
     and_then (ensure (is_rfc3339_datetime parse_rfc3339 (rs_created_at snapshot)) schema_error) (\<lambda>_.
     and_then (ensure (\<not> (opt_exceeds (rs_generation snapshot) 128
                 \<or> list_ex (\<lambda>note. exceeds_max_length note 2048) (rs_notes snapshot)
                 \<or> (case rs_publisher snapshot of
                      None \<Rightarrow> False
                    | Some p \<Rightarrow>
                        (case pub_id p of
                           None \<Rightarrow> False
                         | Some i \<Rightarrow> i = [] \<or> exceeds_max_length i 256))))
                schema_error) (\<lambda>_.
     ensure (\<not> (\<not> is_sha256_id (rs_snapshot_id snapshot)
               \<and> \<not> is_obvious_placeholder_hash (rs_snapshot_id snapshot)))
       schema_error)))"

definition validate_contract_ref :: "contract_ref \<Rightarrow> unit registry_result" where
  "validate_contract_ref entry =
     and_then (validate_semantic_id (cr_id entry)) (\<lambda>_.
     and_then (ensure (\<not> (exceeds_max_length (cr_version entry) 64
                           \<or> opt_exceeds (cr_source entry) 1024)) schema_error) (\<lambda>_.
     and_then (full_version_parse (cr_version entry)) (\<lambda>_.
     ensure (\<not> (\<not> is_sha256_id (cr_content_hash entry)
               \<and> \<not> is_obvious_placeholder_hash (cr_content_hash entry)))
       schema_error)))"

datatype contract_kind = TypeKind | CapabilityKind

fun index_snapshot_entries_from ::
  "contract_kind \<Rightarrow> (string \<times> u64, contract_ref) bmap \<Rightarrow> contract_ref list \<Rightarrow>
    (string \<times> u64, contract_ref) bmap registry_result" where
  "index_snapshot_entries_from kind indexed [] = Inr indexed"
| "index_snapshot_entries_from kind indexed (entry # entries) =
     and_then (validate_contract_ref entry) (\<lambda>_.
     and_then (full_version_parse (cr_version entry)) (\<lambda>version.
     (let key = (cr_id entry, fv_major version) in
      if contains_key indexed key
      then Inl (validation_error
             (case kind of TypeKind \<Rightarrow> RegistryDuplicateTypeMajor
                         | CapabilityKind \<Rightarrow> RegistryDuplicateCapabilityMajor))
      else index_snapshot_entries_from kind (bm_insert key entry indexed) entries)))"

definition index_snapshot_entries ::
  "contract_ref list \<Rightarrow> contract_kind \<Rightarrow> (string \<times> u64, contract_ref) bmap registry_result" where
  "index_snapshot_entries entries kind = index_snapshot_entries_from kind [] entries"

fun index_supplied_from ::
  "('c \<Rightarrow> string \<times> string) \<Rightarrow> (string \<times> string, 'c) bmap \<Rightarrow> 'c list \<Rightarrow>
    (string \<times> string, 'c) bmap registry_result" where
  "index_supplied_from key indexed [] = Inr indexed"
| "index_supplied_from key indexed (contract # contracts) =
     (if contains_key indexed (key contract) then Inl schema_error
      else index_supplied_from key (bm_insert (key contract) contract indexed) contracts)"

definition index_supplied_types ::
  "type_contract list \<Rightarrow> (string \<times> string, type_contract) bmap registry_result" where
  "index_supplied_types contracts =
     index_supplied_from (\<lambda>c. (ty_type_id c, ty_version c)) [] contracts"

definition index_supplied_capabilities ::
  "capability_contract list \<Rightarrow> (string \<times> string, capability_contract) bmap registry_result" where
  "index_supplied_capabilities contracts =
     index_supplied_from (\<lambda>c. (cap_capability c, cap_version c)) [] contracts"



section \<open>Contract validation\<close>

fun validate_representations ::
  "string bset \<Rightarrow> representation list \<Rightarrow> unit registry_result" where
  "validate_representations ids [] = Inr ()"
| "validate_representations ids (r # rs) =
     and_then (ensure (\<not> (rep_id r = [] \<or> exceeds_max_length (rep_id r) 160)) schema_error) (\<lambda>_.
     and_then (ensure (rep_id r \<notin> set ids) schema_error) (\<lambda>_.
     and_then (ensure (\<not> (opt_exceeds (rep_media_type r) 160 \<or> opt_exceeds (rep_schema_ref r) 1024))
                schema_error) (\<lambda>_.
     validate_representations (bs_insert (rep_id r) ids) rs)))"

definition validate_type_contract :: "type_contract \<Rightarrow> unit registry_result" where
  "validate_type_contract contract =
     and_then (validate_semantic_id (ty_type_id contract)) (\<lambda>_.
     and_then (ensure (\<not> exceeds_max_length (ty_type_id contract) 128) schema_error) (\<lambda>_.
     and_then (full_version_parse (ty_version contract)) (\<lambda>_.
     and_then (ensure (\<not> (ty_description contract = []
                 \<or> exceeds_max_length (ty_description contract) 4096)) schema_error) (\<lambda>_.
     and_then (ensure (\<not> (opt_exceeds (ty_logical_schema_ref contract) 1024
                 \<or> list_ex (\<lambda>note. exceeds_max_length note 2048) (ty_notes contract)))
                schema_error) (\<lambda>_.
     and_then (validate_representations [] (ty_representations contract)) (\<lambda>_.
     and_then (ensure (\<not> (opt_exceeds (te_canonicalizer (ty_equality contract)) 256
                 \<or> \<not> valid_tolerance (te_numeric_absolute_tolerance (ty_equality contract))
                 \<or> \<not> valid_tolerance (te_numeric_relative_tolerance (ty_equality contract))
                 \<or> (case ty_unit_semantics contract of
                      None \<Rightarrow> False
                    | Some u \<Rightarrow> opt_exceeds (us_canonical_unit u) 64 \<or> opt_exceeds (us_notes u) 1024)))
                schema_error) (\<lambda>_.
     and_then (unique_strings (ty_conversion_capabilities contract)) (\<lambda>_.
     and_then (for_each (\<lambda>reference.
         and_then (ensure (\<not> exceeds_max_length reference 160) schema_error) (\<lambda>_.
         and_then (semantic_ref_parse reference) (\<lambda>_. Inr ())))
       (ty_conversion_capabilities contract)) (\<lambda>_.
     validate_conformance (ty_conformance contract))))))))))"

definition validate_port :: "string \<times> port_contract \<Rightarrow> unit registry_result" where
  "validate_port np =
     (case np of (name, port) \<Rightarrow>
       and_then (validate_port_name name) (\<lambda>_.
       and_then (ensure (\<not> exceeds_max_length (port_type_ref port) 128) schema_error) (\<lambda>_.
       and_then (semantic_ref_parse (port_type_ref port)) (\<lambda>_.
       ensure (\<not> opt_exceeds (port_description port) 1024) schema_error))))"

definition validate_error_class :: "string \<Rightarrow> unit registry_result" where
  "validate_error_class e =
     ensure (\<not> (length e < 3 \<or> exceeds_max_length e 160
               \<or> \<not> list_all (\<lambda>(index, byte).
                     if index = 0 then is_ascii_uppercase byte
                     else is_ascii_uppercase byte \<or> is_ascii_digit byte \<or> byte = CHR ''_'')
                   (List.enumerate 0 e)))
       schema_error"

definition validate_capability_egress_consistency :: "capability_contract \<Rightarrow> unit registry_result" where
  "validate_capability_egress_consistency contract =
     (let permits_deny_egress = (Deny \<in> set (cap_allowed_egress_modes contract));
          permits_policy_egress = (Policy \<in> set (cap_allowed_egress_modes contract));
          requires_data_egress_effect = (DataEgress \<in> set (cap_required_effect_classes contract));
          allows_data_egress_effect = (DataEgress \<in> set (cap_allowed_effect_classes contract));
          requires_data_egress_authority =
            list_ex (\<lambda>authority. authority = ''data.egress'') (cap_required_authority_classes contract);
          allows_data_egress_authority =
            list_ex (\<lambda>authority. authority = ''data.egress'') (cap_allowed_authority_classes contract);
          requires_policy_egress = (\<not> permits_deny_egress)
      in ensure (\<not> (permits_policy_egress \<noteq> allows_data_egress_effect
                   \<or> permits_policy_egress \<noteq> allows_data_egress_authority
                   \<or> requires_policy_egress \<noteq> requires_data_egress_effect
                   \<or> requires_policy_egress \<noteq> requires_data_egress_authority))
           schema_error)"

text \<open>The shape checks of \<open>validate_capability_contract\<close>: metadata, ports and list uniqueness.\<close>

definition validate_capability_shape :: "capability_contract \<Rightarrow> unit registry_result" where
  "validate_capability_shape contract =
     and_then (validate_semantic_id (cap_capability contract)) (\<lambda>_.
     and_then (full_version_parse (cap_version contract)) (\<lambda>_.
     and_then (ensure (\<not> (opt_exceeds (cap_description contract) 4096
                 \<or> list_ex (\<lambda>note. exceeds_max_length note 2048) (cap_notes contract)))
                schema_error) (\<lambda>_.
     and_then (ensure (cap_outputs contract \<noteq> []) schema_error) (\<lambda>_.
     and_then (for_each validate_port (cap_inputs contract @ cap_outputs contract)) (\<lambda>_.
     and_then (ensure (\<not> list_ex (\<lambda>(name, input).
                 (case map_of (cap_outputs contract) name of
                    None \<Rightarrow> False
                  | Some output \<Rightarrow> port_type_ref output \<noteq> port_type_ref input))
               (cap_inputs contract)) schema_error) (\<lambda>_.
     and_then (unique_values (cap_allowed_execution_classes contract)) (\<lambda>_.
     and_then (unique_values (cap_required_effect_classes contract)) (\<lambda>_.
     and_then (unique_values (cap_allowed_effect_classes contract)) (\<lambda>_.
     and_then (unique_strings (cap_required_authority_classes contract)) (\<lambda>_.
     and_then (unique_strings (cap_allowed_authority_classes contract)) (\<lambda>_.
     and_then (unique_values (cap_allowed_egress_modes contract)) (\<lambda>_.
     and_then (unique_strings (cap_error_classes contract)) (\<lambda>_.
     and_then (ensure (\<not> (cap_allowed_execution_classes contract = []
                 \<or> cap_allowed_effect_classes contract = []
                 \<or> cap_allowed_egress_modes contract = [])) schema_error) (\<lambda>_.
     and_then (for_each validate_authority_class
       (cap_required_authority_classes contract @ cap_allowed_authority_classes contract)) (\<lambda>_.
     and_then (for_each validate_error_class (cap_error_classes contract)) (\<lambda>_.
     ensure (\<not> (case cap_determinism contract of
                  None \<Rightarrow> False
                | Some d \<Rightarrow>
                    \<not> valid_tolerance (det_numeric_absolute_tolerance d)
                    \<or> \<not> valid_tolerance (det_numeric_relative_tolerance d)))
       schema_error))))))))))))))))"

text \<open>The envelope checks of \<open>validate_capability_contract\<close>: effects, authority and egress.\<close>

definition validate_capability_envelope :: "capability_contract \<Rightarrow> unit registry_result" where
  "validate_capability_envelope contract =
     (let allowed_effects = bs_of_list (cap_allowed_effect_classes contract);
          allowed_authority = bs_of_list (cap_allowed_authority_classes contract);
          required_effects = bs_of_list (cap_required_effect_classes contract);
          requires_pure = (Pure \<in> set (cap_required_effect_classes contract));
          required_non_pure = list_ex (\<lambda>e. e \<noteq> Pure) (cap_required_effect_classes contract);
          allowed_non_pure = list_ex (\<lambda>e. e \<noteq> Pure) (cap_allowed_effect_classes contract)
      in
     and_then (ensure (\<not> (cap_required_effect_classes contract = [] \<and> Pure \<notin> set allowed_effects))
                (validation_error RegistryPureEffectContradiction)) (\<lambda>_.
     and_then (ensure (\<not> list_ex (\<lambda>e. e \<notin> set allowed_effects) (cap_required_effect_classes contract))
                (validation_error RegistryRequiredEffectNotAllowed)) (\<lambda>_.
     and_then (ensure (\<not> list_ex (\<lambda>a. a \<notin> set allowed_authority)
                 (cap_required_authority_classes contract))
                (validation_error RegistryRequiredAuthorityNotAllowed)) (\<lambda>_.
     and_then (validate_capability_egress_consistency contract) (\<lambda>_.
     and_then (ensure (\<not> (requires_pure \<and> (required_non_pure \<or> allowed_non_pure)))
                (validation_error RegistryPureEffectContradiction)) (\<lambda>_.
     and_then (for_each (\<lambda>effect.
         ensure (\<not> (\<not> (effect = Pure \<or> effect = LegacyOpaque)
                   \<and> \<not> list_ex (\<lambda>authority. effect_for_authority_class authority = Some effect)
                        (cap_required_authority_classes contract))) schema_error)
       required_effects) (\<lambda>_.
     and_then (for_each (\<lambda>authority.
         (case effect_for_authority_class authority of
            None \<Rightarrow> Inl schema_error
          | Some implied \<Rightarrow> ensure (implied \<in> set required_effects) schema_error))
       (cap_required_authority_classes contract)) (\<lambda>_.
     for_each (\<lambda>authority.
         (case effect_for_authority_class authority of
            None \<Rightarrow> Inl schema_error
          | Some implied \<Rightarrow> ensure (implied \<in> set allowed_effects) schema_error))
       (cap_allowed_authority_classes contract)))))))))"

definition validate_capability_contract :: "capability_contract \<Rightarrow> unit registry_result" where
  "validate_capability_contract contract =
     and_then (validate_capability_shape contract) (\<lambda>_.
     and_then (validate_capability_envelope contract) (\<lambda>_.
     validate_conformance (cap_conformance contract)))"

text \<open>Every port type of a capability, parsed (\<open>collect\<close> into a \<open>Result\<close> stops at the first error).\<close>

fun parse_refs :: "string list \<Rightarrow> semantic_ref list registry_result" where
  "parse_refs [] = Inr []"
| "parse_refs (s # ss) =
     and_then (semantic_ref_parse s) (\<lambda>r. and_then (parse_refs ss) (\<lambda>rs. Inr (r # rs)))"

definition capability_ports :: "capability_contract \<Rightarrow> port_contract list" where
  "capability_ports c = map snd (cap_inputs c) @ map snd (cap_outputs c)"

definition validate_cross_references ::
  "(string \<times> u64, type_contract) bmap \<Rightarrow> (string \<times> u64, capability_contract) bmap \<Rightarrow>
    unit registry_result" where
  "validate_cross_references types capabilities =
     and_then (for_each (\<lambda>contract.
         and_then (full_version_parse (ty_version contract)) (\<lambda>declaring_version.
         for_each (\<lambda>source.
           and_then (semantic_ref_parse source) (\<lambda>reference.
           (case map_of capabilities (sr_id reference, sr_major reference) of
              None \<Rightarrow> Inl (validation_error RegistryEntryNotFound)
            | Some capability \<Rightarrow>
                and_then (parse_refs (map port_type_ref (capability_ports capability))) (\<lambda>port_types.
                ensure (list_ex (\<lambda>t. (sr_id t, sr_major t)
                            = (ty_type_id contract, fv_major declaring_version)) port_types)
                  schema_error))))
           (ty_conversion_capabilities contract)))
       (map snd types)) (\<lambda>_.
     for_each (\<lambda>contract.
         for_each (\<lambda>port.
           and_then (semantic_ref_parse (port_type_ref port)) (\<lambda>reference.
           ensure (contains_key types (sr_id reference, sr_major reference))
             (validation_error RegistryEntryNotFound)))
           (capability_ports contract))
       (map snd capabilities))"



section \<open>What validation establishes\<close>

lemma unique_values_Inr_iff [simp]: "unique_values xs = Inr u \<longleftrightarrow> distinct xs"
  by (simp add: unique_values_def length_bs_of_list_eq_iff)

lemma unique_strings_Inr_iff [simp]: "unique_strings xs = Inr u \<longleftrightarrow> distinct xs"
  by (simp add: unique_strings_def length_bs_of_list_eq_iff)

text \<open>The envelope a capability contract promises, as a relation between its sets.\<close>

definition envelope_ok :: "capability_contract \<Rightarrow> bool" where
  "envelope_ok c \<longleftrightarrow>
     set (cap_required_effect_classes c) \<subseteq> set (cap_allowed_effect_classes c) \<and>
     set (cap_required_authority_classes c) \<subseteq> set (cap_allowed_authority_classes c) \<and>
     (\<forall>a \<in> set (cap_allowed_authority_classes c).
        \<exists>e \<in> set (cap_allowed_effect_classes c). effect_for_authority_class a = Some e) \<and>
     Some ` (set (cap_required_effect_classes c) - {Pure, LegacyOpaque})
       = effect_for_authority_class ` set (cap_required_authority_classes c) \<and>
     (Policy \<in> set (cap_allowed_egress_modes c)
        \<longleftrightarrow> DataEgress \<in> set (cap_allowed_effect_classes c)) \<and>
     (Policy \<in> set (cap_allowed_egress_modes c)
        \<longleftrightarrow> ''data.egress'' \<in> set (cap_allowed_authority_classes c)) \<and>
     (Deny \<notin> set (cap_allowed_egress_modes c)
        \<longleftrightarrow> DataEgress \<in> set (cap_required_effect_classes c)) \<and>
     (Deny \<notin> set (cap_allowed_egress_modes c)
        \<longleftrightarrow> ''data.egress'' \<in> set (cap_required_authority_classes c)) \<and>
     (cap_required_effect_classes c = [] \<longrightarrow> Pure \<in> set (cap_allowed_effect_classes c)) \<and>
     (Pure \<in> set (cap_required_effect_classes c) \<longrightarrow> set (cap_allowed_effect_classes c) \<subseteq> {Pure})"

lemma effect_for_authority_class_protected:
  "effect_for_authority_class a = Some e \<Longrightarrow> e \<noteq> Pure \<and> e \<noteq> LegacyOpaque"
  by (auto simp: effect_for_authority_class_def split: if_splits)

lemma effect_for_authority_class_inj:
  "effect_for_authority_class a = Some e \<Longrightarrow> effect_for_authority_class b = Some e \<Longrightarrow> a = b"
  by (auto simp: effect_for_authority_class_def split: if_splits)

lemma validate_capability_egress_consistency_iff:
  "validate_capability_egress_consistency c = Inr u \<longleftrightarrow>
     (Policy \<in> set (cap_allowed_egress_modes c)
        \<longleftrightarrow> DataEgress \<in> set (cap_allowed_effect_classes c)) \<and>
     (Policy \<in> set (cap_allowed_egress_modes c)
        \<longleftrightarrow> ''data.egress'' \<in> set (cap_allowed_authority_classes c)) \<and>
     (Deny \<notin> set (cap_allowed_egress_modes c)
        \<longleftrightarrow> DataEgress \<in> set (cap_required_effect_classes c)) \<and>
     (Deny \<notin> set (cap_allowed_egress_modes c)
        \<longleftrightarrow> ''data.egress'' \<in> set (cap_required_authority_classes c))"
proof -
  have [simp]: "list_ex (\<lambda>a. a = s) xs \<longleftrightarrow> s \<in> set xs" for s :: string and xs
    by (auto simp: list_ex_iff)
  show ?thesis
    unfolding validate_capability_egress_consistency_def Let_def ensure_Inr_iff by simp blast
qed

text \<open>The two loops over required effects and required authorities, as one equation.\<close>

lemma required_authority_effects_iff:
  "(\<forall>e \<in> E. e = Pure \<or> e = LegacyOpaque \<or> (\<exists>a \<in> A. effect_for_authority_class a = Some e)) \<and>
   (\<forall>a \<in> A. \<exists>e \<in> E. effect_for_authority_class a = Some e)
   \<longleftrightarrow> Some ` (E - {Pure, LegacyOpaque}) = effect_for_authority_class ` A"
  (is "?L \<longleftrightarrow> ?R")
proof
  assume L: ?L
  show ?R
  proof (intro equalityI subsetI)
    fix x assume "x \<in> Some ` (E - {Pure, LegacyOpaque})"
    then obtain e where e: "x = Some e" "e \<in> E" "e \<noteq> Pure" "e \<noteq> LegacyOpaque" by blast
    with L obtain a where "a \<in> A" "effect_for_authority_class a = Some e" by blast
    then show "x \<in> effect_for_authority_class ` A" using e(1) by (intro image_eqI [of _ _ a]) simp_all
  next
    fix x assume "x \<in> effect_for_authority_class ` A"
    then obtain a where "a \<in> A" "x = effect_for_authority_class a" by blast
    with L obtain e where "e \<in> E" "x = Some e" by metis
    moreover have "e \<noteq> Pure \<and> e \<noteq> LegacyOpaque"
      using effect_for_authority_class_protected \<open>x = Some e\<close> \<open>x = effect_for_authority_class a\<close>
      by metis
    ultimately show "x \<in> Some ` (E - {Pure, LegacyOpaque})" by blast
  qed
next
  assume R: ?R
  have "\<exists>a \<in> A. effect_for_authority_class a = Some e"
    if "e \<in> E" "e \<noteq> Pure" "e \<noteq> LegacyOpaque" for e
  proof -
    have "Some e \<in> effect_for_authority_class ` A" unfolding R [symmetric] using that by blast
    then show ?thesis by (metis imageE)
  qed
  moreover have "\<exists>e \<in> E. effect_for_authority_class a = Some e" if "a \<in> A" for a
  proof -
    have "effect_for_authority_class a \<in> Some ` (E - {Pure, LegacyOpaque})"
      unfolding R using that by (rule imageI)
    then show ?thesis by blast
  qed
  ultimately show ?L by blast
qed

lemma ensure_effect_iff:
  "(case effect_for_authority_class a of
      None \<Rightarrow> Inl schema_error
    | Some implied \<Rightarrow> ensure (implied \<in> S) schema_error) = Inr u
   \<longleftrightarrow> (\<exists>e \<in> S. effect_for_authority_class a = Some e)"
  by (auto split: option.split)

lemma validate_capability_envelope_iff:
  "validate_capability_envelope c = Inr () \<longleftrightarrow> envelope_ok c"
proof -
  let ?R = "set (cap_required_effect_classes c)" and ?A = "set (cap_allowed_effect_classes c)"
  let ?RA = "set (cap_required_authority_classes c)"
  let ?AA = "set (cap_allowed_authority_classes c)"
  have split: "validate_capability_envelope c = Inr () \<longleftrightarrow>
      (cap_required_effect_classes c = [] \<longrightarrow> Pure \<in> ?A) \<and> ?R \<subseteq> ?A \<and> ?RA \<subseteq> ?AA \<and>
      validate_capability_egress_consistency c = Inr () \<and>
      (Pure \<in> ?R \<longrightarrow> (\<forall>e \<in> ?R. e = Pure) \<and> (\<forall>e \<in> ?A. e = Pure)) \<and>
      (\<forall>e \<in> ?R. e = Pure \<or> e = LegacyOpaque \<or> (\<exists>a \<in> ?RA. effect_for_authority_class a = Some e)) \<and>
      (\<forall>a \<in> ?RA. \<exists>e \<in> ?R. effect_for_authority_class a = Some e) \<and>
      (\<forall>a \<in> ?AA. \<exists>e \<in> ?A. effect_for_authority_class a = Some e)"
    unfolding validate_capability_envelope_def Let_def
    by (simp add: list_ex_iff ensure_effect_iff subset_eq)
  have pure: "?R \<subseteq> ?A \<Longrightarrow> (\<forall>e \<in> ?R. e = Pure) \<and> (\<forall>e \<in> ?A. e = Pure) \<longleftrightarrow> ?A \<subseteq> {Pure}"
    by blast
  show ?thesis
  proof (cases "?R \<subseteq> ?A")
    case True
    show ?thesis
      unfolding split pure [OF True] envelope_ok_def validate_capability_egress_consistency_iff
        required_authority_effects_iff [symmetric]
      by (simp only: conj_assoc conj_commute conj_left_commute)
  next
    case False
    then show ?thesis by (simp only: split envelope_ok_def simp_thms)
  qed
qed

lemma validate_capability_contract_Inr:
  "validate_capability_contract c = Inr () \<longleftrightarrow>
     validate_capability_shape c = Inr () \<and> envelope_ok c \<and>
     validate_conformance (cap_conformance c) = Inr ()"
  by (auto simp: validate_capability_contract_def validate_capability_envelope_iff)



section \<open>Resolution and indexing\<close>

lemma ok_flatten_Some_iff: "ok_flatten r = Some c \<longleftrightarrow> r = Inr (Some c)"
  by (cases r) auto

lemma resolve_type_Some_iff:
  "ok_flatten (resolve_type reg s) = Some t \<longleftrightarrow>
     (\<exists>r. semantic_ref_parse s = Inr r \<and> map_of (reg_types reg) (sr_id r, sr_major r) = Some t)"
  by (simp add: ok_flatten_Some_iff resolve_type_def registry_type_contract_def)

lemma resolve_capability_Some_iff:
  "ok_flatten (resolve_capability reg s) = Some c \<longleftrightarrow>
     (\<exists>r. semantic_ref_parse s = Inr r \<and> map_of (reg_capabilities reg) (sr_id r, sr_major r) = Some c)"
  by (simp add: ok_flatten_Some_iff resolve_capability_def registry_capability_contract_def)

text \<open>The key under which a snapshot entry is active.\<close>

definition entry_key :: "contract_ref \<Rightarrow> string \<times> u64" where
  "entry_key e = (cr_id e, (case full_version_parse (cr_version e) of Inl _ \<Rightarrow> 0 | Inr v \<Rightarrow> fv_major v))"

lemma validate_contract_ref_version:
  "validate_contract_ref e = Inr () \<Longrightarrow>
     \<exists>v. full_version_parse (cr_version e) = Inr v \<and> entry_key e = (cr_id e, fv_major v)"
  by (auto simp: validate_contract_ref_def entry_key_def)

lemma index_snapshot_entries_from_iff:
  assumes "bm_wf m"
  shows "index_snapshot_entries_from kind m es = Inr m' \<longleftrightarrow>
    (\<forall>e \<in> set es. validate_contract_ref e = Inr ()) \<and> distinct (map entry_key es) \<and>
    entry_key ` set es \<inter> fst ` set m = {} \<and>
    m' = fold (\<lambda>e. bm_insert (entry_key e) e) es m"
  using assms
proof (induction es arbitrary: m)
  case (Cons e es)
  show ?case
  proof (cases "validate_contract_ref e = Inr ()")
    case True
    then obtain v where v: "full_version_parse (cr_version e) = Inr v" "entry_key e = (cr_id e, fv_major v)"
      using validate_contract_ref_version by blast
    have "index_snapshot_entries_from kind m (e # es) =
        (if contains_key m (entry_key e)
         then Inl (validation_error (case kind of TypeKind \<Rightarrow> RegistryDuplicateTypeMajor
                         | CapabilityKind \<Rightarrow> RegistryDuplicateCapabilityMajor))
         else index_snapshot_entries_from kind (bm_insert (entry_key e) e m) es)"
      by (simp add: True v Let_def)
    then show ?thesis
      using Cons.IH [of "bm_insert (entry_key e) e m"] Cons.prems True
      by (auto simp: bm_wf_insert contains_key_iff image_iff)
  next
    case False
    then show ?thesis by auto
  qed
qed auto

lemma index_supplied_from_iff:
  assumes "bm_wf m"
  shows "index_supplied_from key m cs = Inr m' \<longleftrightarrow>
    distinct (map key cs) \<and> key ` set cs \<inter> fst ` set m = {} \<and>
    m' = fold (\<lambda>c. bm_insert (key c) c) cs m"
  using assms
proof (induction cs arbitrary: m)
  case (Cons c cs)
  then show ?case
    using Cons.IH [of "bm_insert (key c) c m"]
    by (auto simp: bm_wf_insert contains_key_iff image_iff)
qed auto

lemma parse_refs_Inr_iff:
  "parse_refs ss = Inr rs \<longleftrightarrow> list_all2 (\<lambda>s r. semantic_ref_parse s = Inr r) ss rs"
proof (induction ss arbitrary: rs)
  case (Cons s ss)
  then show ?case by (cases rs) auto
qed auto

text \<open>What the cross-reference pass establishes of the two indexes.\<close>

definition references_resolve ::
  "(string \<times> u64, type_contract) bmap \<Rightarrow> (string \<times> u64, capability_contract) bmap \<Rightarrow> bool" where
  "references_resolve types capabilities \<longleftrightarrow>
     (\<forall>c \<in> snd ` set capabilities. \<forall>p \<in> set (capability_ports c).
        \<exists>r. semantic_ref_parse (port_type_ref p) = Inr r \<and>
            (sr_id r, sr_major r) \<in> fst ` set types) \<and>
     (\<forall>t \<in> snd ` set types. \<forall>s \<in> set (ty_conversion_capabilities t).
        \<exists>r v c. semantic_ref_parse s = Inr r \<and> full_version_parse (ty_version t) = Inr v \<and>
          map_of capabilities (sr_id r, sr_major r) = Some c \<and>
          (\<exists>p \<in> set (capability_ports c).
             semantic_ref_parse (port_type_ref p) = Inr \<lparr>sr_id = ty_type_id t, sr_major = fv_major v\<rparr>))"

lemma list_all2_exD: "list_all2 P xs ys \<Longrightarrow> y \<in> set ys \<Longrightarrow> \<exists>x \<in> set xs. P x y"
  by (induction rule: list_all2_induct) auto

lemma conversion_check_Inr:
  assumes "parse_refs (map port_type_ref ps) = Inr rs"
    and "list_ex (\<lambda>t. (sr_id t, sr_major t) = (i, m)) rs"
  shows "\<exists>p \<in> set ps. semantic_ref_parse (port_type_ref p) = Inr \<lparr>sr_id = i, sr_major = m\<rparr>"
proof -
  from assms(2) obtain t where t: "t \<in> set rs" "sr_id t = i" "sr_major t = m"
    by (auto simp: list_ex_iff)
  then have "t = \<lparr>sr_id = i, sr_major = m\<rparr>" by simp
  moreover obtain x where "x \<in> set (map port_type_ref ps)" "semantic_ref_parse x = Inr t"
    using list_all2_exD [OF assms(1) [unfolded parse_refs_Inr_iff] t(1)] by blast
  ultimately show ?thesis by auto
qed

lemma validate_cross_references_resolve:
  assumes "validate_cross_references types capabilities = Inr ()"
  shows "references_resolve types capabilities"
proof -
  have ports: "\<exists>r. semantic_ref_parse (port_type_ref p) = Inr r \<and> (sr_id r, sr_major r) \<in> fst ` set types"
    if "c \<in> snd ` set capabilities" "p \<in> set (capability_ports c)" for c p
    using assms that by (auto simp: validate_cross_references_def contains_key_iff)
  have "\<exists>r v c. semantic_ref_parse s = Inr r \<and> full_version_parse (ty_version t) = Inr v \<and>
          map_of capabilities (sr_id r, sr_major r) = Some c \<and>
          (\<exists>p \<in> set (capability_ports c).
             semantic_ref_parse (port_type_ref p) = Inr \<lparr>sr_id = ty_type_id t, sr_major = fv_major v\<rparr>)"
    if t: "t \<in> snd ` set types" and s: "s \<in> set (ty_conversion_capabilities t)" for t s
  proof -
    from assms t obtain v where v: "full_version_parse (ty_version t) = Inr v"
      and "\<forall>s \<in> set (ty_conversion_capabilities t). \<exists>r. semantic_ref_parse s = Inr r \<and>
        (case map_of capabilities (sr_id r, sr_major r) of
           None \<Rightarrow> Inl (validation_error RegistryEntryNotFound)
         | Some c \<Rightarrow> and_then (parse_refs (map port_type_ref (capability_ports c))) (\<lambda>port_types.
             ensure (list_ex (\<lambda>r. (sr_id r, sr_major r) = (ty_type_id t, fv_major v)) port_types)
               schema_error)) = Inr ()"
      by (auto simp: validate_cross_references_def)
    with s obtain r where r: "semantic_ref_parse s = Inr r" and
      "(case map_of capabilities (sr_id r, sr_major r) of
           None \<Rightarrow> Inl (validation_error RegistryEntryNotFound)
         | Some c \<Rightarrow> and_then (parse_refs (map port_type_ref (capability_ports c))) (\<lambda>port_types.
             ensure (list_ex (\<lambda>r. (sr_id r, sr_major r) = (ty_type_id t, fv_major v)) port_types)
               schema_error)) = Inr ()"
      by blast
    then obtain c rs where "map_of capabilities (sr_id r, sr_major r) = Some c"
      "parse_refs (map port_type_ref (capability_ports c)) = Inr rs"
      "list_ex (\<lambda>r. (sr_id r, sr_major r) = (ty_type_id t, fv_major v)) rs"
      by (auto split: option.splits)
    with v r show ?thesis using conversion_check_Inr by blast
  qed
  with ports show ?thesis unfolding references_resolve_def by blast
qed



section \<open>Properties\<close>

text \<open>
  C27: a capability contract is accepted exactly when its shape is valid, its conformance reference is
  valid and its envelope is consistent: required effects and authority inside the allowed ones,
  every allowed authority class backed by an allowed effect, the required protected effects equal
  to those of the required authority classes, and \<open>policy\<close> egress allowed (\<open>deny\<close> excluded) exactly
  when \<open>DATA_EGRESS\<close> and \<open>data.egress\<close> are allowed (required).
\<close>

theorem capability_contract_accepted_iff:
  "validate_capability_contract c = Inr () \<longleftrightarrow>
     validate_capability_shape c = Inr () \<and> envelope_ok c \<and>
     validate_conformance (cap_conformance c) = Inr ()"
  by (rule validate_capability_contract_Inr)

text \<open>
  C29: a snapshot index holds one active contract per id and major version. Indexing succeeds exactly
  when every entry is valid and no two entries share id and major, and then the lookup of a key
  finds exactly the entry of the snapshot with that key.
\<close>

theorem snapshot_index_exact:
  "(is_ok (index_snapshot_entries es kind) \<longleftrightarrow>
      (\<forall>e \<in> set es. validate_contract_ref e = Inr ()) \<and> distinct (map entry_key es)) \<and>
   (\<forall>m. index_snapshot_entries es kind = Inr m \<longrightarrow> bm_wf m \<and>
      (\<forall>k e. map_of m k = Some e \<longleftrightarrow> e \<in> set es \<and> entry_key e = k))"
proof -
  let ?m = "fold (\<lambda>e. bm_insert (entry_key e) e) es []"
  have iff: "index_snapshot_entries es kind = Inr m \<longleftrightarrow>
      (\<forall>e \<in> set es. validate_contract_ref e = Inr ()) \<and> distinct (map entry_key es) \<and> m = ?m" for m
    using index_snapshot_entries_from_iff [of "[]" kind es m] by (simp add: index_snapshot_entries_def)
  have "bm_wf ?m" using bm.wf_fold [of "[]" entry_key "\<lambda>e. e" es] by simp
  moreover have "map_of ?m k = Some e \<longleftrightarrow> e \<in> set es \<and> entry_key e = k" if "distinct (map entry_key es)" for k e
    using bm.get_fold_distinct [of "[]" entry_key es e "\<lambda>e. e"] that
      bm.get_fold_SomeD [of "[]" entry_key "\<lambda>e. e" es k e] by auto
  ultimately show ?thesis unfolding is_ok_def iff by blast
qed

lemma snapshot_index_exact_witness:
  "is_ok (index_snapshot_entries
     [\<lparr>cr_id = ''artifact.text'', cr_version = ''1.0'',
       cr_content_hash = ''sha256:'' @ replicate 64 (CHR ''0''), cr_source = None\<rparr>] TypeKind)"
proof -
  let ?e = "\<lparr>cr_id = ''artifact.text'', cr_version = ''1.0'',
       cr_content_hash = ''sha256:'' @ replicate 64 (CHR ''0''), cr_source = None\<rparr>"
  have "validate_contract_ref ?e = Inr ()" by code_simp
  then show ?thesis using snapshot_index_exact [of "[?e]" TypeKind] by simp
qed

text \<open>
  C28: a registry that passes the cross-reference check is closed: every port type of every active
  capability is an active type, and every conversion capability a type names is active and has a
  port in that type's own family.
\<close>

theorem cross_references_closed:
  assumes "validate_cross_references types capabilities = Inr ()"
  shows "(\<forall>c \<in> snd ` set capabilities. \<forall>p \<in> set (capability_ports c).
      \<exists>r. semantic_ref_parse (port_type_ref p) = Inr r \<and> (sr_id r, sr_major r) \<in> fst ` set types) \<and>
    (\<forall>t \<in> snd ` set types. \<forall>s \<in> set (ty_conversion_capabilities t).
      \<exists>r v c. semantic_ref_parse s = Inr r \<and> full_version_parse (ty_version t) = Inr v \<and>
        map_of capabilities (sr_id r, sr_major r) = Some c \<and>
        (\<exists>p \<in> set (capability_ports c).
           semantic_ref_parse (port_type_ref p) = Inr \<lparr>sr_id = ty_type_id t, sr_major = fv_major v\<rparr>))"
  using validate_cross_references_resolve [OF assms] unfolding references_resolve_def .

text \<open>
  C30: strict loading accepts a declared identity only when it equals the computed one; the bootstrap
  mode accepts a different one only for the zero-prefixed placeholder, and never the other way
  round.
\<close>

theorem declared_hash_checked:
  "verify_declared_hash declared computed mode =
     (if declared = computed \<or>
         (mode = BootstrapGenerate \<and> (\<exists>tail. declared = ''sha256:'' @ replicate 56 (CHR ''0'') @ tail \<and>
            length tail = 8 \<and> list_all is_ascii_hexdigit tail))
      then Inr () else Inl (RegistryError (Some RegistryContractHashMismatch)))"
proof -
  have zero: "is_ascii_hexdigit (CHR ''0'')" by code_simp
  have "is_obvious_placeholder_hash declared \<longleftrightarrow> (\<exists>tail. declared = ''sha256:'' @ replicate 56 (CHR ''0'') @ tail \<and>
         length tail = 8 \<and> list_all is_ascii_hexdigit tail)" (is "?L \<longleftrightarrow> ?R")
  proof
    assume ?L
    then obtain digest where d: "declared = ''sha256:'' @ digest" "length digest = 64"
      "list_all is_ascii_hexdigit digest" "list_all (\<lambda>b. b = CHR ''0'') (take 56 digest)"
      by (auto simp: is_obvious_placeholder_hash_def strip_prefix_Some_iff simp del: append_Cons
          split: option.splits)
    then have "take 56 digest = replicate 56 (CHR ''0'')"
      by (intro replicate_eqI) (auto simp: list_all_iff)
    then have "digest = replicate 56 (CHR ''0'') @ drop 56 digest" by (metis append_take_drop_id)
    moreover have "length (drop 56 digest) = 8" "list_all is_ascii_hexdigit (drop 56 digest)"
      using d(2,3) by (auto simp: list_all_iff dest: in_set_dropD)
    ultimately show ?R using d(1) by metis
  next
    assume ?R
    then show ?L using zero
      by (auto simp: is_obvious_placeholder_hash_def strip_prefix_Some_iff list_all_iff simp del: append_Cons)
  qed
  then show ?thesis by (auto simp: verify_declared_hash_def ensure_def validation_error_def)
qed

end
