(* ===== verification/Aios_Graph.thy ===== *)
theory Aios_Graph
  imports Aios_Diagnostics
begin

text \<open>
  The data-flow graph of a program (\<open>crates/aios-ir/src/semantics.rs\<close>, \<open>index_nodes\<close> and
  \<open>validate_acyclic\<close>): the node index, the consumer sets and in-degrees, and the topological
  elimination loop. A check is modelled by the list of diagnostics it pushes; \<open>None\<close> stands for a
  panic of the source (an \<open>expect\<close> or an in-degree below zero). The lemmas show that the loop ends,
  never panics on an indexed program, and reports a cycle exactly when the data-flow relation has
  one, naming the nodes downstream of it.
\<close>

section \<open>Node index\<close>

definition quoted :: "string \<Rightarrow> string" where
  "quoted s = CHR 0x27 # s @ [CHR 0x27]"

type_synonym node_index = "(string, node) bmap"

fun index_nodes_from :: "node_index \<Rightarrow> (nat \<times> node) list \<Rightarrow> diagnostic list \<times> node_index" where
  "index_nodes_from nodes [] = ([], nodes)"
| "index_nodes_from nodes ((index, n) # rest) =
     (let (ds, result) = index_nodes_from (bm_insert (node_id n) n nodes) rest
      in (if contains_key nodes (node_id n)
          then contextual IrGraphDuplicateNodeId
                 (''node ID '' @ quoted (node_id n) @ '' occurs more than once'')
                 (Some (node_id n)) None (Some (op_capability (node_operation n)))
                 (Some (''/nodes/'' @ show_nat index @ ''/id'')) # ds
          else ds, result))"

definition index_nodes :: "aios_ir \<Rightarrow> diagnostic list \<times> node_index" where
  "index_nodes program = index_nodes_from [] (List.enumerate 0 (ir_nodes program))"

section \<open>Consumers and in-degrees\<close>

definition consumers_of :: "(string, string bset) bmap \<Rightarrow> string \<Rightarrow> string bset" where
  "consumers_of consumers producer =
     (case map_of consumers producer of None \<Rightarrow> [] | Some s \<Rightarrow> s)"

text \<open>\<open>entry(producer).or_default().insert(consumer)\<close>.\<close>

definition consumers_insert ::
  "string \<Rightarrow> string \<Rightarrow> (string, string bset) bmap \<Rightarrow> (string, string bset) bmap" where
  "consumers_insert producer consumer consumers =
     bm_insert producer (bs_insert consumer (consumers_of consumers producer)) consumers"

type_synonym flow_state = "(string, string bset) bmap \<times> (string, nat) bmap"

definition add_edge :: "string \<Rightarrow> string \<Rightarrow> flow_state \<Rightarrow> flow_state" where
  "add_edge producer consumer st =
     (case st of (consumers, indegree) \<Rightarrow>
       (consumers_insert producer consumer consumers,
        if consumer \<in> set (consumers_of consumers producer) then indegree
        else bm_insert consumer
               (Suc (case map_of indegree consumer of None \<Rightarrow> 0 | Some d \<Rightarrow> d)) indegree))"

definition add_node_edges :: "node \<Rightarrow> flow_state \<Rightarrow> flow_state" where
  "add_node_edges n =
     fold (\<lambda>r. case r of InputRef _ \<Rightarrow> id | NodeRef producer _ \<Rightarrow> add_edge producer (node_id n))
       (map snd (node_inputs n))"

definition initial_indegree :: "node_index \<Rightarrow> (string, nat) bmap" where
  "initial_indegree nodes = map (\<lambda>(i, _). (i, 0)) nodes"

definition build_flow :: "aios_ir \<Rightarrow> node_index \<Rightarrow> flow_state" where
  "build_flow program nodes = fold add_node_edges (ir_nodes program) ([], initial_indegree nodes)"


section \<open>Topological elimination\<close>

text \<open>The inner loop: decrement every consumer and release the ones that reach zero.\<close>

fun release ::
  "string list \<Rightarrow> (string, nat) bmap \<Rightarrow> string bset \<Rightarrow> ((string, nat) bmap \<times> string bset) option" where
  "release [] indegree ready = Some (indegree, ready)"
| "release (c # cs) indegree ready =
     (case map_of indegree c of
        None \<Rightarrow> None
      | Some 0 \<Rightarrow> None
      | Some (Suc d) \<Rightarrow>
          release cs (bm_insert c d indegree) (if d = 0 then bs_insert c ready else ready))"

definition blocked :: "(string, nat) bmap \<Rightarrow> string set" where
  "blocked indegree = {c. \<exists>d. map_of indegree c = Some (Suc d)}"

lemma finite_blocked: "finite (blocked indegree)"
proof (rule finite_subset)
  show "blocked indegree \<subseteq> dom (map_of indegree)" by (auto simp: blocked_def)
qed (rule finite_dom_map_of)

lemma release_measure:
  "release cs indegree ready = Some (indegree', ready') \<Longrightarrow>
     card (blocked indegree') + length ready' \<le> card (blocked indegree) + length ready"
proof (induction cs indegree ready rule: release.induct)
  case (2 c cs indegree ready)
  then obtain d where d: "map_of indegree c = Some (Suc d)"
    by (auto split: option.splits nat.splits)
  let ?m = "bm_insert c d indegree" and ?r = "if d = 0 then bs_insert c ready else ready"
  have IH: "card (blocked indegree') + length ready' \<le> card (blocked ?m) + length ?r"
    using 2 d by simp
  show ?case
  proof (cases "d = 0")
    case True
    then have "blocked ?m = blocked indegree - {c}" by (auto simp: blocked_def)
    moreover have "c \<in> blocked indegree" using d by (simp add: blocked_def)
    ultimately have "Suc (card (blocked ?m)) = card (blocked indegree)"
      using card_Suc_Diff1 [OF finite_blocked] by simp
    with IH True show ?thesis using length_bs_insert_le [of c ready] by simp
  next
    case False
    then have "blocked ?m = blocked indegree" using d by (auto simp: blocked_def gr0_conv_Suc)
    with IH False show ?thesis by simp
  qed
qed simp

function eliminate ::
  "(string, string bset) bmap \<Rightarrow> (string, nat) bmap \<Rightarrow> string bset \<Rightarrow> nat \<Rightarrow>
    ((string, nat) bmap \<times> nat) option" where
  "eliminate consumers indegree [] visited = Some (indegree, visited)"
| "eliminate consumers indegree (i # ready) visited =
     (case release (consumers_of consumers i) indegree ready of
        None \<Rightarrow> None
      | Some (indegree', ready') \<Rightarrow> eliminate consumers indegree' ready' (Suc visited))"
  by pat_completeness auto
termination
proof (relation "measure (\<lambda>(_, indegree, ready, _). card (blocked indegree) + length ready)")
  fix consumers indegree i ready visited p indegree' ready'
  assume "release (consumers_of consumers i) indegree ready = Some p" "(indegree', ready') = p"
  then have "card (blocked indegree') + length ready' \<le> card (blocked indegree) + length ready"
    by (intro release_measure) simp
  then show "((consumers, indegree', ready', Suc visited), (consumers, indegree, i # ready, visited))
      \<in> measure (\<lambda>(_, indegree, ready, _). card (blocked indegree) + length ready)"
    by simp
qed simp

definition validate_acyclic :: "aios_ir \<Rightarrow> node_index \<Rightarrow> diagnostic list option" where
  "validate_acyclic program nodes =
     (let (consumers, indegree) = build_flow program nodes;
          ready = bs_of_list (map fst (filter (\<lambda>(_, degree). degree = 0) indegree))
      in case eliminate consumers indegree ready 0 of
           None \<Rightarrow> None
         | Some (indegree', visited) \<Rightarrow>
             Some (if visited \<noteq> length nodes
                   then [(diagnostic_new IrGraphCycle ''program data-flow graph contains a cycle'')
                           \<lparr>dg_related := map fst (filter (\<lambda>(_, degree). 0 < degree) indegree')\<rparr>]
                   else []))"



section \<open>The index of a program\<close>

lemma index_nodes_from_index:
  "snd (index_nodes_from m ns) = fold (\<lambda>n. bm_insert (node_id n) n) (map snd ns) m"
  by (induction m ns rule: index_nodes_from.induct) (auto simp: Let_def split: prod.split)

lemma index_nodes_from_clean:
  "fst (index_nodes_from m ns) = [] \<longleftrightarrow>
     distinct (map (node_id \<circ> snd) ns) \<and> (node_id \<circ> snd) ` set ns \<inter> fst ` set m = {}"
  by (induction m ns rule: index_nodes_from.induct)
    (auto simp: Let_def contains_key_iff image_iff split: prod.split)

lemma index_nodes_from_error: "d \<in> set (fst (index_nodes_from m ns)) \<Longrightarrow> is_error d"
  by (induction m ns rule: index_nodes_from.induct) (auto simp: Let_def split: prod.splits if_splits)

definition unique_ids :: "aios_ir \<Rightarrow> bool" where
  "unique_ids program = distinct (map node_id (ir_nodes program))"

lemma index_nodes_clean_iff: "fst (index_nodes program) = [] \<longleftrightarrow> unique_ids program"
  by (simp add: index_nodes_def index_nodes_from_clean unique_ids_def flip: map_map)

lemma index_nodes_error: "d \<in> set (fst (index_nodes program)) \<Longrightarrow> is_error d"
  by (simp add: index_nodes_def index_nodes_from_error)

definition node_table :: "aios_ir \<Rightarrow> node_index" where
  "node_table program = snd (index_nodes program)"

lemma node_table_fold:
  "node_table program = fold (\<lambda>n. bm_insert (node_id n) n) (ir_nodes program) []"
  by (simp add: node_table_def index_nodes_def index_nodes_from_index)

lemma node_table_keys [simp]: "fst ` set (node_table program) = node_id ` set (ir_nodes program)"
  unfolding node_table_fold
  using bm.keys_fold [of "[]" node_id "\<lambda>n. n" "ir_nodes program"] by simp

lemma node_table_wf [simp]: "bm_wf (node_table program)"
  unfolding node_table_fold using bm.wf_fold [of "[]" node_id "\<lambda>n. n"] by simp

lemma node_table_lookup:
  "unique_ids program \<Longrightarrow> n \<in> set (ir_nodes program) \<Longrightarrow> map_of (node_table program) (node_id n) = Some n"
  unfolding node_table_fold unique_ids_def
  using bm.get_fold_distinct [of "[]" node_id "ir_nodes program" n "\<lambda>n. n"] by simp

lemma node_table_SomeD:
  "map_of (node_table program) i = Some n \<Longrightarrow> n \<in> set (ir_nodes program) \<and> node_id n = i"
  unfolding node_table_fold
  using bm.get_fold_SomeD [of "[]" node_id "\<lambda>n. n" "ir_nodes program" i n] by auto

lemma length_node_table:
  "length (node_table program) = card (node_id ` set (ir_nodes program))"
  by (metis card_keys_bm_wf node_table_keys node_table_wf)


section \<open>The data-flow relation\<close>

definition flow_edges :: "aios_ir \<Rightarrow> (string \<times> string) list" where
  "flow_edges program =
     concat (map (\<lambda>n. concat (map (\<lambda>r. case r of InputRef _ \<Rightarrow> [] | NodeRef p _ \<Rightarrow> [(p, node_id n)])
       (map snd (node_inputs n)))) (ir_nodes program))"

text \<open>\<open>(p, c)\<close> when node \<open>c\<close> reads an output of node \<open>p\<close>.\<close>

definition flow :: "aios_ir \<Rightarrow> (string \<times> string) set" where
  "flow program = {(p, c). \<exists>n \<in> set (ir_nodes program). \<exists>name port.
     (name, NodeRef p port) \<in> set (node_inputs n) \<and> c = node_id n}"

lemma set_flow_edges: "set (flow_edges program) = flow program"
  unfolding flow_edges_def flow_def
  by (auto split: value_ref.splits) force+

lemma finite_flow [simp]: "finite (flow program)"
  by (simp flip: set_flow_edges)

lemma add_node_edges_fold:
  "add_node_edges n st = fold (\<lambda>(p, c). add_edge p c)
     (concat (map (\<lambda>r. case r of InputRef _ \<Rightarrow> [] | NodeRef p _ \<Rightarrow> [(p, node_id n)])
       (map snd (node_inputs n)))) st"
proof -
  have "fold (\<lambda>r. case r of InputRef _ \<Rightarrow> id | NodeRef producer _ \<Rightarrow> add_edge producer i) rs st =
      fold (\<lambda>(p, c). add_edge p c)
        (concat (map (\<lambda>r. case r of InputRef _ \<Rightarrow> [] | NodeRef p _ \<Rightarrow> [(p, i)]) rs)) st" for i rs st
    by (induction rs arbitrary: st) (auto split: value_ref.split)
  then show ?thesis by (simp add: add_node_edges_def)
qed

lemma build_flow_fold:
  "build_flow program nodes = fold (\<lambda>(p, c). add_edge p c) (flow_edges program) ([], initial_indegree nodes)"
proof -
  have "fold add_node_edges ns st = fold (\<lambda>(p, c). add_edge p c)
      (concat (map (\<lambda>n. concat (map (\<lambda>r. case r of InputRef _ \<Rightarrow> [] | NodeRef p _ \<Rightarrow> [(p, node_id n)])
       (map snd (node_inputs n)))) ns)) st" for ns st
    by (induction ns arbitrary: st) (simp_all add: add_node_edges_fold)
  then show ?thesis by (simp add: build_flow_def flow_edges_def)
qed


lemma consumers_of_insert [simp]:
  "consumers_of (consumers_insert p c m) p' =
     (if p' = p then bs_insert c (consumers_of m p) else consumers_of m p')"
  by (simp add: consumers_of_def consumers_insert_def)

text \<open>What the construction loop establishes: consumer sets and in-degrees of the edges seen.\<close>

definition flow_tables :: "(string \<times> string) set \<Rightarrow> string set \<Rightarrow> flow_state \<Rightarrow> bool" where
  "flow_tables E V st \<longleftrightarrow> (case st of (consumers, indegree) \<Rightarrow>
     (\<forall>p. bs_wf (consumers_of consumers p) \<and> set (consumers_of consumers p) = E `` {p}) \<and>
     bm_wf indegree \<and> fst ` set indegree = V \<and>
     (\<forall>c \<in> V. map_of indegree c = Some (card (E\<inverse> `` {c}))))"

lemma flow_tables_add_edge:
  assumes tables: "flow_tables E V st" and c: "c \<in> V" and fin: "finite E"
  shows "flow_tables (insert (p, c) E) V (add_edge p c st)"
proof -
  obtain consumers indegree where st: "st = (consumers, indegree)" by (cases st)
  let ?old = "consumers_of consumers p"
  let ?indegree = "if c \<in> set ?old then indegree else bm_insert c (Suc (card (E\<inverse> `` {c}))) indegree"
  from tables have wf: "\<And>q. bs_wf (consumers_of consumers q)" "bm_wf indegree"
    and succs: "\<And>q. set (consumers_of consumers q) = E `` {q}"
    and keys: "fst ` set indegree = V"
    and deg: "\<And>c. c \<in> V \<Longrightarrow> map_of indegree c = Some (card (E\<inverse> `` {c}))"
    by (simp_all add: flow_tables_def st)
  have step: "add_edge p c st = (consumers_insert p c consumers, ?indegree)"
    using deg [OF c] by (simp add: add_edge_def st)
  have "set (consumers_of (consumers_insert p c consumers) q) = insert (p, c) E `` {q}" for q
    using succs by auto
  moreover have "bs_wf (consumers_of (consumers_insert p c consumers) q)" for q
    using wf by (auto simp: bs_wf_insert)
  moreover have "bm_wf ?indegree" using wf by (auto simp: bm_wf_insert)
  moreover have "fst ` set ?indegree = V" using keys c by (auto simp: insert_absorb)
  moreover have "map_of ?indegree d = Some (card ((insert (p, c) E)\<inverse> `` {d}))" if d: "d \<in> V" for d
  proof (cases "d = c")
    case True
    have "(insert (p, c) E)\<inverse> `` {c} = insert p (E\<inverse> `` {c})" by auto
    moreover have "finite (E\<inverse> `` {c})" using fin by (simp add: finite_Image)
    moreover have "c \<in> set ?old \<longleftrightarrow> p \<in> E\<inverse> `` {c}" using succs by auto
    ultimately show ?thesis using deg [OF c] True by (simp add: card_insert_if)
  next
    case False
    then have "(insert (p, c) E)\<inverse> `` {d} = E\<inverse> `` {d}" by auto
    then show ?thesis using deg [OF d] False by simp
  qed
  ultimately show ?thesis unfolding step flow_tables_def by simp
qed

lemma flow_tables_fold:
  assumes "flow_tables E V st" and "snd ` set es \<subseteq> V" and "finite E"
  shows "flow_tables (set es \<union> E) V (fold (\<lambda>(p, c). add_edge p c) es st)"
  using assms
proof (induction es arbitrary: E st)
  case (Cons e es)
  obtain p c where e: "e = (p, c)" by (cases e)
  have "flow_tables (set es \<union> insert (p, c) E) V (fold (\<lambda>(p, c). add_edge p c) es (add_edge p c st))"
    using Cons.prems e by (intro Cons.IH flow_tables_add_edge) auto
  then show ?case by (simp add: e insert_commute Un_insert_right)
qed simp

lemma initial_indegree_map_of:
  "map_of (initial_indegree nodes) i = map_option (\<lambda>_. 0) (map_of nodes i)"
  by (induction nodes) (auto simp: initial_indegree_def)

lemma flow_tables_build:
  "flow_tables (flow program) (node_id ` set (ir_nodes program))
     (build_flow program (node_table program))"
proof -
  let ?V = "node_id ` set (ir_nodes program)"
  have keys: "map fst (initial_indegree (node_table program)) = map fst (node_table program)"
    by (simp add: initial_indegree_def comp_def case_prod_beta)
  then have "fst ` set (initial_indegree (node_table program)) = ?V"
    by (metis list.set_map node_table_keys)
  moreover have "bm_wf (initial_indegree (node_table program))"
    using keys node_table_wf [of program] by (simp add: bm_wf_def)
  moreover have "map_of (initial_indegree (node_table program)) c = Some 0" if "c \<in> ?V" for c
  proof -
    have "map_of (node_table program) c \<noteq> None"
      using that by (simp add: map_of_eq_None_iff flip: node_table_keys)
    then show ?thesis by (auto simp: initial_indegree_map_of)
  qed
  ultimately have "flow_tables {} ?V ([], initial_indegree (node_table program))"
    by (simp add: flow_tables_def consumers_of_def)
  moreover have "snd ` set (flow_edges program) \<subseteq> ?V"
    by (auto simp: set_flow_edges flow_def)
  ultimately show ?thesis
    unfolding build_flow_fold using flow_tables_fold [of "{}" ?V _ "flow_edges program"]
    by (simp add: set_flow_edges)
qed



section \<open>Correctness of the elimination\<close>

lemma release_Some:
  assumes "distinct cs" and "\<And>c. c \<in> set cs \<Longrightarrow> \<exists>d. map_of indegree c = Some (Suc d)"
    and "bm_wf indegree" and "bs_wf ready"
  shows "\<exists>indegree' ready'. release cs indegree ready = Some (indegree', ready') \<and>
    bm_wf indegree' \<and> bs_wf ready' \<and> fst ` set indegree' = fst ` set indegree \<and>
    set ready' = set ready \<union> {c \<in> set cs. map_of indegree c = Some 1} \<and>
    (\<forall>c. map_of indegree' c =
       (if c \<in> set cs then map_option (\<lambda>d. d - 1) (map_of indegree c) else map_of indegree c))"
  using assms
proof (induction cs arbitrary: indegree ready)
  case (Cons c cs)
  obtain d where d: "map_of indegree c = Some (Suc d)" using Cons.prems(2) by auto
  have "c \<in> fst ` set indegree" using d by (metis domI dom_map_of_conv_image_fst)
  let ?m = "bm_insert c d indegree" and ?r = "if d = 0 then bs_insert c ready else ready"
  have "\<exists>indegree' ready'. release cs ?m ?r = Some (indegree', ready') \<and>
    bm_wf indegree' \<and> bs_wf ready' \<and> fst ` set indegree' = fst ` set ?m \<and>
    set ready' = set ?r \<union> {c \<in> set cs. map_of ?m c = Some 1} \<and>
    (\<forall>c. map_of indegree' c =
       (if c \<in> set cs then map_option (\<lambda>d. d - 1) (map_of ?m c) else map_of ?m c))"
    using Cons.prems by (intro Cons.IH) (auto simp: bm_wf_insert bs_wf_insert)
  then obtain indegree' ready' where rel: "release cs ?m ?r = Some (indegree', ready')"
    and wf: "bm_wf indegree'" "bs_wf ready'" and keys: "fst ` set indegree' = fst ` set ?m"
    and ready: "set ready' = set ?r \<union> {c \<in> set cs. map_of ?m c = Some 1}"
    and deg: "\<And>c. map_of indegree' c =
       (if c \<in> set cs then map_option (\<lambda>d. d - 1) (map_of ?m c) else map_of ?m c)"
    by blast
  have "release (c # cs) indegree ready = Some (indegree', ready')" using rel d by simp
  moreover have "fst ` set indegree' = fst ` set indegree"
    using keys \<open>c \<in> fst ` set indegree\<close> by (simp add: insert_absorb)
  moreover have "set ready' = set ready \<union> {x \<in> set (c # cs). map_of indegree x = Some 1}"
    using ready d Cons.prems(1) by auto
  moreover have "map_of indegree' x = (if x \<in> set (c # cs)
      then map_option (\<lambda>d. d - 1) (map_of indegree x) else map_of indegree x)" for x
    using deg [of x] d Cons.prems(1) by auto
  ultimately show ?case using wf by blast
qed auto

text \<open>
  The invariant of the loop: \<open>P\<close> is the set of eliminated nodes. A node's counter is the number
  of its producers outside \<open>P\<close>; the ready and the eliminated nodes are those without one; the
  relation restricted to \<open>P\<close> has no cycle.
\<close>

definition elimination_inv ::
  "(string \<times> string) set \<Rightarrow> string set \<Rightarrow> (string, nat) bmap \<Rightarrow> string bset \<Rightarrow> nat \<Rightarrow> string set \<Rightarrow> bool" where
  "elimination_inv E V indegree ready visited P \<longleftrightarrow>
     bm_wf indegree \<and> bs_wf ready \<and> fst ` set indegree = V \<and>
     P \<subseteq> V \<and> set ready \<subseteq> V \<and> P \<inter> set ready = {} \<and> visited = card P \<and>
     (\<forall>c \<in> V. map_of indegree c = Some (card (E\<inverse> `` {c} - P))) \<and>
     (\<forall>c \<in> V. c \<in> P \<union> set ready \<longleftrightarrow> E\<inverse> `` {c} \<subseteq> P) \<and>
     acyclic (E \<inter> P \<times> P)"

lemma acyclic_insert_sink:
  assumes "acyclic (E \<inter> P \<times> P)" and "i \<notin> P" and "\<And>c. c \<in> P \<Longrightarrow> E\<inverse> `` {c} \<subseteq> P"
    and "E\<inverse> `` {i} \<subseteq> P"
  shows "acyclic (E \<inter> insert i P \<times> insert i P)"
proof -
  let ?F = "E \<inter> insert i P \<times> insert i P"
  have out: "(i, y) \<notin> ?F" for y using assms(2-4) by auto
  have "(x, y) \<in> ?F\<^sup>+ \<Longrightarrow> y \<noteq> i \<Longrightarrow> (x, y) \<in> (E \<inter> P \<times> P)\<^sup>+" for x y
  proof (induction rule: trancl.induct)
    case (r_into_trancl a b)
    then have "(a, b) \<in> E \<inter> P \<times> P" using out [of b] by auto
    then show ?case by blast
  next
    case (trancl_into_trancl a b c)
    then have "b \<noteq> i" using out by blast
    moreover from this have "(b, c) \<in> E \<inter> P \<times> P" using trancl_into_trancl by auto
    ultimately show ?case using trancl_into_trancl by (meson trancl.trancl_into_trancl)
  qed
  moreover have "(i, i) \<notin> ?F\<^sup>+" using out by (meson tranclD)
  ultimately show ?thesis using assms(1) unfolding acyclic_def by metis
qed


lemma card_one_preds:
  assumes "finite A" and "i \<notin> P"
  shows "i \<in> A \<and> card (A - P) = Suc 0 \<longleftrightarrow> A \<subseteq> insert i P \<and> \<not> A \<subseteq> P"
proof
  assume *: "i \<in> A \<and> card (A - P) = Suc 0"
  then obtain x where "A - P = {x}" by (auto simp: card_Suc_eq)
  moreover have "i \<in> A - P" using * assms(2) by simp
  ultimately have "A - P = {i}" by simp
  then show "A \<subseteq> insert i P \<and> \<not> A \<subseteq> P" by blast
next
  assume "A \<subseteq> insert i P \<and> \<not> A \<subseteq> P"
  then have "A - P = {i}" by blast
  then show "i \<in> A \<and> card (A - P) = Suc 0" by (simp, blast)
qed

lemma elimination_step:
  assumes inv: "elimination_inv E V indegree (i # ready) visited P"
    and fin: "finite E" "finite V" and succ: "E `` {i} \<subseteq> V"
    and cs: "bs_wf cs" "set cs = E `` {i}"
  shows "\<exists>indegree' ready'. release cs indegree ready = Some (indegree', ready') \<and>
    elimination_inv E V indegree' ready' (Suc visited) (insert i P)"
proof -
  let ?pre = "\<lambda>c. E\<inverse> `` {c}"
  have finP: "finite (?pre c)" for c using fin(1) by (simp add: finite_Image)
  from inv have deg: "\<And>c. c \<in> V \<Longrightarrow> map_of indegree c = Some (card (?pre c - P))"
    and clear: "\<And>c. c \<in> V \<Longrightarrow> c \<in> P \<union> set (i # ready) \<longleftrightarrow> ?pre c \<subseteq> P"
    and i: "i \<in> V" "i \<notin> P" "i \<notin> set ready" "bs_wf ready"
    and P: "P \<subseteq> V" "P \<inter> set ready = {}" "visited = card P" "acyclic (E \<inter> P \<times> P)"
    and V: "set ready \<subseteq> V" "fst ` set indegree = V" "bm_wf indegree"
    by (auto simp: elimination_inv_def bs_wf_def)
  have nz: "\<exists>d. map_of indegree c = Some (Suc d)" if "c \<in> set cs" for c
  proof -
    have "i \<in> ?pre c - P" "c \<in> V" using that cs i succ by auto
    moreover from this have "0 < card (?pre c - P)" using finP by (auto simp: card_gt_0_iff)
    ultimately show ?thesis using deg gr0_conv_Suc by auto
  qed
  obtain indegree' ready' where rel: "release cs indegree ready = Some (indegree', ready')"
    and wf: "bm_wf indegree'" "bs_wf ready'" "fst ` set indegree' = V"
    and ready: "set ready' = set ready \<union> {c \<in> set cs. map_of indegree c = Some 1}"
    and deg': "\<And>c. map_of indegree' c =
       (if c \<in> set cs then map_option (\<lambda>d. d - 1) (map_of indegree c) else map_of indegree c)"
    using release_Some [OF bs_wf_distinct [OF cs(1)] nz V(3) i(4)] unfolding V(2) by blast
  have ready': "c \<in> set ready' \<longleftrightarrow> c \<in> set ready \<or> (i \<in> ?pre c \<and> card (?pre c - P) = Suc 0)"
    if "c \<in> V" for c
    using ready cs(2) deg [OF that] by auto
  have degs: "map_of indegree' c = Some (card (?pre c - insert i P))" if "c \<in> V" for c
  proof -
    have "?pre c - insert i P = (?pre c - P) - {i}" by blast
    then have "card (?pre c - insert i P) =
        (if i \<in> ?pre c then card (?pre c - P) - 1 else card (?pre c - P))"
      using i(2) finP by (simp add: card_Diff_singleton_if)
    then show ?thesis using deg' deg [OF that] cs(2) by auto
  qed
  have closed: "c \<in> insert i P \<union> set ready' \<longleftrightarrow> ?pre c \<subseteq> insert i P" if "c \<in> V" for c
    using clear [OF that] ready' [OF that] card_one_preds [OF finP i(2), of c] by auto
  have "set ready' \<subseteq> V" using ready V(1) cs(2) succ by auto
  moreover have "insert i P \<inter> set ready' = {}"
  proof -
    have "c \<notin> set ready'" if "c \<in> insert i P" for c
    proof -
      have "c \<in> V" "?pre c \<subseteq> P" "c \<notin> set ready" using that clear [of c] i P by auto
      then show ?thesis using ready' card_one_preds [OF finP i(2), of c] by auto
    qed
    then show ?thesis by blast
  qed
  moreover have "Suc visited = card (insert i P)"
    using P i fin(2) by (simp add: finite_subset card_insert_if)
  moreover have "acyclic (E \<inter> insert i P \<times> insert i P)"
    using P(1) i clear by (intro acyclic_insert_sink P(4)) auto
  ultimately have "elimination_inv E V indegree' ready' (Suc visited) (insert i P)"
    using wf i P(1) degs closed by (simp add: elimination_inv_def)
  with rel show ?thesis by blast
qed

lemma eliminate_Some:
  assumes "elimination_inv E V indegree ready visited P" and "finite E" "finite V" "E \<subseteq> V \<times> V"
    and "\<And>p. bs_wf (consumers_of consumers p) \<and> set (consumers_of consumers p) = E `` {p}"
  shows "\<exists>indegree' visited' P'. eliminate consumers indegree ready visited = Some (indegree', visited') \<and>
    elimination_inv E V indegree' [] visited' P'"
  using assms
proof (induction consumers indegree ready visited arbitrary: P rule: eliminate.induct)
  case (2 consumers indegree i ready visited)
  have "E `` {i} \<subseteq> V" using \<open>E \<subseteq> V \<times> V\<close> by blast
  then obtain indegree' ready' where
    rel: "release (consumers_of consumers i) indegree ready = Some (indegree', ready')" and
    inv: "elimination_inv E V indegree' ready' (Suc visited) (insert i P)"
    using elimination_step [OF 2(2,3,4)] 2(6) by blast
  show ?case using 2(1) [OF rel refl inv 2(3-6)] rel by simp
qed auto

text \<open>The nodes left over are those downstream of a cycle.\<close>

definition downstream_of_cycle :: "(string \<times> string) set \<Rightarrow> string set" where
  "downstream_of_cycle E = {c. \<exists>x. (x, x) \<in> E\<^sup>+ \<and> (x, c) \<in> E\<^sup>*}"

lemma pred_closed_rtrancl:
  assumes "\<And>c. c \<in> P \<Longrightarrow> E\<inverse> `` {c} \<subseteq> P" and "(x, c) \<in> E\<^sup>*" and "c \<in> P"
  shows "x \<in> P"
  using assms(2,3) by (induction rule: converse_rtrancl_induct) (use assms(1) in blast)+

lemma pred_closed_trancl:
  assumes "\<And>c. c \<in> P \<Longrightarrow> E\<inverse> `` {c} \<subseteq> P" and "(x, c) \<in> E\<^sup>+" and "c \<in> P"
  shows "(x, c) \<in> (E \<inter> P \<times> P)\<^sup>+"
  using assms(2,3)
proof (induction rule: trancl_induct)
  case (base y)
  then show ?case using assms(1) by blast
next
  case (step y z)
  then have "(y, z) \<in> E \<inter> P \<times> P" using assms(1) by blast
  with step show ?case by (meson IntD2 mem_Sigma_iff trancl.trancl_into_trancl)
qed

lemma eliminated_downstream:
  assumes inv: "elimination_inv E V indegree [] visited P" and fin: "finite E" and "E \<subseteq> V \<times> V"
  shows "V - P = V \<inter> downstream_of_cycle E"
proof -
  from inv have clear: "\<And>c. c \<in> V \<Longrightarrow> c \<in> P \<longleftrightarrow> E\<inverse> `` {c} \<subseteq> P" and "P \<subseteq> V"
    and acyc: "acyclic (E \<inter> P \<times> P)"
    by (auto simp: elimination_inv_def)
  then have closed: "\<And>c. c \<in> P \<Longrightarrow> E\<inverse> `` {c} \<subseteq> P" by blast
  have "c \<notin> downstream_of_cycle E" if "c \<in> P" for c
    using pred_closed_rtrancl [OF closed] pred_closed_trancl [OF closed] that acyc
    unfolding downstream_of_cycle_def acyclic_def by blast
  moreover have "c \<in> P" if "c \<in> V" and no: "c \<notin> downstream_of_cycle E" for c
  proof -
    let ?A = "{a. (a, c) \<in> E\<^sup>*}"
    let ?F = "E \<inter> ?A \<times> ?A"
    have "?F\<^sup>+ \<subseteq> E\<^sup>+" by (rule trancl_mono_subset) blast
    moreover have "x \<in> ?A" if "(x, x) \<in> ?F\<^sup>+" for x using that by (metis IntD2 mem_Sigma_iff tranclD)
    ultimately have "acyclic ?F" using no unfolding downstream_of_cycle_def acyclic_def by blast
    then have wf: "wf ?F" using fin by (intro finite_acyclic_wf) auto
    have "a \<in> ?A \<Longrightarrow> a \<in> V \<Longrightarrow> a \<in> P" for a
    proof (induction a rule: wf_induct_rule [OF wf])
      case (1 a)
      have "b \<in> P" if "(b, a) \<in> E" for b
        using that 1 \<open>E \<subseteq> V \<times> V\<close> by (intro 1(1)) (auto intro: converse_rtrancl_into_rtrancl)
      then show ?case using clear 1 by blast
    qed
    then show ?thesis using \<open>c \<in> V\<close> by blast
  qed
  ultimately show ?thesis using \<open>P \<subseteq> V\<close> by blast
qed


lemma downstream_subset:
  assumes "E \<subseteq> V \<times> V"
  shows "downstream_of_cycle E \<subseteq> V"
proof
  fix c assume "c \<in> downstream_of_cycle E"
  then obtain x where x: "(x, x) \<in> E\<^sup>+" "(x, c) \<in> E\<^sup>*" by (auto simp: downstream_of_cycle_def)
  have "x \<in> V" using x(1) assms by (meson mem_Sigma_iff subsetD tranclD)
  with x(2) show "c \<in> V" using assms by (induction rule: rtrancl_induct) auto
qed

lemma downstream_empty_iff: "downstream_of_cycle E = {} \<longleftrightarrow> acyclic E"
  unfolding downstream_of_cycle_def acyclic_def by blast

lemma ready_initial_inv:
  assumes "flow_tables E V (consumers, indegree)" and "finite E"
  shows "elimination_inv E V indegree
    (bs_of_list (map fst (filter (\<lambda>(_, degree). degree = 0) indegree))) 0 {}"
proof -
  let ?ready = "map fst (filter (\<lambda>(_, degree). degree = 0) indegree)"
  from assms have wf: "bm_wf indegree" and keys: "fst ` set indegree = V"
    and deg: "\<And>c. c \<in> V \<Longrightarrow> map_of indegree c = Some (card (E\<inverse> `` {c}))"
    by (simp_all add: flow_tables_def)
  have "c \<in> set ?ready \<longleftrightarrow> map_of indegree c = Some 0" for c
    using wf by (force simp: bm_wf_map_of_iff)
  then have ready: "c \<in> set ?ready \<longleftrightarrow> E\<inverse> `` {c} = {}" if "c \<in> V" for c
    using deg [OF that] assms(2) by (simp add: finite_Image)
  have "set ?ready \<subseteq> V" using keys by force
  with wf keys deg ready show ?thesis
    by (simp add: elimination_inv_def acyclic_def)
qed

definition node_ids :: "aios_ir \<Rightarrow> string set" where
  "node_ids program = node_id ` set (ir_nodes program)"

lemma finite_node_ids [simp]: "finite (node_ids program)"
  by (simp add: node_ids_def)

lemma validate_acyclic_result:
  assumes closed: "flow program \<subseteq> node_ids program \<times> node_ids program"
  shows "\<exists>ds. validate_acyclic program (node_table program) = Some ds \<and>
    (acyclic (flow program) \<longrightarrow> ds = []) \<and>
    (\<not> acyclic (flow program) \<longrightarrow> (\<exists>d. ds = [d] \<and> dg_code d = IrGraphCycle \<and> is_error d \<and>
       set (dg_related d) = downstream_of_cycle (flow program)))"
proof -
  let ?E = "flow program" and ?V = "node_ids program"
  obtain consumers indegree where build: "build_flow program (node_table program) = (consumers, indegree)"
    by (cases "build_flow program (node_table program)")
  then have tables: "flow_tables ?E ?V (consumers, indegree)"
    using flow_tables_build [of program] by (simp add: node_ids_def)
  then have succs: "bs_wf (consumers_of consumers p) \<and> set (consumers_of consumers p) = ?E `` {p}" for p
    by (simp add: flow_tables_def)
  let ?ready = "bs_of_list (map fst (filter (\<lambda>(_, degree). degree = 0) indegree))"
  obtain indegree' visited P where
    run: "eliminate consumers indegree ?ready 0 = Some (indegree', visited)" and
    inv: "elimination_inv ?E ?V indegree' [] visited P"
    using eliminate_Some [OF ready_initial_inv [OF tables finite_flow] finite_flow finite_node_ids closed
        succs] by blast
  have rest: "?V - P = downstream_of_cycle ?E"
    using eliminated_downstream [OF inv _ closed] downstream_subset [OF closed] by auto
  from inv have P: "P \<subseteq> ?V" "visited = card P" and keys: "fst ` set indegree' = ?V"
    and clear: "\<And>c. c \<in> ?V \<Longrightarrow> c \<in> P \<longleftrightarrow> ?E\<inverse> `` {c} \<subseteq> P" and wf: "bm_wf indegree'"
    and deg: "\<And>c. c \<in> ?V \<Longrightarrow> map_of indegree' c = Some (card (?E\<inverse> `` {c} - P))"
    by (auto simp: elimination_inv_def)
  have "length (node_table program) = card ?V" by (simp add: length_node_table node_ids_def)
  then have complete: "visited \<noteq> length (node_table program) \<longleftrightarrow> \<not> acyclic ?E"
    using P card_subset_eq [OF finite_node_ids P(1)] rest downstream_empty_iff [of ?E] by auto
  have left: "set (map fst (filter (\<lambda>(_, degree). 0 < degree) indegree')) = ?V - P"
  proof -
    have "c \<in> set (map fst (filter (\<lambda>(_, degree). 0 < degree) indegree')) \<longleftrightarrow>
        (\<exists>d>0. map_of indegree' c = Some d)" for c
      using wf by (force simp: bm_wf_map_of_iff)
    moreover have "(\<exists>d>0. map_of indegree' c = Some d) \<longleftrightarrow> c \<notin> P" if "c \<in> ?V" for c
      using deg [OF that] clear [OF that] by (auto simp: card_gt_0_iff finite_Image)
    moreover have "c \<in> ?V" if "map_of indegree' c = Some d" for c d
      using that keys by (metis domI dom_map_of_conv_image_fst)
    ultimately show ?thesis by blast
  qed
  show ?thesis
    using left rest complete
    by (simp add: validate_acyclic_def build run is_error_def diagnostic_new_def)
qed

end
