(* ===== verification/Aios_References.thy ===== *)
theory Aios_References
  imports Aios_Registry Aios_Graph
begin

text \<open>
  Reference, type and capability analysis of a program against a registry
  (\<open>crates/aios-ir/src/semantics.rs\<close>: \<open>validate_references\<close>, \<open>validate_value_ref\<close>,
  \<open>validate_types_and_capabilities\<close>, \<open>validate_port_shape\<close>, \<open>validate_flow_types\<close>). Each check is
  the list of diagnostics it pushes, in order; \<open>None\<close> is a panic. The lemmas read an empty list
  back as the declarative condition it stands for and show that the \<open>expect\<close>s cannot fail once the
  references have been validated.
\<close>

section \<open>Rendering\<close>

definition escape_pointer :: "string \<Rightarrow> string" where
  "escape_pointer v = replace_char (CHR ''/'') ''~1'' (replace_char (CHR 0x7E) ''~0'' v)"

fun debug_operation_kind :: "operation_kind \<Rightarrow> string" where
  "debug_operation_kind Invoke = ''Invoke''"
| "debug_operation_kind Verify = ''Verify''"

fun debug_role :: "capability_role \<Rightarrow> string" where
  "debug_role Ordinary = ''Ordinary''"
| "debug_role Verifier = ''Verifier''"

fun debug_execution_class :: "execution_class \<Rightarrow> string" where
  "debug_execution_class Deterministic = ''Deterministic''"
| "debug_execution_class BoundedNondeterministic = ''BoundedNondeterministic''"
| "debug_execution_class Probabilistic = ''Probabilistic''"
| "debug_execution_class OpaqueExternal = ''OpaqueExternal''"

fun debug_effect :: "effect_class \<Rightarrow> string" where
  "debug_effect Pure = ''Pure''"
| "debug_effect ArtifactRead = ''ArtifactRead''"
| "debug_effect ArtifactWrite = ''ArtifactWrite''"
| "debug_effect Network = ''Network''"
| "debug_effect DataEgress = ''DataEgress''"
| "debug_effect ExternalMessage = ''ExternalMessage''"
| "debug_effect SecretAccess = ''SecretAccess''"
| "debug_effect PersistentState = ''PersistentState''"
| "debug_effect DeviceAccess = ''DeviceAccess''"
| "debug_effect SystemChange = ''SystemChange''"
| "debug_effect LegacyOpaque = ''LegacyOpaque''"

fun debug_egress :: "egress_mode \<Rightarrow> string" where
  "debug_egress Deny = ''Deny''"
| "debug_egress Policy = ''Policy''"

definition node_capability :: "node \<Rightarrow> string" where
  "node_capability n = op_capability (node_operation n)"

text \<open>The common call shape \<open>contextual(code, message, Some(&node.id), port, Some(capability), Some(pointer))\<close>.\<close>

definition at_node ::
  "validator_reason_code \<Rightarrow> string \<Rightarrow> node \<Rightarrow> string option \<Rightarrow> string \<Rightarrow> diagnostic" where
  "at_node code message n port pointer =
     contextual code message (Some (node_id n)) port (Some (node_capability n)) (Some pointer)"

definition node_pointer :: "nat \<Rightarrow> string \<Rightarrow> string" where
  "node_pointer index suffix = ''/nodes/'' @ show_nat index @ suffix"

definition push_if :: "bool \<Rightarrow> diagnostic \<Rightarrow> diagnostic list" where
  "push_if b d = (if b then [d] else [])"

lemma push_if_Nil [simp]: "push_if b d = [] \<longleftrightarrow> \<not> b"
  by (simp add: push_if_def)

lemma set_push_if [simp]: "x \<in> set (push_if b d) \<longleftrightarrow> b \<and> x = d"
  by (auto simp: push_if_def)

lemma is_error_at_node [simp]: "is_error (at_node code m n p j) \<longleftrightarrow> reason_severity code = Error"
  by (simp add: at_node_def)


section \<open>References\<close>

definition validate_value_ref ::
  "aios_ir \<Rightarrow> node_index \<Rightarrow> node option \<Rightarrow> string option \<Rightarrow> string \<Rightarrow> value_ref \<Rightarrow> diagnostic list" where
  "validate_value_ref program nodes consumer consumer_port pointer value_ref =
     (case value_ref of
        InputRef name \<Rightarrow>
          push_if (\<not> contains_key (ir_inputs program) name)
            (contextual IrReferenceInputNotFound
              (''program input '' @ quoted name @ '' does not exist'')
              (map_option node_id consumer) consumer_port (map_option node_capability consumer)
              (Some pointer))
      | NodeRef n port \<Rightarrow>
          (case map_of nodes n of
             None \<Rightarrow>
               [contextual IrReferenceNodeNotFound
                 (''referenced node '' @ quoted n @ '' does not exist'')
                 (map_option node_id consumer) consumer_port (map_option node_capability consumer)
                 (Some pointer)]
           | Some producer \<Rightarrow>
               push_if (\<not> contains_key (node_outputs producer) port)
                 (contextual IrReferencePortNotFound
                   (''node '' @ quoted n @ '' has no declared output port '' @ quoted port)
                   (map_option node_id consumer) consumer_port (map_option node_capability consumer)
                   (Some pointer))))"

definition consumed_program_inputs :: "node \<Rightarrow> string bset" where
  "consumed_program_inputs n =
     bs_of_list (List.map_filter (\<lambda>r. case r of InputRef name \<Rightarrow> Some name | NodeRef _ _ \<Rightarrow> None)
       (map snd (node_inputs n)))"

definition validate_authority_selector ::
  "aios_ir \<Rightarrow> nat \<Rightarrow> node \<Rightarrow> nat \<times> authority_request \<Rightarrow> diagnostic list" where
  "validate_authority_selector program node_index n request =
     (case strip_prefix ''input:'' (ar_resource (snd request)) of
        None \<Rightarrow> []
      | Some input \<Rightarrow>
          push_if (\<not> contains_key (ir_inputs program) input \<or> input \<notin> set (consumed_program_inputs n))
            (at_node IrReferenceInputNotFound
              (''authority selector '' @ quoted (ar_resource (snd request))
                 @ '' does not name a program input consumed by this node'')
              n None
              (node_pointer node_index
                (''/authority_requests/'' @ show_nat (fst request) @ ''/resource''))))"

definition validate_node_references ::
  "aios_ir \<Rightarrow> node_index \<Rightarrow> nat \<times> node \<Rightarrow> diagnostic list" where
  "validate_node_references program nodes entry =
     (case entry of (node_index, n) \<Rightarrow>
       concat (map (\<lambda>(port, r).
         validate_value_ref program nodes (Some n) (Some port)
           (node_pointer node_index (''/inputs/'' @ escape_pointer port)) r) (node_inputs n)) @
       concat (map (validate_authority_selector program node_index n)
         (List.enumerate 0 (node_authority_requests n))))"

definition validate_output_reference ::
  "aios_ir \<Rightarrow> node_index \<Rightarrow> string \<times> value_ref \<Rightarrow> diagnostic list" where
  "validate_output_reference program nodes entry =
     (case entry of (name, r) \<Rightarrow>
       (case r of
          InputRef _ \<Rightarrow>
            [contextual IrOutputNotFound
              (''program output '' @ quoted name @ '' must resolve to a node output'')
              None (Some name) None (Some (''/outputs/'' @ escape_pointer name))]
        | NodeRef _ _ \<Rightarrow>
            validate_value_ref program nodes None (Some name) (''/outputs/'' @ escape_pointer name) r))"

definition validate_references :: "aios_ir \<Rightarrow> node_index \<Rightarrow> diagnostic list" where
  "validate_references program nodes =
     concat (map (validate_node_references program nodes) (List.enumerate 0 (ir_nodes program))) @
     concat (map (validate_output_reference program nodes) (ir_outputs program))"


section \<open>Types and capabilities\<close>

definition validate_port_shape ::
  "node \<Rightarrow> capability_contract \<Rightarrow> nat \<Rightarrow> diagnostic list" where
  "validate_port_shape n contract node_index =
     concat (map (\<lambda>(port, specification).
       push_if (port_required specification \<and> \<not> contains_key (node_inputs n) port)
         (at_node IrCapabilityPortMismatch
           (''required capability input port '' @ quoted port @ '' is missing'') n (Some port)
           (node_pointer node_index ''/inputs''))) (cap_inputs contract)) @
     concat (map (\<lambda>port.
       push_if (\<not> contains_key (cap_inputs contract) port)
         (at_node IrCapabilityPortMismatch
           (''input port '' @ quoted port @ '' is not declared by the capability'') n (Some port)
           (node_pointer node_index (''/inputs/'' @ escape_pointer port))))
       (map fst (node_inputs n))) @
     concat (map (\<lambda>(port, specification).
       push_if (port_required specification \<and> \<not> contains_key (node_outputs n) port)
         (at_node IrCapabilityPortMismatch
           (''required capability output port '' @ quoted port @ '' is missing'') n (Some port)
           (node_pointer node_index ''/outputs''))) (cap_outputs contract)) @
     concat (map (\<lambda>(port, type_ref).
       (case map_of (cap_outputs contract) port of
          None \<Rightarrow>
            [at_node IrCapabilityPortMismatch
              (''output port '' @ quoted port @ '' is not declared by the capability'') n (Some port)
              (node_pointer node_index (''/outputs/'' @ escape_pointer port))]
        | Some specification \<Rightarrow>
            push_if (port_type_ref specification \<noteq> type_ref)
              (at_node IrCapabilityPortMismatch
                (''declared output type '' @ quoted type_ref @ '' does not match capability type ''
                   @ quoted (port_type_ref specification)) n (Some port)
                (node_pointer node_index (''/outputs/'' @ escape_pointer port)))))
       (node_outputs n))"

text \<open>
  The type a value reference carries and whether it is an optional program input; \<open>None\<close> where
  the source's \<open>expect\<close>s panic.
\<close>

definition flow_source :: "aios_ir \<Rightarrow> node_index \<Rightarrow> value_ref \<Rightarrow> (string \<times> bool) option" where
  "flow_source program nodes r =
     (case r of
        InputRef name \<Rightarrow>
          map_option (\<lambda>input. (pin_type_ref input, \<not> pin_required input)) (map_of (ir_inputs program) name)
      | NodeRef producer port \<Rightarrow>
          (case map_of nodes producer of
             None \<Rightarrow> None
           | Some p \<Rightarrow> map_option (\<lambda>t. (t, False)) (map_of (node_outputs p) port)))"

definition validate_flow_type ::
  "aios_ir \<Rightarrow> node_index \<Rightarrow> node \<Rightarrow> capability_contract \<Rightarrow> nat \<Rightarrow> string \<times> value_ref \<Rightarrow>
    diagnostic list option" where
  "validate_flow_type program nodes n contract node_index entry =
     (case entry of (port, r) \<Rightarrow>
       (case map_of (cap_inputs contract) port of
          None \<Rightarrow> Some []
        | Some expected \<Rightarrow>
            (case flow_source program nodes r of
               None \<Rightarrow> None
             | Some (actual, optional_program_input) \<Rightarrow>
                 Some (push_if (optional_program_input \<and> port_required expected)
                         (at_node IrOptionalInputToRequiredPort
                           (''optional program input cannot feed required port '' @ quoted port)
                           n (Some port)
                           (node_pointer node_index (''/inputs/'' @ escape_pointer port))) @
                       push_if (actual \<noteq> port_type_ref expected)
                         (at_node IrTypeMismatch
                           (''value type '' @ quoted actual @ '' does not match required type ''
                              @ quoted (port_type_ref expected)) n (Some port)
                           (node_pointer node_index (''/inputs/'' @ escape_pointer port)))))))"

definition validate_flow_types ::
  "aios_ir \<Rightarrow> node_index \<Rightarrow> node \<Rightarrow> capability_contract \<Rightarrow> nat \<Rightarrow> diagnostic list option" where
  "validate_flow_types program nodes n contract node_index =
     map_option concat
       (those (map (validate_flow_type program nodes n contract node_index) (node_inputs n)))"

definition expected_role :: "node \<Rightarrow> capability_role" where
  "expected_role n = (case op_kind (node_operation n) of Invoke \<Rightarrow> Ordinary | Verify \<Rightarrow> Verifier)"

definition validate_node_types ::
  "aios_ir \<Rightarrow> semantic_registry \<Rightarrow> node_index \<Rightarrow> nat \<times> node \<Rightarrow> diagnostic list option" where
  "validate_node_types program registry nodes entry =
     (case entry of (node_index, n) \<Rightarrow>
       (let outputs = concat (map (\<lambda>(port, type_ref).
              push_if (ok_flatten (resolve_type registry type_ref) = None)
                (at_node IrTypeNotFound
                  (''output '' @ quoted port @ '' references unknown type '' @ quoted type_ref)
                  n (Some port)
                  (node_pointer node_index (''/outputs/'' @ escape_pointer port)))) (node_outputs n))
        in case ok_flatten (resolve_capability registry (node_capability n)) of
             None \<Rightarrow>
               Some (outputs @
                 [at_node IrCapabilityNotFound
                   (''capability '' @ quoted (node_capability n)
                      @ '' is absent from the selected registry snapshot'') n None
                   (node_pointer node_index ''/operation/capability'')])
           | Some contract \<Rightarrow>
               map_option (\<lambda>flows.
                 outputs @
                 push_if (cap_role contract \<noteq> expected_role n)
                   (at_node IrCapabilityRoleMismatch
                     (''operation kind '' @ debug_operation_kind (op_kind (node_operation n))
                        @ '' is incompatible with capability role '' @ debug_role (cap_role contract))
                     n None (node_pointer node_index ''/operation/kind'')) @
                 push_if (node_execution_class n \<notin> set (cap_allowed_execution_classes contract))
                   (at_node IrExecutionClassIncompatible
                     (''execution class '' @ debug_execution_class (node_execution_class n)
                        @ '' is outside the capability contract envelope'')
                     n None (node_pointer node_index ''/execution_class'')) @
                 validate_port_shape n contract node_index @ flows)
               (validate_flow_types program nodes n contract node_index)))"

type_synonym capability_table = "(string, capability_contract) bmap"

text \<open>The map the loop fills: the contract of every node whose capability resolves.\<close>

definition resolved_capabilities :: "aios_ir \<Rightarrow> semantic_registry \<Rightarrow> capability_table" where
  "resolved_capabilities program registry =
     fold (\<lambda>n m. case ok_flatten (resolve_capability registry (node_capability n)) of
                   None \<Rightarrow> m
                 | Some contract \<Rightarrow> bm_insert (node_id n) contract m) (ir_nodes program) []"

definition validate_input_types :: "aios_ir \<Rightarrow> semantic_registry \<Rightarrow> diagnostic list" where
  "validate_input_types program registry =
     concat (map (\<lambda>(name, input).
       push_if (ok_flatten (resolve_type registry (pin_type_ref input)) = None)
         (contextual IrTypeNotFound
           (''input '' @ quoted name @ '' references unknown type '' @ quoted (pin_type_ref input))
           None (Some name) None (Some (''/inputs/'' @ escape_pointer name @ ''/type''))))
       (ir_inputs program))"

definition validate_types_and_capabilities ::
  "aios_ir \<Rightarrow> semantic_registry \<Rightarrow> node_index \<Rightarrow> (diagnostic list \<times> capability_table) option" where
  "validate_types_and_capabilities program registry nodes =
     map_option (\<lambda>per_node.
       (validate_input_types program registry @ concat per_node,
        resolved_capabilities program registry))
     (those (map (validate_node_types program registry nodes) (List.enumerate 0 (ir_nodes program))))"



section \<open>What clean references mean\<close>

lemma enumerate_ball: "(\<forall>x \<in> set (List.enumerate k xs). P (snd x)) \<longleftrightarrow> (\<forall>x \<in> set xs. P x)"
proof -
  have "snd ` set (List.enumerate k xs) = set xs"
    by (metis list.set_map map_snd_enumerate)
  moreover have "(\<forall>x \<in> set (List.enumerate k xs). P (snd x)) \<longleftrightarrow>
      (\<forall>y \<in> snd ` set (List.enumerate k xs). P y)" by blast
  ultimately show ?thesis by (simp only:)
qed

lemma in_set_enumerate_snd: "x \<in> set (List.enumerate k xs) \<Longrightarrow> snd x \<in> set xs"
  using enumerate_ball [of k xs "\<lambda>y. y \<in> set xs"] by blast

definition ref_resolves :: "aios_ir \<Rightarrow> value_ref \<Rightarrow> bool" where
  "ref_resolves program r \<longleftrightarrow>
     (case r of
        InputRef name \<Rightarrow> name \<in> fst ` set (ir_inputs program)
      | NodeRef i port \<Rightarrow>
          \<exists>n \<in> set (ir_nodes program). node_id n = i \<and> port \<in> fst ` set (node_outputs n))"

text \<open>An \<open>input:\<close> selector names a program input that the node consumes.\<close>

definition selector_ok :: "aios_ir \<Rightarrow> node \<Rightarrow> authority_request \<Rightarrow> bool" where
  "selector_ok program n q \<longleftrightarrow>
     (\<forall>x. ar_resource q = ''input:'' @ x \<longrightarrow>
        x \<in> fst ` set (ir_inputs program) \<and> InputRef x \<in> snd ` set (node_inputs n))"

definition references_ok :: "aios_ir \<Rightarrow> bool" where
  "references_ok program \<longleftrightarrow>
     (\<forall>n \<in> set (ir_nodes program).
        (\<forall>x \<in> set (node_inputs n). ref_resolves program (snd x)) \<and>
        (\<forall>q \<in> set (node_authority_requests n). selector_ok program n q)) \<and>
     (\<forall>x \<in> set (ir_outputs program). (\<exists>i port. snd x = NodeRef i port) \<and> ref_resolves program (snd x))"

lemma node_table_resolves:
  assumes "unique_ids program"
  shows "(\<exists>n \<in> set (ir_nodes program). node_id n = i \<and> P n) \<longleftrightarrow>
    (\<exists>n. map_of (node_table program) i = Some n \<and> P n)"
  using node_table_lookup [OF assms] node_table_SomeD [of program i] by blast

lemma validate_value_ref_clean:
  assumes "unique_ids program"
  shows "validate_value_ref program (node_table program) consumer port pointer r = []
    \<longleftrightarrow> ref_resolves program r"
proof (cases r)
  case (NodeRef i p)
  then show ?thesis
    by (simp add: validate_value_ref_def ref_resolves_def node_table_resolves [OF assms]
        contains_key_iff split: option.split)
qed (simp add: validate_value_ref_def ref_resolves_def contains_key_iff)

lemma validate_value_ref_error: "d \<in> set (validate_value_ref program nodes c port pointer r) \<Longrightarrow> is_error d"
  by (auto simp: validate_value_ref_def split: value_ref.splits option.splits)

lemma set_consumed_program_inputs:
  "x \<in> set (consumed_program_inputs n) \<longleftrightarrow> InputRef x \<in> snd ` set (node_inputs n)"
  by (force simp: consumed_program_inputs_def List.map_filter_def split: value_ref.splits)

lemma validate_authority_selector_clean:
  "validate_authority_selector program index n q = [] \<longleftrightarrow>
     selector_ok program n (snd q)"
proof (cases "strip_prefix ''input:'' (ar_resource (snd q))")
  case None
  then have "ar_resource (snd q) \<noteq> ''input:'' @ x" for x using strip_prefix_append by fastforce
  with None show ?thesis by (simp add: validate_authority_selector_def selector_ok_def)
next
  case (Some y)
  then have "ar_resource (snd q) = ''input:'' @ y" by (simp only: strip_prefix_Some_iff)
  then show ?thesis
    by (simp add: validate_authority_selector_def contains_key_iff set_consumed_program_inputs
        selector_ok_def)
qed

lemma validate_references_clean:
  assumes "unique_ids program"
  shows "validate_references program (node_table program) = [] \<longleftrightarrow> references_ok program"
proof -
  have node: "validate_node_references program (node_table program) (i, n) = [] \<longleftrightarrow>
      (\<forall>x \<in> set (node_inputs n). ref_resolves program (snd x)) \<and>
      (\<forall>q \<in> set (node_authority_requests n). selector_ok program n q)" for i n
    unfolding validate_node_references_def
    by (simp add: validate_value_ref_clean [OF assms] validate_authority_selector_clean case_prod_beta
        enumerate_ball [where P = "selector_ok program n"])
  have out: "validate_output_reference program (node_table program) x = [] \<longleftrightarrow>
      (\<exists>i port. snd x = NodeRef i port) \<and> ref_resolves program (snd x)" for x
    by (cases x)
      (auto simp: validate_output_reference_def validate_value_ref_clean [OF assms] split: value_ref.split)
  let ?Q = "\<lambda>n. (\<forall>x \<in> set (node_inputs n). ref_resolves program (snd x)) \<and>
      (\<forall>q \<in> set (node_authority_requests n). selector_ok program n q)"
  have "(\<forall>x \<in> set (List.enumerate 0 (ir_nodes program)).
      validate_node_references program (node_table program) x = []) \<longleftrightarrow>
      (\<forall>n \<in> set (ir_nodes program). ?Q n)"
    unfolding enumerate_ball [of 0 "ir_nodes program" ?Q, symmetric]
    by (intro ball_cong refl) (metis node prod.collapse)
  then show ?thesis
    unfolding validate_references_def references_ok_def by (simp add: out)
qed

lemma validate_output_reference_error:
  "d \<in> set (validate_output_reference program nodes x) \<Longrightarrow> is_error d"
  by (cases x; cases "snd x")
    (auto simp: validate_output_reference_def dest: validate_value_ref_error)

lemma validate_node_references_error:
  "d \<in> set (validate_node_references program nodes x) \<Longrightarrow> is_error d"
  by (auto simp: validate_node_references_def validate_authority_selector_def
      dest: validate_value_ref_error split: prod.splits option.splits)

lemma validate_references_error:
  "d \<in> set (validate_references program nodes) \<Longrightarrow> is_error d"
  by (auto simp: validate_references_def
      dest: validate_node_references_error validate_output_reference_error)

lemma references_ok_flow:
  assumes "references_ok program"
  shows "flow program \<subseteq> node_ids program \<times> node_ids program"
proof -
  have "p \<in> node_ids program" if "n \<in> set (ir_nodes program)" "(name, NodeRef p port) \<in> set (node_inputs n)"
    for p n name port
    using assms that by (fastforce simp: references_ok_def ref_resolves_def node_ids_def)
  then show ?thesis by (auto simp: flow_def node_ids_def)
qed



section \<open>What clean types mean\<close>

definition ports_ok :: "node \<Rightarrow> capability_contract \<Rightarrow> bool" where
  "ports_ok n contract \<longleftrightarrow>
     (\<forall>x \<in> set (cap_inputs contract). port_required (snd x) \<longrightarrow> fst x \<in> fst ` set (node_inputs n)) \<and>
     fst ` set (node_inputs n) \<subseteq> fst ` set (cap_inputs contract) \<and>
     (\<forall>x \<in> set (cap_outputs contract). port_required (snd x) \<longrightarrow> fst x \<in> fst ` set (node_outputs n)) \<and>
     (\<forall>x \<in> set (node_outputs n). \<exists>s. map_of (cap_outputs contract) (fst x) = Some s \<and> port_type_ref s = snd x)"

definition flow_ok :: "aios_ir \<Rightarrow> capability_contract \<Rightarrow> string \<times> value_ref \<Rightarrow> bool" where
  "flow_ok program contract x \<longleftrightarrow>
     (\<forall>expected. map_of (cap_inputs contract) (fst x) = Some expected \<longrightarrow>
        (\<exists>optional. flow_source program (node_table program) (snd x) = Some (port_type_ref expected, optional)
           \<and> \<not> (optional \<and> port_required expected)))"

definition flows_ok :: "aios_ir \<Rightarrow> node \<Rightarrow> capability_contract \<Rightarrow> bool" where
  "flows_ok program n contract \<longleftrightarrow> (\<forall>x \<in> set (node_inputs n). flow_ok program contract x)"

definition node_types_ok :: "aios_ir \<Rightarrow> semantic_registry \<Rightarrow> node \<Rightarrow> bool" where
  "node_types_ok program registry n \<longleftrightarrow>
     (\<forall>x \<in> set (node_outputs n). ok_flatten (resolve_type registry (snd x)) \<noteq> None) \<and>
     (\<exists>contract. ok_flatten (resolve_capability registry (node_capability n)) = Some contract \<and>
        cap_role contract = expected_role n \<and>
        node_execution_class n \<in> set (cap_allowed_execution_classes contract) \<and>
        ports_ok n contract \<and> flows_ok program n contract)"

definition types_ok :: "aios_ir \<Rightarrow> semantic_registry \<Rightarrow> bool" where
  "types_ok program registry \<longleftrightarrow>
     (\<forall>x \<in> set (ir_inputs program). ok_flatten (resolve_type registry (pin_type_ref (snd x))) \<noteq> None) \<and>
     (\<forall>n \<in> set (ir_nodes program). node_types_ok program registry n)"

lemma validate_port_shape_clean: "validate_port_shape n contract i = [] \<longleftrightarrow> ports_ok n contract"
proof -
  have outputs: "(case map_of (cap_outputs contract) (fst x) of
          None \<Rightarrow> [d] | Some s \<Rightarrow> push_if (port_type_ref s \<noteq> snd x) (e s)) = [] \<longleftrightarrow>
      (\<exists>s. map_of (cap_outputs contract) (fst x) = Some s \<and> port_type_ref s = snd x)" for x d e
    by (auto split: option.split)
  show ?thesis
    by (simp add: validate_port_shape_def ports_ok_def case_prod_beta contains_key_iff outputs
        image_subset_iff)
qed

lemma validate_port_shape_error: "d \<in> set (validate_port_shape n contract i) \<Longrightarrow> is_error d"
  by (auto simp: validate_port_shape_def split: option.splits)

lemma flow_source_Some:
  assumes "unique_ids program" and "ref_resolves program r"
  shows "\<exists>t optional. flow_source program (node_table program) r = Some (t, optional)"
proof (cases r)
  case (InputRef name)
  then have "map_of (ir_inputs program) name \<noteq> None"
    using assms(2) by (simp add: ref_resolves_def map_of_eq_None_iff)
  then show ?thesis using InputRef by (auto simp: flow_source_def)
next
  case (NodeRef i port)
  then obtain n where "map_of (node_table program) i = Some n" "map_of (node_outputs n) port \<noteq> None"
    using assms(2) by (auto simp: ref_resolves_def node_table_resolves [OF assms(1)] map_of_eq_None_iff)
  then show ?thesis using NodeRef by (auto simp: flow_source_def)
qed

lemma validate_flow_type_result:
  assumes "unique_ids program" and "ref_resolves program (snd x)"
  shows "\<exists>ds. validate_flow_type program (node_table program) n contract i x = Some ds \<and>
    (\<forall>d \<in> set ds. is_error d) \<and> (ds = [] \<longleftrightarrow> flow_ok program contract x)"
proof -
  obtain t optional where "flow_source program (node_table program) (snd x) = Some (t, optional)"
    using flow_source_Some [OF assms] by blast
  then show ?thesis
    by (cases x) (auto simp: validate_flow_type_def flow_ok_def split: option.split)
qed

text \<open>A loop whose body never panics concatenates what its iterations push.\<close>

lemma those_result:
  assumes "\<And>x. x \<in> set xs \<Longrightarrow> \<exists>ds. f x = Some ds \<and> (\<forall>d \<in> set ds. is_error d) \<and> (ds = [] \<longleftrightarrow> P x)"
  shows "\<exists>dss. those (map f xs) = Some dss \<and> (\<forall>d \<in> set (concat dss). is_error d) \<and>
    (concat dss = [] \<longleftrightarrow> (\<forall>x \<in> set xs. P x))"
  using assms
proof (induction xs)
  case (Cons x xs)
  obtain ds where ds: "f x = Some ds" "\<forall>d \<in> set ds. is_error d" "ds = [] \<longleftrightarrow> P x"
    using Cons.prems [OF list.set_intros(1)] by blast
  obtain dss where "those (map f xs) = Some dss" "\<forall>d \<in> set (concat dss). is_error d"
    "concat dss = [] \<longleftrightarrow> (\<forall>x \<in> set xs. P x)"
    using Cons.IH [OF Cons.prems [OF list.set_intros(2)]] by blast
  with ds show ?case by (intro exI [of _ "ds # dss"]) auto
qed auto

lemma validate_flow_types_result:
  assumes "unique_ids program" and "\<And>x. x \<in> set (node_inputs n) \<Longrightarrow> ref_resolves program (snd x)"
  shows "\<exists>ds. validate_flow_types program (node_table program) n contract i = Some ds \<and>
    (\<forall>d \<in> set ds. is_error d) \<and> (ds = [] \<longleftrightarrow> flows_ok program n contract)"
proof -
  obtain dss where "those (map (validate_flow_type program (node_table program) n contract i) (node_inputs n))
      = Some dss" "\<forall>d \<in> set (concat dss). is_error d"
    "concat dss = [] \<longleftrightarrow> (\<forall>x \<in> set (node_inputs n). flow_ok program contract x)"
    using those_result [where f = "validate_flow_type program (node_table program) n contract i"
        and xs = "node_inputs n" and P = "flow_ok program contract",
        OF validate_flow_type_result [OF assms(1) assms(2)]] by blast
  then show ?thesis by (simp add: validate_flow_types_def flows_ok_def)
qed

lemma validate_node_types_result:
  assumes "unique_ids program" and "\<And>x. x \<in> set (node_inputs n) \<Longrightarrow> ref_resolves program (snd x)"
  shows "\<exists>ds. validate_node_types program registry (node_table program) (i, n) = Some ds \<and>
    (\<forall>d \<in> set ds. is_error d) \<and> (ds = [] \<longleftrightarrow> node_types_ok program registry n)"
proof (cases "ok_flatten (resolve_capability registry (node_capability n))")
  case None
  then show ?thesis by (auto simp: validate_node_types_def node_types_ok_def Let_def)
next
  case (Some contract)
  obtain fs where fs: "validate_flow_types program (node_table program) n contract i = Some fs"
    "\<forall>d \<in> set fs. is_error d" "fs = [] \<longleftrightarrow> flows_ok program n contract"
    using validate_flow_types_result [OF assms] by metis
  have "(\<forall>x \<in> set (node_outputs n). ok_flatten (resolve_type registry (snd x)) \<noteq> None) \<longleftrightarrow>
      (\<forall>x \<in> set (node_outputs n). \<exists>y. ok_flatten (resolve_type registry (snd x)) = Some y)" by simp
  then show ?thesis
    using fs validate_port_shape_error
    by (auto simp: validate_node_types_def node_types_ok_def Let_def Some case_prod_beta
        validate_port_shape_clean)
qed

lemma validate_input_types_clean:
  "validate_input_types program registry = [] \<longleftrightarrow>
     (\<forall>x \<in> set (ir_inputs program). ok_flatten (resolve_type registry (pin_type_ref (snd x))) \<noteq> None)"
  by (simp add: validate_input_types_def case_prod_beta)

lemma validate_input_types_error: "d \<in> set (validate_input_types program registry) \<Longrightarrow> is_error d"
  by (auto simp: validate_input_types_def)

lemma validate_types_and_capabilities_result:
  assumes "unique_ids program" and "references_ok program"
  shows "\<exists>ds. validate_types_and_capabilities program registry (node_table program) =
      Some (ds, resolved_capabilities program registry) \<and>
    (\<forall>d \<in> set ds. is_error d) \<and> (ds = [] \<longleftrightarrow> types_ok program registry)"
proof -
  let ?f = "validate_node_types program registry (node_table program)"
  have node: "\<exists>ds. ?f x = Some ds \<and> (\<forall>d \<in> set ds. is_error d) \<and>
      (ds = [] \<longleftrightarrow> node_types_ok program registry (snd x))"
    if "x \<in> set (List.enumerate 0 (ir_nodes program))" for x
  proof -
    have "snd x \<in> set (ir_nodes program)" using that by (rule in_set_enumerate_snd)
    then have "\<And>y. y \<in> set (node_inputs (snd x)) \<Longrightarrow> ref_resolves program (snd y)"
      using assms(2) by (simp add: references_ok_def)
    then show ?thesis using validate_node_types_result [OF assms(1), of "snd x" registry "fst x"] by simp
  qed
  obtain dss where dss: "those (map ?f (List.enumerate 0 (ir_nodes program))) = Some dss"
    "\<forall>d \<in> set (concat dss). is_error d"
    "concat dss = [] \<longleftrightarrow> (\<forall>n \<in> set (ir_nodes program). node_types_ok program registry n)"
    using those_result [where f = ?f and P = "\<lambda>x. node_types_ok program registry (snd x)"
        and xs = "List.enumerate 0 (ir_nodes program)", OF node]
    unfolding enumerate_ball [where P = "node_types_ok program registry"] by blast
  then show ?thesis
    using validate_input_types_error [of _ program registry]
    by (auto simp: validate_types_and_capabilities_def types_ok_def validate_input_types_clean
        simp del: set_concat concat_eq_Nil_conv)
qed

lemma resolved_capabilities_lookup:
  assumes "unique_ids program" and "n \<in> set (ir_nodes program)"
  shows "map_of (resolved_capabilities program registry) (node_id n) =
    ok_flatten (resolve_capability registry (node_capability n))"
proof -
  let ?g = "\<lambda>n m. case ok_flatten (resolve_capability registry (node_capability n)) of
                   None \<Rightarrow> m | Some contract \<Rightarrow> bm_insert (node_id n) contract m"
  have fresh: "i \<notin> node_id ` set ns \<Longrightarrow> map_of (fold ?g ns m) i = map_of m i" for ns m i
    by (induction ns arbitrary: m) (auto split: option.split)
  have "distinct (map node_id ns) \<Longrightarrow> n \<in> set ns \<Longrightarrow> map_of m (node_id n) = None \<Longrightarrow>
      node_id ` set ns \<inter> fst ` set m = {} \<Longrightarrow>
      map_of (fold ?g ns m) (node_id n) = ok_flatten (resolve_capability registry (node_capability n))" for ns m
  proof (induction ns arbitrary: m)
    case (Cons a ns)
    show ?case
    proof (cases "n = a")
      case True
      then show ?thesis using Cons.prems fresh [of "node_id n" ns] by (auto split: option.split)
    next
      case False
      then have "n \<in> set ns" using Cons.prems by simp
      then have "node_id n \<noteq> node_id a" using Cons.prems(1) by (metis distinct.simps(2) image_eqI list.set_map list.simps(9))
      then show ?thesis using Cons False by (auto split: option.split)
    qed
  qed simp
  then show ?thesis using assms by (simp add: unique_ids_def resolved_capabilities_def)
qed

end
