(* ===== verification/Aios_Effects.thy ===== *)
theory Aios_Effects
  imports Aios_References
begin

text \<open>
  Effect, authority and egress analysis (\<open>crates/aios-ir/src/semantics.rs\<close>: \<open>validate_effects\<close>,
  \<open>validate_required_artifact_read_resources\<close>, \<open>require_placement_authority\<close>, \<open>validate_egress\<close>).
  The lemmas give the effect set a node is charged with as an equation between sets, and read an
  empty diagnostic list as the node staying inside its contract's envelope.
\<close>

section \<open>Authority requests\<close>

definition check_request ::
  "capability_contract \<Rightarrow> node \<Rightarrow> nat \<Rightarrow> nat \<Rightarrow> (string \<times> string) bset \<Rightarrow> authority_request \<Rightarrow>
    diagnostic list" where
  "check_request contract n node_index request_index pairs request =
     (let pointer = node_pointer node_index (''/authority_requests/'' @ show_nat request_index)
      in push_if ((ar_action request, ar_resource request) \<in> set pairs)
           (at_node IrAuthorityDuplicateRequest
             (''authority request ('' @ quoted (ar_action request) @ '', ''
                @ quoted (ar_resource request) @ '') is duplicated'') n None pointer) @
         push_if (ar_action request \<notin> set (cap_allowed_authority_classes contract))
           (at_node IrAuthorityClassNotAllowed
             (''authority class '' @ quoted (ar_action request)
                @ '' is outside the capability contract envelope'') n None (pointer @ ''/action'')) @
         push_if (effect_for_authority_class (ar_action request) = None)
           (at_node IrEffectClassNotAllowed
             (''authority class '' @ quoted (ar_action request)
                @ '' has no closed-profile effect mapping'') n None (pointer @ ''/action'')))"

definition add_request_effect :: "authority_request \<Rightarrow> effect_class bset \<Rightarrow> effect_class bset" where
  "add_request_effect request effects =
     (case effect_for_authority_class (ar_action request) of
        None \<Rightarrow> effects
      | Some effect \<Rightarrow> bs_insert effect effects)"

text \<open>The request loop: its state is the pairs seen, the actions seen and the effects derived.\<close>

fun scan_requests ::
  "capability_contract \<Rightarrow> node \<Rightarrow> nat \<Rightarrow> (nat \<times> authority_request) list \<Rightarrow> (string \<times> string) bset \<Rightarrow>
    string bset \<Rightarrow> effect_class bset \<Rightarrow> diagnostic list \<times> string bset \<times> effect_class bset" where
  "scan_requests contract n node_index [] pairs actions effects = ([], actions, effects)"
| "scan_requests contract n node_index (r # rest) pairs actions effects =
     (case scan_requests contract n node_index rest
             (bs_insert (ar_action (snd r), ar_resource (snd r)) pairs)
             (bs_insert (ar_action (snd r)) actions) (add_request_effect (snd r) effects) of
        (later, actions', effects') \<Rightarrow>
          (check_request contract n node_index (fst r) pairs (snd r) @ later, actions', effects'))"

definition validate_required_artifact_read_resources ::
  "aios_ir \<Rightarrow> node \<Rightarrow> capability_contract \<Rightarrow> string \<Rightarrow> nat \<Rightarrow> diagnostic list" where
  "validate_required_artifact_read_resources program n contract reported_capability node_index =
     concat (map (\<lambda>(port, r).
       (case r of
          NodeRef _ _ \<Rightarrow> []
        | InputRef name \<Rightarrow>
            (case map_of (cap_inputs contract) port of
               None \<Rightarrow> []
             | Some port_contract \<Rightarrow>
                 (case map_of (ir_inputs program) name of
                    None \<Rightarrow> []
                  | Some program_input \<Rightarrow>
                      if \<not> starts_with ''artifact.'' (port_type_ref port_contract)
                         \<or> \<not> starts_with ''artifact.'' (pin_type_ref program_input)
                      then []
                      else
                        push_if (\<not> list_ex (\<lambda>q. ar_action q = ''artifact.read''
                                   \<and> ar_resource q = ''input:'' @ name) (node_authority_requests n))
                          (contextual IrRequiredAuthorityMissing
                            (''required artifact.read authority does not cover accessed resource ''
                               @ quoted (''input:'' @ name))
                            (Some (node_id n)) (Some port) (Some reported_capability)
                            (Some (node_pointer node_index ''/authority_requests'')))))))
       (node_inputs n))"

definition validate_required_authority ::
  "aios_ir \<Rightarrow> node \<Rightarrow> capability_contract \<Rightarrow> nat \<Rightarrow> string bset \<Rightarrow> diagnostic list" where
  "validate_required_authority program n contract node_index actions =
     concat (map (\<lambda>required.
       if required \<notin> set actions
       then [at_node IrRequiredAuthorityMissing
               (''required authority class '' @ quoted required @ '' was not requested'') n None
               (node_pointer node_index ''/authority_requests'')]
       else if required = ''artifact.read''
       then validate_required_artifact_read_resources program n contract (node_capability n) node_index
       else [])
       (cap_required_authority_classes contract))"

definition require_placement_authority ::
  "node \<Rightarrow> nat \<Rightarrow> string \<Rightarrow> string bset \<Rightarrow> diagnostic list" where
  "require_placement_authority n node_index action actions =
     push_if (action \<notin> set actions)
       (at_node IrRequiredAuthorityMissing
         (''non-local-only placement requires authority class '' @ quoted action) n None
         (node_pointer node_index ''/authority_requests''))"

definition non_local_only :: "node \<Rightarrow> bool" where
  "non_local_only n =
     (case node_constraints n of
        None \<Rightarrow> False
      | Some c \<Rightarrow> con_locality c \<noteq> [] \<and> list_all (\<lambda>l. l \<noteq> Local) (con_locality c))"


section \<open>Egress\<close>

definition data_egress_resources :: "node \<Rightarrow> string bset" where
  "data_egress_resources n =
     bs_of_list (map ar_resource
       (filter (\<lambda>q. ar_action q = ''data.egress'') (node_authority_requests n)))"

definition validate_egress ::
  "node \<Rightarrow> capability_contract \<Rightarrow> effect_class bset \<Rightarrow> nat \<Rightarrow> diagnostic list" where
  "validate_egress n contract effects node_index =
     push_if (eg_mode (node_egress n) \<notin> set (cap_allowed_egress_modes contract))
       (at_node IrEgressNotAllowed
         (''egress mode '' @ debug_egress (eg_mode (node_egress n))
            @ '' is outside the capability contract envelope'') n None
         (node_pointer node_index ''/egress/mode'')) @
     (case eg_mode (node_egress n) of
        Deny \<Rightarrow>
          push_if (eg_destination_classes (node_egress n) \<noteq> []
                   \<or> data_egress_resources n \<noteq> [] \<or> DataEgress \<in> set effects)
            (at_node IrEgressContradiction
              ''deny egress cannot name destinations or request data.egress authority'' n None
              (node_pointer node_index ''/egress''))
      | Policy \<Rightarrow>
          (let expected = bs_of_list (map (\<lambda>d. ''destination:'' @ d) (eg_destination_classes (node_egress n)))
           in push_if (expected = []
                       \<or> list_ex (\<lambda>r. r \<notin> set (data_egress_resources n)) expected
                       \<or> list_ex (\<lambda>r. r \<notin> set expected) (data_egress_resources n))
                (at_node IrEgressAuthorityMismatch
                  ''policy egress destinations must exactly match data.egress authority selectors''
                  n None (node_pointer node_index ''/egress''))))"


section \<open>Effects of a node and of the program\<close>

definition validate_node_effects ::
  "aios_ir \<Rightarrow> capability_table \<Rightarrow> nat \<times> node \<Rightarrow> (diagnostic list \<times> effect_class bset) option" where
  "validate_node_effects program capabilities entry =
     (case entry of (node_index, n) \<Rightarrow>
       (case map_of capabilities (node_id n) of
          None \<Rightarrow> None
        | Some contract \<Rightarrow>
            (let effects0 = bs_of_list (filter (\<lambda>e. e \<noteq> Pure) (cap_required_effect_classes contract));
                 (requests, actions, effects1) =
                   scan_requests contract n node_index (List.enumerate 0 (node_authority_requests n))
                     [] [] effects0;
                 required = validate_required_authority program n contract node_index actions;
                 network = (if non_local_only n
                            then require_placement_authority n node_index ''network.connect'' actions
                            else []);
                 effects2 = (if non_local_only n then bs_insert Network effects1 else effects1);
                 egress_required = (if non_local_only n \<and> node_inputs n \<noteq> []
                            then require_placement_authority n node_index ''data.egress'' actions
                            else []);
                 effects3 = (if non_local_only n \<and> node_inputs n \<noteq> []
                             then bs_insert DataEgress effects2 else effects2);
                 effects = (if effects3 = [] then bs_insert Pure effects3 else effects3);
                 envelope = concat (map (\<lambda>effect.
                   push_if (effect \<notin> set (cap_allowed_effect_classes contract))
                     (at_node IrEffectClassNotAllowed
                       (''derived effect '' @ debug_effect effect
                          @ '' is outside the capability contract envelope'') n None
                       (node_pointer node_index ''/authority_requests''))) effects);
                 cache = push_if (node_cache n \<noteq> Never \<and> node_execution_class n \<noteq> Deterministic)
                   (at_node IrCacheExecutionClassMismatch
                     ''non-deterministic execution cannot use deterministic or content-addressed caching''
                     n None (node_pointer node_index ''/cache''))
             in Some (requests @ required @ network @ egress_required @ envelope @
                        validate_egress n contract effects node_index @ cache,
                      effects))))"

type_synonym effect_table = "(string, effect_class bset) bmap"

definition validate_effects ::
  "aios_ir \<Rightarrow> capability_table \<Rightarrow> (diagnostic list \<times> effect_table) option" where
  "validate_effects program capabilities =
     map_option (\<lambda>results.
       (concat (map fst results),
        fold (\<lambda>(n, _, effects). bm_insert (node_id n) effects) (zip (ir_nodes program) results) []))
     (those (map (validate_node_effects program capabilities) (List.enumerate 0 (ir_nodes program))))"



section \<open>What the request loop computes\<close>

lemma set_add_request_effect:
  "set (add_request_effect q effects) =
     set effects \<union> {e. effect_for_authority_class (ar_action q) = Some e}"
  by (auto simp: add_request_effect_def split: option.split)

lemma bs_wf_add_request_effect: "bs_wf effects \<Longrightarrow> bs_wf (add_request_effect q effects)"
  by (auto simp: add_request_effect_def split: option.split)

lemma scan_requests_actions:
  "set (fst (snd (scan_requests contract n i rs pairs actions effects))) =
     set actions \<union> ar_action ` snd ` set rs"
  by (induction rs arbitrary: pairs actions effects) (auto simp: case_prod_beta)

lemma scan_requests_effects:
  "set (snd (snd (scan_requests contract n i rs pairs actions effects))) =
     set effects \<union> {e. \<exists>q \<in> snd ` set rs. effect_for_authority_class (ar_action q) = Some e}"
proof (induction rs arbitrary: pairs actions effects)
  case (Cons r rs)
  then show ?case by (simp add: case_prod_beta set_add_request_effect) blast
qed simp

lemma scan_requests_wf:
  "bs_wf effects \<Longrightarrow> bs_wf (snd (snd (scan_requests contract n i rs pairs actions effects)))"
  by (induction rs arbitrary: pairs actions effects)
    (simp_all add: case_prod_beta bs_wf_add_request_effect)

definition request_pair :: "authority_request \<Rightarrow> string \<times> string" where
  "request_pair q = (ar_action q, ar_resource q)"

definition request_ok :: "capability_contract \<Rightarrow> authority_request \<Rightarrow> bool" where
  "request_ok contract q \<longleftrightarrow>
     ar_action q \<in> set (cap_allowed_authority_classes contract) \<and>
     (\<exists>e. effect_for_authority_class (ar_action q) = Some e)"

lemma check_request_clean:
  "check_request contract n i j pairs q = [] \<longleftrightarrow> request_pair q \<notin> set pairs \<and> request_ok contract q"
  by (simp add: check_request_def Let_def request_pair_def request_ok_def)

lemma check_request_error: "d \<in> set (check_request contract n i j pairs q) \<Longrightarrow> is_error d"
  by (auto simp: check_request_def Let_def)

lemma scan_requests_clean:
  "fst (scan_requests contract n i rs pairs actions effects) = [] \<longleftrightarrow>
     distinct (map (request_pair \<circ> snd) rs) \<and> (request_pair \<circ> snd) ` set rs \<inter> set pairs = {} \<and>
     (\<forall>q \<in> set rs. request_ok contract (snd q))"
proof (induction rs arbitrary: pairs actions effects)
  case (Cons r rs)
  then show ?case
    by (auto simp: case_prod_beta check_request_clean simp flip: request_pair_def)
qed simp

lemma scan_requests_error:
  "d \<in> set (fst (scan_requests contract n i rs pairs actions effects)) \<Longrightarrow> is_error d"
  by (induction rs arbitrary: pairs actions effects)
    (auto simp: case_prod_beta dest: check_request_error)



section \<open>What clean effects mean\<close>

definition requested_actions :: "node \<Rightarrow> string set" where
  "requested_actions n = ar_action ` set (node_authority_requests n)"

text \<open>
  The effects a node is charged with: the protected effects its contract requires, those of the
  authority it requests, those its placement forces, and \<open>PURE\<close> when there is none.
\<close>

definition protected_effects :: "node \<Rightarrow> capability_contract \<Rightarrow> effect_class set" where
  "protected_effects n contract =
     (set (cap_required_effect_classes contract) - {Pure}) \<union>
     {e. \<exists>a \<in> requested_actions n. effect_for_authority_class a = Some e} \<union>
     (if non_local_only n then insert Network (if node_inputs n \<noteq> [] then {DataEgress} else {}) else {})"

definition charged_effects :: "node \<Rightarrow> capability_contract \<Rightarrow> effect_class set" where
  "charged_effects n contract =
     (if protected_effects n contract = {} then {Pure} else protected_effects n contract)"

definition artifact_reads_covered :: "aios_ir \<Rightarrow> node \<Rightarrow> capability_contract \<Rightarrow> bool" where
  "artifact_reads_covered program n contract \<longleftrightarrow>
     (\<forall>port name port_contract input.
        (port, InputRef name) \<in> set (node_inputs n) \<longrightarrow>
        map_of (cap_inputs contract) port = Some port_contract \<longrightarrow>
        map_of (ir_inputs program) name = Some input \<longrightarrow>
        starts_with ''artifact.'' (port_type_ref port_contract) \<longrightarrow>
        starts_with ''artifact.'' (pin_type_ref input) \<longrightarrow>
        (''artifact.read'', ''input:'' @ name) \<in> request_pair ` set (node_authority_requests n))"

definition egress_ok :: "node \<Rightarrow> capability_contract \<Rightarrow> bool" where
  "egress_ok n contract \<longleftrightarrow>
     eg_mode (node_egress n) \<in> set (cap_allowed_egress_modes contract) \<and>
     (case eg_mode (node_egress n) of
        Deny \<Rightarrow>
          eg_destination_classes (node_egress n) = [] \<and> ''data.egress'' \<notin> requested_actions n \<and>
          DataEgress \<notin> charged_effects n contract
      | Policy \<Rightarrow>
          eg_destination_classes (node_egress n) \<noteq> [] \<and>
          (\<lambda>d. ''destination:'' @ d) ` set (eg_destination_classes (node_egress n)) =
            {r. (''data.egress'', r) \<in> request_pair ` set (node_authority_requests n)})"

definition node_effects_ok :: "aios_ir \<Rightarrow> node \<Rightarrow> capability_contract \<Rightarrow> bool" where
  "node_effects_ok program n contract \<longleftrightarrow>
     distinct (map request_pair (node_authority_requests n)) \<and>
     (\<forall>q \<in> set (node_authority_requests n). request_ok contract q) \<and>
     set (cap_required_authority_classes contract) \<subseteq> requested_actions n \<and>
     (''artifact.read'' \<in> set (cap_required_authority_classes contract) \<longrightarrow>
        artifact_reads_covered program n contract) \<and>
     (non_local_only n \<longrightarrow> ''network.connect'' \<in> requested_actions n \<and>
        (node_inputs n \<noteq> [] \<longrightarrow> ''data.egress'' \<in> requested_actions n)) \<and>
     charged_effects n contract \<subseteq> set (cap_allowed_effect_classes contract) \<and>
     egress_ok n contract \<and>
     (node_cache n = Never \<or> node_execution_class n = Deterministic)"

lemma artifact_reads_clean:
  "validate_required_artifact_read_resources program n contract reported i = [] \<longleftrightarrow>
     artifact_reads_covered program n contract"
proof -
  have pair: "list_ex (\<lambda>q. ar_action q = a \<and> ar_resource q = r) qs \<longleftrightarrow> (a, r) \<in> request_pair ` set qs"
    for a r qs by (auto simp: list_ex_iff request_pair_def image_iff)
  show ?thesis
    unfolding validate_required_artifact_read_resources_def artifact_reads_covered_def pair
    by (auto split: value_ref.splits option.splits)
qed

lemma artifact_reads_error:
  "d \<in> set (validate_required_artifact_read_resources program n contract reported i) \<Longrightarrow> is_error d"
  by (auto simp: validate_required_artifact_read_resources_def
      split: value_ref.splits option.splits if_splits)

lemma validate_required_authority_clean:
  "validate_required_authority program n contract i actions = [] \<longleftrightarrow>
     set (cap_required_authority_classes contract) \<subseteq> set actions \<and>
     (''artifact.read'' \<in> set (cap_required_authority_classes contract) \<longrightarrow>
        artifact_reads_covered program n contract)"
proof -
  have "validate_required_authority program n contract i actions = [] \<longleftrightarrow>
      (\<forall>a \<in> set (cap_required_authority_classes contract). a \<in> set actions \<and>
         (a = ''artifact.read'' \<longrightarrow> artifact_reads_covered program n contract))"
    unfolding validate_required_authority_def concat_eq_Nil_conv set_map ball_simps
    by (intro ball_cong refl) (simp only: artifact_reads_clean split: if_split, simp)
  then show ?thesis by blast
qed

lemma validate_required_authority_error:
  "d \<in> set (validate_required_authority program n contract i actions) \<Longrightarrow> is_error d"
  by (auto simp: validate_required_authority_def dest: artifact_reads_error split: if_splits)

lemma set_data_egress_resources:
  "set (data_egress_resources n) = {r. (''data.egress'', r) \<in> request_pair ` set (node_authority_requests n)}"
  by (force simp: data_egress_resources_def request_pair_def)

lemma validate_egress_clean:
  assumes "set effects = charged_effects n contract"
  shows "validate_egress n contract effects i = [] \<longleftrightarrow> egress_ok n contract"
proof -
  have none: "data_egress_resources n = [] \<longleftrightarrow> ''data.egress'' \<notin> requested_actions n"
  proof -
    have "data_egress_resources n = [] \<longleftrightarrow> set (data_egress_resources n) = {}" by simp
    also have "\<dots> \<longleftrightarrow> ''data.egress'' \<notin> requested_actions n"
      unfolding set_data_egress_resources by (auto simp: requested_actions_def request_pair_def image_iff)
    finally show ?thesis .
  qed
  have empty: "bs_of_list xs = [] \<longleftrightarrow> xs = []" for xs :: "string list"
    using set_bs_of_list [of xs] by (metis list.set(1) set_empty)
  show ?thesis
    by (cases "eg_mode (node_egress n)")
      (auto simp: validate_egress_def egress_ok_def none empty assms list_ex_iff Let_def
        simp flip: set_data_egress_resources)
qed

lemma validate_egress_error: "d \<in> set (validate_egress n contract effects i) \<Longrightarrow> is_error d"
  by (auto simp: validate_egress_def Let_def split: egress_mode.splits)


lemma require_placement_authority_clean:
  "require_placement_authority n i action actions = [] \<longleftrightarrow> action \<in> set actions"
  by (simp add: require_placement_authority_def)

lemma require_placement_authority_error:
  "d \<in> set (require_placement_authority n i action actions) \<Longrightarrow> is_error d"
  by (simp add: require_placement_authority_def)

lemma snd_set_enumerate: "snd ` set (List.enumerate k xs) = set xs"
  by (metis list.set_map map_snd_enumerate)

lemma enumerate_map_snd: "map (f \<circ> snd) (List.enumerate k xs) = map f xs"
  by (metis map_map map_snd_enumerate)

text \<open>The effects after placement and the \<open>PURE\<close> default.\<close>

lemma charged_effects_set:
  assumes "set effects1 = (set (cap_required_effect_classes contract) - {Pure}) \<union>
      {e. \<exists>a \<in> requested_actions n. effect_for_authority_class a = Some e}"
  defines "effects2 \<equiv> if non_local_only n then bs_insert Network effects1 else effects1"
  defines "effects3 \<equiv> if non_local_only n \<and> node_inputs n \<noteq> [] then bs_insert DataEgress effects2 else effects2"
  shows "set (if effects3 = [] then bs_insert Pure effects3 else effects3) = charged_effects n contract"
proof -
  have "set effects3 = protected_effects n contract"
    using assms(1) by (auto simp: effects2_def effects3_def protected_effects_def)
  moreover have "effects3 = [] \<longleftrightarrow> set effects3 = {}" by simp
  ultimately show ?thesis
    by (cases "effects3 = []") (simp_all add: charged_effects_def)
qed

lemma validate_node_effects_result:
  assumes "map_of capabilities (node_id n) = Some contract"
  shows "\<exists>ds effects. validate_node_effects program capabilities (i, n) = Some (ds, effects) \<and>
    bs_wf effects \<and> set effects = charged_effects n contract \<and>
    (\<forall>d \<in> set ds. is_error d) \<and> (ds = [] \<longleftrightarrow> node_effects_ok program n contract)"
proof -
  let ?start = "bs_of_list (filter (\<lambda>e. e \<noteq> Pure) (cap_required_effect_classes contract))"
  let ?rs = "List.enumerate 0 (node_authority_requests n)"
  obtain requests actions effects1 where
    scan: "scan_requests contract n i ?rs [] [] ?start = (requests, actions, effects1)"
    by (cases "scan_requests contract n i ?rs [] [] ?start")
  let ?net = "if non_local_only n then bs_insert Network effects1 else effects1"
  let ?placed = "if non_local_only n \<and> node_inputs n \<noteq> [] then bs_insert DataEgress ?net else ?net"
  let ?final = "if ?placed = [] then bs_insert Pure ?placed else ?placed"
  have actions: "set actions = requested_actions n"
    using scan_requests_actions [of contract n i ?rs "[]" "[]" ?start]
    by (simp add: scan requested_actions_def snd_set_enumerate)
  have "set effects1 = (set (cap_required_effect_classes contract) - {Pure}) \<union>
      {e. \<exists>a \<in> requested_actions n. effect_for_authority_class a = Some e}"
    using scan_requests_effects [of contract n i ?rs "[]" "[]" ?start]
    by (auto simp: scan requested_actions_def snd_set_enumerate)
  then have effects: "set ?final = charged_effects n contract" by (rule charged_effects_set)
  have "bs_wf effects1" using scan_requests_wf [of ?start contract n i ?rs "[]" "[]"] by (simp add: scan)
  then have wf: "bs_wf ?final" by (simp add: bs_wf_insert bs_wf_def [of "[Pure]"])
  have requests: "requests = [] \<longleftrightarrow> distinct (map request_pair (node_authority_requests n)) \<and>
      (\<forall>q \<in> set (node_authority_requests n). request_ok contract q)"
    using scan_requests_clean [of contract n i ?rs "[]" "[]" ?start]
    by (simp add: scan enumerate_map_snd enumerate_ball)
  define required where "required = validate_required_authority program n contract i actions"
  define network where "network = (if non_local_only n
      then require_placement_authority n i ''network.connect'' actions else [])"
  define egress where "egress = (if non_local_only n \<and> node_inputs n \<noteq> []
      then require_placement_authority n i ''data.egress'' actions else [])"
  define envelope where "envelope = concat (map (\<lambda>effect.
      push_if (effect \<notin> set (cap_allowed_effect_classes contract))
        (at_node IrEffectClassNotAllowed (''derived effect '' @ debug_effect effect
           @ '' is outside the capability contract envelope'') n None
           (node_pointer i ''/authority_requests''))) ?final)"
  define cache where "cache = push_if (node_cache n \<noteq> Never \<and> node_execution_class n \<noteq> Deterministic)
      (at_node IrCacheExecutionClassMismatch
        ''non-deterministic execution cannot use deterministic or content-addressed caching''
        n None (node_pointer i ''/cache''))"
  have run: "validate_node_effects program capabilities (i, n) =
      Some (requests @ required @ network @ egress @ envelope @ validate_egress n contract ?final i @ cache, ?final)"
    unfolding validate_node_effects_def required_def network_def egress_def envelope_def cache_def
    by (simp only: prod.case assms option.case scan Let_def)
  have "\<forall>d \<in> set (requests @ required @ network @ egress @ envelope @ validate_egress n contract ?final i @ cache). is_error d"
    using scan_requests_error [of _ contract n i ?rs "[]" "[]" ?start] validate_required_authority_error
      require_placement_authority_error validate_egress_error
    unfolding required_def network_def egress_def envelope_def cache_def scan
    by (auto split: if_splits simp del: at_node_def)
  moreover have "requests @ required @ network @ egress @ envelope @ validate_egress n contract ?final i @ cache = []
      \<longleftrightarrow> node_effects_ok program n contract"
  proof -
    have "network = [] \<and> egress = [] \<and> X \<longleftrightarrow> (non_local_only n \<longrightarrow>
        ''network.connect'' \<in> requested_actions n \<and>
        (node_inputs n \<noteq> [] \<longrightarrow> ''data.egress'' \<in> requested_actions n)) \<and> X" for X
      by (auto simp: network_def egress_def require_placement_authority_clean actions)
    moreover have "envelope = [] \<longleftrightarrow> charged_effects n contract \<subseteq> set (cap_allowed_effect_classes contract)"
      unfolding effects [symmetric] envelope_def concat_eq_Nil_conv set_map ball_simps by auto
    moreover have "required = [] \<longleftrightarrow> set (cap_required_authority_classes contract) \<subseteq> requested_actions n \<and>
        (''artifact.read'' \<in> set (cap_required_authority_classes contract) \<longrightarrow>
           artifact_reads_covered program n contract)"
      unfolding required_def validate_required_authority_clean actions ..
    moreover have "cache = [] \<longleftrightarrow> node_cache n = Never \<or> node_execution_class n = Deterministic"
      by (auto simp: cache_def)
    ultimately show ?thesis
      unfolding append_is_Nil_conv node_effects_ok_def requests validate_egress_clean [OF effects]
      by (simp only: conj_assoc)
  qed
  ultimately show ?thesis using run wf effects by blast
qed


lemma fold_zip_insert_lookup:
  assumes "distinct (map node_id ns)" and "length ns = length rs" and "k < length ns"
    and "node_id ` set ns \<inter> fst ` set m = {}"
  shows "map_of (fold (\<lambda>(n, _, e). bm_insert (node_id n) e) (zip ns rs) m) (node_id (ns ! k)) =
    Some (snd (rs ! k))"
proof -
  let ?f = "\<lambda>(n, _, e). bm_insert (node_id n) e"
  have fresh: "i \<notin> node_id ` set ns \<Longrightarrow> map_of (fold ?f (zip ns rs) m) i = map_of m i" for ns rs m i
  proof (induction ns arbitrary: rs m)
    case (Cons n ns)
    then show ?case by (cases rs) auto
  qed simp
  show ?thesis using assms
  proof (induction ns arbitrary: rs m k)
    case (Cons n ns)
    then obtain d e rs' where rs: "rs = (d, e) # rs'" by (cases rs) auto
    show ?case
    proof (cases k)
      case 0
      then show ?thesis using Cons.prems fresh [of "node_id n" ns rs'] by (simp add: rs)
    next
      case (Suc j)
      then show ?thesis
        using Cons.IH [of rs' j "bm_insert (node_id n) e m"] Cons.prems by (simp add: rs)
    qed
  qed simp
qed

lemma fold_zip_insert_keys:
  "length ns = length rs \<Longrightarrow>
     fst ` set (fold (\<lambda>(n, _, e). bm_insert (node_id n) e) (zip ns rs) m) = node_id ` set ns \<union> fst ` set m"
proof (induction ns arbitrary: rs m)
  case (Cons n ns)
  then show ?case by (cases rs) (auto simp: case_prod_beta)
qed simp

lemma fold_zip_insert_wf:
  "bm_wf m \<Longrightarrow> bm_wf (fold (\<lambda>(n, _, e). bm_insert (node_id n) e) (zip ns rs) m)"
proof (induction ns arbitrary: rs m)
  case (Cons n ns)
  then show ?case by (cases rs) (auto simp: case_prod_beta bm_wf_insert)
qed simp

text \<open>The effect table holds, for every node, the set the specification charges it with.\<close>

definition effect_table_ok :: "aios_ir \<Rightarrow> capability_table \<Rightarrow> effect_table \<Rightarrow> bool" where
  "effect_table_ok program capabilities table \<longleftrightarrow>
     bm_wf table \<and> fst ` set table = node_ids program \<and>
     (\<forall>n \<in> set (ir_nodes program). \<exists>contract effects.
        map_of capabilities (node_id n) = Some contract \<and> map_of table (node_id n) = Some effects \<and>
        bs_wf effects \<and> set effects = charged_effects n contract)"

lemma those_all2: "those (map f xs) = Some ys \<Longrightarrow> list_all2 (\<lambda>x y. f x = Some y) xs ys"
proof (induction xs arbitrary: ys)
  case (Cons x xs)
  then show ?case by (auto split: option.splits)
qed auto

lemma those_total:
  "(\<And>x. x \<in> set xs \<Longrightarrow> \<exists>y. f x = Some y) \<Longrightarrow> \<exists>ys. those (map f xs) = Some ys"
proof (induction xs)
  case (Cons x xs)
  then obtain y ys where "f x = Some y" "those (map f xs) = Some ys" by (meson list.set_intros)
  then show ?case by simp
qed simp

lemma validate_effects_result:
  assumes ids: "unique_ids program"
    and caps: "\<And>n. n \<in> set (ir_nodes program) \<Longrightarrow> \<exists>contract. map_of capabilities (node_id n) = Some contract"
  shows "\<exists>ds table. validate_effects program capabilities = Some (ds, table) \<and>
    (\<forall>d \<in> set ds. is_error d) \<and> effect_table_ok program capabilities table \<and>
    (ds = [] \<longleftrightarrow> (\<forall>n \<in> set (ir_nodes program). \<exists>contract.
       map_of capabilities (node_id n) = Some contract \<and> node_effects_ok program n contract))"
proof -
  let ?ns = "ir_nodes program" and ?f = "validate_node_effects program capabilities"
  have node: "\<exists>contract ds effects. map_of capabilities (node_id (snd x)) = Some contract \<and>
      ?f x = Some (ds, effects) \<and> bs_wf effects \<and> set effects = charged_effects (snd x) contract \<and>
      (\<forall>d \<in> set ds. is_error d) \<and> (ds = [] \<longleftrightarrow> node_effects_ok program (snd x) contract)"
    if "x \<in> set (List.enumerate 0 ?ns)" for x
    using caps [OF in_set_enumerate_snd [OF that]] validate_node_effects_result
    by (cases x) (fastforce)
  obtain rs where rs: "those (map ?f (List.enumerate 0 ?ns)) = Some rs"
    using those_total [of "List.enumerate 0 ?ns" ?f] node by blast
  then have all2: "list_all2 (\<lambda>x y. ?f x = Some y) (List.enumerate 0 ?ns) rs" by (rule those_all2)
  then have len: "length ?ns = length rs" by (auto dest: list_all2_lengthD)
  have at: "?f (k, ?ns ! k) = Some (rs ! k)" "(k, ?ns ! k) \<in> set (List.enumerate 0 ?ns)"
    if "k < length ?ns" for k
    using that list_all2_nthD [OF all2, of k] len nth_mem [of k "List.enumerate 0 ?ns"]
    by (auto simp: nth_enumerate_eq)
  let ?table = "fold (\<lambda>(n, _, e). bm_insert (node_id n) e) (zip ?ns rs) []"
  have nodes: "\<exists>contract. map_of capabilities (node_id (?ns ! k)) = Some contract \<and>
      bs_wf (snd (rs ! k)) \<and> set (snd (rs ! k)) = charged_effects (?ns ! k) contract \<and>
      (\<forall>d \<in> set (fst (rs ! k)). is_error d) \<and>
      (fst (rs ! k) = [] \<longleftrightarrow> node_effects_ok program (?ns ! k) contract)" if "k < length ?ns" for k
  proof -
    note k = that
    obtain contract ds effects where "map_of capabilities (node_id (?ns ! k)) = Some contract"
      "?f (k, ?ns ! k) = Some (ds, effects)" "bs_wf effects" "set effects = charged_effects (?ns ! k) contract"
      "\<forall>d \<in> set ds. is_error d" "ds = [] \<longleftrightarrow> node_effects_ok program (?ns ! k) contract"
      using node [OF at(2) [OF k]] by auto
    moreover from this have "rs ! k = (ds, effects)" using at(1) [OF k] by simp
    ultimately show ?thesis by simp
  qed
  have "\<exists>contract effects. map_of capabilities (node_id n) = Some contract \<and>
      map_of ?table (node_id n) = Some effects \<and> bs_wf effects \<and> set effects = charged_effects n contract"
    if "n \<in> set ?ns" for n
  proof -
    from that obtain k where k: "k < length ?ns" "n = ?ns ! k" by (auto simp: in_set_conv_nth)
    have "map_of ?table (node_id n) = Some (snd (rs ! k))"
      using fold_zip_insert_lookup [of ?ns rs k "[]"] ids len k by (simp add: unique_ids_def)
    then show ?thesis using nodes [OF k(1)] k(2) by blast
  qed
  then have "effect_table_ok program capabilities ?table"
    using fold_zip_insert_keys [OF len, of "[]"] fold_zip_insert_wf [of "[]" ?ns rs]
    by (simp add: effect_table_ok_def node_ids_def)
  moreover have "\<forall>d \<in> set (concat (map fst rs)). is_error d"
  proof
    fix d assume "d \<in> set (concat (map fst rs))"
    then obtain r where "r \<in> set rs" "d \<in> set (fst r)" by auto
    then obtain k where "k < length ?ns" "d \<in> set (fst (rs ! k))" using len by (auto simp: in_set_conv_nth)
    then show "is_error d" using nodes by blast
  qed
  moreover have "concat (map fst rs) = [] \<longleftrightarrow> (\<forall>n \<in> set ?ns. \<exists>contract.
       map_of capabilities (node_id n) = Some contract \<and> node_effects_ok program n contract)"
  proof -
    have "concat (map fst rs) = [] \<longleftrightarrow> (\<forall>k < length ?ns. fst (rs ! k) = [])"
      using len by (auto simp: all_set_conv_all_nth)
    also have "\<dots> \<longleftrightarrow> (\<forall>k < length ?ns. \<exists>contract.
        map_of capabilities (node_id (?ns ! k)) = Some contract \<and> node_effects_ok program (?ns ! k) contract)"
      using nodes by (metis option.inject)
    finally show ?thesis by (simp add: all_set_conv_all_nth)
  qed
  ultimately show ?thesis by (auto simp: validate_effects_def rs)
qed



section \<open>Effects and authority\<close>

text \<open>
  Under a contract whose envelope is consistent, a node that passes the checks is charged with a
  protected effect exactly when it requests the authority class that stands for it.
\<close>

lemma charged_effects_requested:
  assumes ok: "node_effects_ok program n contract" and env: "envelope_ok contract"
    and e: "e \<noteq> Pure" "e \<noteq> LegacyOpaque"
  shows "e \<in> charged_effects n contract \<longleftrightarrow>
    (\<exists>a \<in> requested_actions n. effect_for_authority_class a = Some e)"
proof -
  have required: "\<exists>a \<in> requested_actions n. effect_for_authority_class a = Some e"
    if "e \<in> set (cap_required_effect_classes contract)"
  proof -
    have "Some e \<in> effect_for_authority_class ` set (cap_required_authority_classes contract)"
      using env that e unfolding envelope_ok_def by blast
    then show ?thesis using ok unfolding node_effects_ok_def by (metis imageE subsetD)
  qed
  have classes: "effect_for_authority_class ''network.connect'' = Some Network"
    "effect_for_authority_class ''data.egress'' = Some DataEgress"
    by code_simp+
  have placed: "\<exists>a \<in> requested_actions n. effect_for_authority_class a = Some e"
    if "non_local_only n" "e = Network \<or> (node_inputs n \<noteq> [] \<and> e = DataEgress)"
    using ok that classes unfolding node_effects_ok_def by metis
  show ?thesis
    using e required placed unfolding charged_effects_def protected_effects_def
    by (auto split: if_splits)
qed

end
