(* ===== verification/Aios_Fallbacks.thy ===== *)
theory Aios_Fallbacks
  imports Aios_Effects
begin

text \<open>
  Fallback analysis (\<open>crates/aios-ir/src/semantics.rs\<close>: \<open>validate_fallbacks\<close>,
  \<open>build_fallback_relation\<close>, \<open>fallback_path_exists\<close>, \<open>fallback_ports_compatible\<close>) and the
  unused-node warning (\<open>warn_unused_pure_nodes\<close>). Both worklist loops are shown to end and, through
  the \<open>graph_search\<close> interface, to decide reachability in the relation they walk.
\<close>

section \<open>Worklist termination\<close>

definition keys_left :: "(string, string bset) bmap \<Rightarrow> string bset \<Rightarrow> nat" where
  "keys_left m visited = card (fst ` set m - set visited)"

lemma keys_left_visit:
  assumes "c \<notin> set visited"
  shows "keys_left m (bs_insert c visited) < keys_left m visited
    \<or> keys_left m (bs_insert c visited) = keys_left m visited \<and> consumers_of m c = []"
proof (cases "c \<in> fst ` set m")
  case True
  then have "fst ` set m - set (bs_insert c visited) \<subset> fst ` set m - set visited" using assms by auto
  then show ?thesis unfolding keys_left_def by (intro disjI1 psubset_card_mono) auto
next
  case False
  then have "fst ` set m - set (bs_insert c visited) = fst ` set m - set visited" by auto
  moreover have "consumers_of m c = []" using False by (simp add: consumers_of_def map_of_eq_None_iff [THEN iffD2])
  ultimately show ?thesis by (simp add: keys_left_def)
qed

lemma finite_consumers: "finite {x. consumers_of m x \<noteq> []}"
proof (rule finite_subset)
  show "{x. consumers_of m x \<noteq> []} \<subseteq> dom (map_of m)"
    by (auto simp: consumers_of_def split: option.splits)
qed (rule finite_dom_map_of)


section \<open>The fallback relation\<close>

fun add_all :: "string list \<Rightarrow> string bset \<Rightarrow> string bset" where
  "add_all [] s = s"
| "add_all (x # xs) s = add_all xs (bs_insert x s)"

definition add_fallbacks :: "node \<Rightarrow> (string, string bset) bmap \<Rightarrow> (string, string bset) bmap" where
  "add_fallbacks n relation =
     (case node_failure n of
        Fallback fallback_capabilities \<Rightarrow>
          bm_insert (node_capability n)
            (add_all fallback_capabilities (consumers_of relation (node_capability n))) relation
      | Stop \<Rightarrow> relation
      | Retry _ \<Rightarrow> relation
      | Replan _ \<Rightarrow> relation)"

definition build_fallback_relation :: "aios_ir \<Rightarrow> (string, string bset) bmap" where
  "build_fallback_relation program = fold add_fallbacks (ir_nodes program) []"

function fallback_search ::
  "(string, string bset) bmap \<Rightarrow> string \<Rightarrow> string list \<Rightarrow> string bset \<Rightarrow> bool" where
  "fallback_search relation target [] visited = False"
| "fallback_search relation target (c # pending) visited =
     (if c = target then True
      else if c \<in> set visited then fallback_search relation target pending visited
      else fallback_search relation target (pending @ consumers_of relation c) (bs_insert c visited))"
  by pat_completeness auto
termination
proof (relation "inv_image (less_than <*lex*> less_than)
    (\<lambda>(relation, _, pending, visited). (keys_left relation visited, length pending))")
  fix relation :: "(string, string bset) bmap" and target c :: string and pending visited
  assume "c \<notin> set visited"
  from keys_left_visit [OF this, of relation]
  show "((relation, target, pending @ consumers_of relation c, bs_insert c visited),
      relation, target, c # pending, visited) \<in> inv_image (less_than <*lex*> less_than)
      (\<lambda>(relation, _, pending, visited). (keys_left relation visited, length pending))"
    by auto
qed auto

definition fallback_path_exists :: "(string, string bset) bmap \<Rightarrow> string \<Rightarrow> string \<Rightarrow> bool" where
  "fallback_path_exists relation start target = fallback_search relation target [start] []"

interpretation fb: graph_search "fallback_search relation target" "consumers_of relation" "\<lambda>c. c = target"
  for relation target
proof
  fix x :: string and vs p
  assume "x \<notin> set vs" "x \<noteq> target"
  then show "\<exists>vs'. set vs' = insert x (set vs) \<and>
      fallback_search relation target (x # p) vs = fallback_search relation target (p @ consumers_of relation x) vs'"
    by (intro exI [of _ "bs_insert x vs"]) simp
qed (simp_all add: finite_consumers)


section \<open>Port compatibility\<close>

definition bound_input_matches ::
  "aios_ir \<Rightarrow> capability_contract \<Rightarrow> capability_contract \<Rightarrow> string \<times> value_ref \<Rightarrow> bool" where
  "bound_input_matches program primary fallback entry =
     (case entry of (name, r) \<Rightarrow>
       (case map_of (cap_inputs primary) name of
          None \<Rightarrow> False
        | Some primary_port \<Rightarrow>
            (case map_of (cap_inputs fallback) name of
               None \<Rightarrow> False
             | Some fallback_port \<Rightarrow>
                 if port_type_ref fallback_port \<noteq> port_type_ref primary_port then False
                 else \<not> port_required fallback_port
                      \<or> \<not> (case r of
                             InputRef input_name \<Rightarrow>
                               (case map_of (ir_inputs program) input_name of
                                  None \<Rightarrow> False
                                | Some input \<Rightarrow> \<not> pin_required input)
                           | NodeRef _ _ \<Rightarrow> False))))"

definition consumed_ports :: "aios_ir \<Rightarrow> node \<Rightarrow> string list" where
  "consumed_ports program n =
     List.map_filter (\<lambda>r. case r of NodeRef producer port \<Rightarrow> if producer = node_id n then Some port else None
                                 | InputRef _ \<Rightarrow> None)
       (concat (map (\<lambda>consumer. map snd (node_inputs consumer)) (ir_nodes program))
          @ map snd (ir_outputs program))"

text \<open>\<open>all\<close> stops at the first mismatch; \<open>None\<close> is its \<open>expect\<close>.\<close>

fun outputs_match :: "node \<Rightarrow> capability_contract \<Rightarrow> string list \<Rightarrow> bool option" where
  "outputs_match n fallback [] = Some True"
| "outputs_match n fallback (port # ports) =
     (case map_of (node_outputs n) port of
        None \<Rightarrow> None
      | Some expected_type \<Rightarrow>
          if (case map_of (cap_outputs fallback) port of
                None \<Rightarrow> False
              | Some fallback_port \<Rightarrow> port_type_ref fallback_port = expected_type)
          then outputs_match n fallback ports
          else Some False)"

definition fallback_ports_compatible ::
  "aios_ir \<Rightarrow> node \<Rightarrow> capability_contract \<Rightarrow> capability_contract \<Rightarrow> bool option" where
  "fallback_ports_compatible program n primary fallback =
     (let bound_inputs_match = list_all (bound_input_matches program primary fallback) (node_inputs n);
          required_fallback_inputs_are_bound =
            list_all (\<lambda>(name, port). \<not> port_required port \<or> contains_key (node_inputs n) name)
              (cap_inputs fallback)
      in map_option (\<lambda>consumed_outputs_match.
           bound_inputs_match \<and> required_fallback_inputs_are_bound \<and> consumed_outputs_match)
         (outputs_match n fallback (consumed_ports program n)))"


section \<open>Validating fallbacks\<close>

text \<open>\<open>contextual\<close> with the fallback reference as the reported capability.\<close>

definition at_fallback ::
  "validator_reason_code \<Rightarrow> string \<Rightarrow> node \<Rightarrow> string \<Rightarrow> string \<Rightarrow> diagnostic" where
  "at_fallback code message n fallback_ref pointer =
     contextual code message (Some (node_id n)) None (Some fallback_ref) (Some pointer)"

definition check_fallback_contract ::
  "aios_ir \<Rightarrow> node \<Rightarrow> capability_contract \<Rightarrow> string bset \<Rightarrow> effect_class bset \<Rightarrow> nat \<Rightarrow> string \<Rightarrow> string \<Rightarrow>
    capability_contract \<Rightarrow> diagnostic list option" where
  "check_fallback_contract program n primary actions effects node_index pointer fallback_ref fallback =
     map_option (\<lambda>compatible.
       (if list_ex (\<lambda>action. action = ''artifact.read'') (cap_required_authority_classes fallback)
        then validate_required_artifact_read_resources program n fallback fallback_ref node_index
        else []) @
       push_if (\<not> compatible)
         (at_fallback IrFallbackPortMismatch
           (''fallback capability '' @ quoted fallback_ref
              @ '' cannot satisfy the node'' @ [CHR 0x27] @ ''s bound inputs or graph-consumed outputs'')
           n fallback_ref pointer) @
       push_if (node_execution_class n \<notin> set (cap_allowed_execution_classes fallback))
         (at_fallback IrExecutionClassIncompatible
           (''fallback capability '' @ quoted fallback_ref
              @ '' cannot run with the node execution class'') n fallback_ref pointer) @
       push_if (cap_role fallback \<noteq> expected_role n)
         (at_fallback IrCapabilityRoleMismatch
           (''fallback capability '' @ quoted fallback_ref @ '' has role ''
              @ debug_role (cap_role fallback) @ '', expected '' @ debug_role (expected_role n))
           n fallback_ref pointer) @
       push_if (list_ex (\<lambda>effect. effect \<notin> set effects)
                  (filter (\<lambda>effect. effect \<noteq> Pure) (cap_allowed_effect_classes fallback)))
         (at_fallback IrFallbackEffectBroadening
           (''fallback capability '' @ quoted fallback_ref @ '' broadens the effect envelope'')
           n fallback_ref pointer) @
       push_if (list_ex (\<lambda>action. action \<notin> set actions) (cap_allowed_authority_classes fallback))
         (at_fallback IrFallbackAuthorityBroadening
           (''fallback capability '' @ quoted fallback_ref @ '' broadens the authority envelope'')
           n fallback_ref pointer) @
       push_if (eg_mode (node_egress n) = Deny
                \<and> list_ex (\<lambda>mode. mode \<noteq> Deny) (cap_allowed_egress_modes fallback))
         (at_fallback IrFallbackEgressBroadening
           (''fallback capability '' @ quoted fallback_ref @ '' broadens the egress envelope'')
           n fallback_ref pointer))
     (fallback_ports_compatible program n primary fallback)"

definition validate_fallback ::
  "aios_ir \<Rightarrow> semantic_registry \<Rightarrow> (string, string bset) bmap \<Rightarrow> node \<Rightarrow> capability_contract \<Rightarrow>
    string bset \<Rightarrow> effect_class bset \<Rightarrow> nat \<Rightarrow> nat \<times> string \<Rightarrow> diagnostic list option" where
  "validate_fallback program registry relation n primary actions effects node_index entry =
     (case entry of (fallback_index, fallback_ref) \<Rightarrow>
       (let pointer = node_pointer node_index
              (''/failure/fallback_capabilities/'' @ show_nat fallback_index)
        in if fallback_ref = node_capability n
           then Some [at_node IrFailurePolicyRecursiveFallback
                        ''fallback chain contains its primary capability'' n None pointer]
           else
             map_option (\<lambda>checks.
               push_if (fallback_path_exists relation fallback_ref (node_capability n))
                 (at_node IrFailurePolicyRecursiveFallback
                   ''fallback relation contains a multi-capability cycle'' n None pointer) @ checks)
             (case ok_flatten (resolve_capability registry fallback_ref) of
                None \<Rightarrow>
                  Some [at_fallback IrCapabilityNotFound
                          (''fallback capability '' @ quoted fallback_ref @ '' is not in the registry'')
                          n fallback_ref pointer]
              | Some fallback \<Rightarrow>
                  check_fallback_contract program n primary actions effects node_index pointer
                    fallback_ref fallback)))"

definition validate_node_fallbacks ::
  "aios_ir \<Rightarrow> semantic_registry \<Rightarrow> (string, string bset) bmap \<Rightarrow> capability_table \<Rightarrow> effect_table \<Rightarrow>
    nat \<times> node \<Rightarrow> diagnostic list option" where
  "validate_node_fallbacks program registry relation capabilities node_effects entry =
     (case entry of (node_index, n) \<Rightarrow>
       (case node_failure n of
          Fallback fallback_capabilities \<Rightarrow>
            (case map_of capabilities (node_id n) of
               None \<Rightarrow> None
             | Some primary \<Rightarrow>
                 (case map_of node_effects (node_id n) of
                    None \<Rightarrow> None
                  | Some effects \<Rightarrow>
                      map_option concat (those (map
                        (validate_fallback program registry relation n primary
                          (bs_of_list (map ar_action (node_authority_requests n))) effects node_index)
                        (List.enumerate 0 fallback_capabilities)))))
        | Stop \<Rightarrow> Some []
        | Retry _ \<Rightarrow> Some []
        | Replan _ \<Rightarrow> Some []))"

definition validate_fallbacks ::
  "aios_ir \<Rightarrow> semantic_registry \<Rightarrow> capability_table \<Rightarrow> effect_table \<Rightarrow> diagnostic list option" where
  "validate_fallbacks program registry capabilities node_effects =
     map_option concat (those (map
       (validate_node_fallbacks program registry (build_fallback_relation program) capabilities node_effects)
       (List.enumerate 0 (ir_nodes program))))"



section \<open>The fallback relation as a relation\<close>

definition fallback_relation :: "aios_ir \<Rightarrow> (string \<times> string) set" where
  "fallback_relation program = {(a, b). \<exists>n \<in> set (ir_nodes program). \<exists>fs.
     node_capability n = a \<and> node_failure n = Fallback fs \<and> b \<in> set fs}"

lemma set_add_all [simp]: "set (add_all xs s) = set xs \<union> set s"
  by (induction xs s rule: add_all.induct) auto

lemma consumers_of_bm_insert [simp]:
  "consumers_of (bm_insert k v m) c = (if c = k then v else consumers_of m c)"
  by (simp add: consumers_of_def)

lemma build_fallback_relation_set:
  "set (consumers_of (build_fallback_relation program) c) = fallback_relation program `` {c}"
proof -
  have "set (consumers_of (fold add_fallbacks ns m) c) = set (consumers_of m c) \<union>
      {b. \<exists>n \<in> set ns. \<exists>fs. node_capability n = c \<and> node_failure n = Fallback fs \<and> b \<in> set fs}" for ns m
  proof (induction ns arbitrary: m)
    case (Cons n ns)
    have "set (consumers_of (add_fallbacks n m) c) = set (consumers_of m c) \<union>
        {b. \<exists>fs. node_capability n = c \<and> node_failure n = Fallback fs \<and> b \<in> set fs}"
      by (cases "node_failure n") (auto simp: add_fallbacks_def)
    with Cons show ?case by auto
  qed simp
  then show ?thesis
    by (auto simp: build_fallback_relation_def fallback_relation_def consumers_of_def)
qed

lemma fallback_path_exists_iff:
  "fallback_path_exists (build_fallback_relation program) start target \<longleftrightarrow>
     (start, target) \<in> (fallback_relation program)\<^sup>*"
proof -
  let ?r = "build_fallback_relation program"
  have "fb.edge ?r = fallback_relation program"
    by (auto simp: fb.edge_def build_fallback_relation_set)
  moreover have "fallback_path_exists ?r start target \<longleftrightarrow> fb.reaches ?r target start"
    unfolding fallback_path_exists_def by (simp only: fb.search_iff) simp
  ultimately show ?thesis by (simp add: fb.reaches_def)
qed

lemma no_return_acyclic:
  "(\<forall>(a, b) \<in> R. (b, a) \<notin> R\<^sup>*) \<longleftrightarrow> acyclic R"
  unfolding acyclic_def by (auto dest: tranclD intro: rtrancl_into_trancl2)


section \<open>What clean fallbacks mean\<close>

definition ports_compatible :: "aios_ir \<Rightarrow> node \<Rightarrow> capability_contract \<Rightarrow> capability_contract \<Rightarrow> bool" where
  "ports_compatible program n primary fallback \<longleftrightarrow>
     (\<forall>x \<in> set (node_inputs n). bound_input_matches program primary fallback x) \<and>
     (\<forall>x \<in> set (cap_inputs fallback). port_required (snd x) \<longrightarrow> fst x \<in> fst ` set (node_inputs n)) \<and>
     (\<forall>port \<in> set (consumed_ports program n). \<exists>t p.
        map_of (node_outputs n) port = Some t \<and> map_of (cap_outputs fallback) port = Some p \<and>
        port_type_ref p = t)"

lemma set_consumed_ports:
  "port \<in> set (consumed_ports program n) \<longleftrightarrow>
     (\<exists>m \<in> set (ir_nodes program). NodeRef (node_id n) port \<in> snd ` set (node_inputs m)) \<or>
     NodeRef (node_id n) port \<in> snd ` set (ir_outputs program)"
proof -
  let ?h = "\<lambda>r. case r of NodeRef producer port \<Rightarrow> if producer = node_id n then Some port else None
                         | InputRef _ \<Rightarrow> None"
  have "?h r = Some port \<longleftrightarrow> r = NodeRef (node_id n) port" for r by (cases r) auto
  moreover have "y \<in> set (List.map_filter h rs) \<longleftrightarrow> (\<exists>r \<in> set rs. h r = Some y)"
    for y :: string and h :: "value_ref \<Rightarrow> string option" and rs
    by (auto simp: List.map_filter_def image_iff)
  ultimately show ?thesis unfolding consumed_ports_def by auto
qed

lemma consumed_port_declared:
  assumes "unique_ids program" and "references_ok program" and "n \<in> set (ir_nodes program)"
    and "port \<in> set (consumed_ports program n)"
  shows "\<exists>t. map_of (node_outputs n) port = Some t"
proof -
  have "ref_resolves program (NodeRef (node_id n) port)"
    using assms(2,4) by (auto simp: set_consumed_ports references_ok_def) force+
  then obtain m where "map_of (node_table program) (node_id n) = Some m" "port \<in> fst ` set (node_outputs m)"
    by (auto simp: ref_resolves_def node_table_resolves [OF assms(1)])
  moreover have "map_of (node_table program) (node_id n) = Some n"
    using assms(1,3) by (rule node_table_lookup)
  ultimately have "map_of (node_outputs n) port \<noteq> None" by (simp add: map_of_eq_None_iff)
  then show ?thesis by blast
qed

lemma outputs_match_result:
  "(\<And>port. port \<in> set ports \<Longrightarrow> \<exists>t. map_of (node_outputs n) port = Some t) \<Longrightarrow>
   outputs_match n fallback ports = Some (\<forall>port \<in> set ports. \<exists>t p.
     map_of (node_outputs n) port = Some t \<and> map_of (cap_outputs fallback) port = Some p \<and> port_type_ref p = t)"
proof (induction ports)
  case (Cons port ports)
  then obtain t where "map_of (node_outputs n) port = Some t" by auto
  with Cons show ?case by (auto split: option.split)
qed simp

lemma fallback_ports_compatible_result:
  assumes "unique_ids program" and "references_ok program" and "n \<in> set (ir_nodes program)"
  shows "fallback_ports_compatible program n primary fallback = Some (ports_compatible program n primary fallback)"
proof -
  have "outputs_match n fallback (consumed_ports program n) =
      Some (\<forall>port \<in> set (consumed_ports program n). \<exists>t p. map_of (node_outputs n) port = Some t \<and>
        map_of (cap_outputs fallback) port = Some p \<and> port_type_ref p = t)"
    using consumed_port_declared [OF assms] by (intro outputs_match_result)
  then show ?thesis
    unfolding fallback_ports_compatible_def ports_compatible_def Let_def
    by (simp only: option.map list_all_iff contains_key_iff split_def disj_not1)
qed


text \<open>A fallback contract that stays within what its node was granted.\<close>

definition fallback_within ::
  "aios_ir \<Rightarrow> node \<Rightarrow> capability_contract \<Rightarrow> capability_contract \<Rightarrow> bool" where
  "fallback_within program n primary fallback \<longleftrightarrow>
     (''artifact.read'' \<in> set (cap_required_authority_classes fallback) \<longrightarrow>
        artifact_reads_covered program n fallback) \<and>
     ports_compatible program n primary fallback \<and>
     node_execution_class n \<in> set (cap_allowed_execution_classes fallback) \<and>
     cap_role fallback = expected_role n \<and>
     set (cap_allowed_effect_classes fallback) - {Pure} \<subseteq> charged_effects n primary \<and>
     set (cap_allowed_authority_classes fallback) \<subseteq> requested_actions n \<and>
     (eg_mode (node_egress n) = Deny \<longrightarrow> set (cap_allowed_egress_modes fallback) \<subseteq> {Deny})"

definition fallback_ok ::
  "aios_ir \<Rightarrow> semantic_registry \<Rightarrow> node \<Rightarrow> capability_contract \<Rightarrow> string \<Rightarrow> bool" where
  "fallback_ok program registry n primary f \<longleftrightarrow>
     (f, node_capability n) \<notin> (fallback_relation program)\<^sup>* \<and>
     (\<exists>fallback. ok_flatten (resolve_capability registry f) = Some fallback \<and>
        fallback_within program n primary fallback)"

lemma is_error_at_fallback [simp]: "is_error (at_fallback code m n f p) \<longleftrightarrow> reason_severity code = Error"
  by (simp add: at_fallback_def)

lemma check_fallback_contract_result:
  assumes "unique_ids program" "references_ok program" "n \<in> set (ir_nodes program)"
    and actions: "set actions = requested_actions n" and effects: "set effects = charged_effects n primary"
  shows "\<exists>ds. check_fallback_contract program n primary actions effects i pointer f fallback = Some ds \<and>
    (\<forall>d \<in> set ds. is_error d) \<and> (ds = [] \<longleftrightarrow> fallback_within program n primary fallback)"
proof -
  have read: "list_ex (\<lambda>a. a = ''artifact.read'') xs \<longleftrightarrow> ''artifact.read'' \<in> set xs" for xs
    by (auto simp: list_ex_iff)
  have modes: "list_ex (\<lambda>m. m \<noteq> Deny) ms \<longleftrightarrow> \<not> set ms \<subseteq> {Deny}" for ms by (auto simp: list_ex_iff)
  have effs: "list_ex (\<lambda>e. e \<notin> set effects) (filter (\<lambda>e. e \<noteq> Pure) es) \<longleftrightarrow>
      \<not> set es - {Pure} \<subseteq> charged_effects n primary" for es
    using effects by (auto simp: list_ex_iff)
  have acts: "list_ex (\<lambda>a. a \<notin> set actions) xs \<longleftrightarrow> \<not> set xs \<subseteq> requested_actions n" for xs
    using actions by (auto simp: list_ex_iff)
  show ?thesis
    unfolding check_fallback_contract_def fallback_ports_compatible_result [OF assms(1-3)] option.map
      option.inject ex_simps simp_thms fallback_within_def read modes effs acts
    by (auto dest: artifact_reads_error simp: artifact_reads_clean split: if_splits)
qed

lemma validate_fallback_result:
  assumes "unique_ids program" "references_ok program" "n \<in> set (ir_nodes program)"
    and "set actions = requested_actions n" and "set effects = charged_effects n primary"
  shows "\<exists>ds. validate_fallback program registry (build_fallback_relation program) n primary actions effects i x
      = Some ds \<and> (\<forall>d \<in> set ds. is_error d) \<and>
    (ds = [] \<longleftrightarrow> fallback_ok program registry n primary (snd x))"
proof -
  obtain k f where x: "x = (k, f)" by (cases x)
  show ?thesis
  proof (cases "ok_flatten (resolve_capability registry f)")
    case None
    then show ?thesis
      by (auto simp: x validate_fallback_def Let_def fallback_ok_def)
  next
    case (Some fallback)
    let ?p = "node_pointer i (''/failure/fallback_capabilities/'' @ show_nat k)"
    obtain ds where "check_fallback_contract program n primary actions effects i ?p f fallback = Some ds"
      "\<forall>d \<in> set ds. is_error d" "ds = [] \<longleftrightarrow> fallback_within program n primary fallback"
      using check_fallback_contract_result [OF assms] by blast
    then show ?thesis using Some
      by (auto simp: x validate_fallback_def Let_def fallback_ok_def fallback_path_exists_iff)
  qed
qed

definition fallbacks_ok :: "aios_ir \<Rightarrow> semantic_registry \<Rightarrow> bool" where
  "fallbacks_ok program registry \<longleftrightarrow>
     (\<forall>n \<in> set (ir_nodes program). \<forall>fs primary f. node_failure n = Fallback fs \<longrightarrow>
        ok_flatten (resolve_capability registry (node_capability n)) = Some primary \<longrightarrow> f \<in> set fs \<longrightarrow>
        fallback_ok program registry n primary f)"


lemma validate_node_fallbacks_result:
  assumes ids: "unique_ids program" and refs: "references_ok program"
    and table: "effect_table_ok program (resolved_capabilities program registry) table"
    and n: "n \<in> set (ir_nodes program)"
  shows "\<exists>ds. validate_node_fallbacks program registry (build_fallback_relation program)
      (resolved_capabilities program registry) table (i, n) = Some ds \<and> (\<forall>d \<in> set ds. is_error d) \<and>
    (ds = [] \<longleftrightarrow> (\<forall>fs primary f. node_failure n = Fallback fs \<longrightarrow>
        ok_flatten (resolve_capability registry (node_capability n)) = Some primary \<longrightarrow> f \<in> set fs \<longrightarrow>
        fallback_ok program registry n primary f))"
proof (cases "node_failure n")
  case (Fallback fs)
  obtain primary effects where
    primary: "map_of (resolved_capabilities program registry) (node_id n) = Some primary" and
    effects: "map_of table (node_id n) = Some effects" "set effects = charged_effects n primary"
    using table n unfolding effect_table_ok_def by blast
  then have resolve: "ok_flatten (resolve_capability registry (node_capability n)) = Some primary"
    by (simp add: resolved_capabilities_lookup [OF ids n])
  have actions: "set (bs_of_list (map ar_action (node_authority_requests n))) = requested_actions n"
    by (simp add: requested_actions_def)
  let ?f = "validate_fallback program registry (build_fallback_relation program) n primary
      (bs_of_list (map ar_action (node_authority_requests n))) effects i"
  obtain dss where "those (map ?f (List.enumerate 0 fs)) = Some dss" "\<forall>d \<in> set (concat dss). is_error d"
    "concat dss = [] \<longleftrightarrow> (\<forall>f \<in> set fs. fallback_ok program registry n primary f)"
    using those_result [where f = ?f and xs = "List.enumerate 0 fs" and
        P = "\<lambda>x. fallback_ok program registry n primary (snd x)",
        OF validate_fallback_result [OF ids refs n actions effects(2)]]
    unfolding enumerate_ball [where P = "fallback_ok program registry n primary"] by blast
  then show ?thesis
    by (simp add: validate_node_fallbacks_def Fallback primary effects(1) resolve Ball_def)
qed (simp_all add: validate_node_fallbacks_def)

lemma validate_fallbacks_result:
  assumes "unique_ids program" and "references_ok program"
    and "effect_table_ok program (resolved_capabilities program registry) table"
  shows "\<exists>ds. validate_fallbacks program registry (resolved_capabilities program registry) table = Some ds \<and>
    (\<forall>d \<in> set ds. is_error d) \<and> (ds = [] \<longleftrightarrow> fallbacks_ok program registry)"
proof -
  let ?P = "\<lambda>n. \<forall>fs primary f. node_failure n = Fallback fs \<longrightarrow>
        ok_flatten (resolve_capability registry (node_capability n)) = Some primary \<longrightarrow> f \<in> set fs \<longrightarrow>
        fallback_ok program registry n primary f"
  let ?f = "validate_node_fallbacks program registry (build_fallback_relation program)
      (resolved_capabilities program registry) table"
  have "\<exists>ds. ?f x = Some ds \<and> (\<forall>d \<in> set ds. is_error d) \<and> (ds = [] \<longleftrightarrow> ?P (snd x))"
    if "x \<in> set (List.enumerate 0 (ir_nodes program))" for x
    using validate_node_fallbacks_result [OF assms in_set_enumerate_snd [OF that], of "fst x"] by simp
  then obtain dss where "those (map ?f (List.enumerate 0 (ir_nodes program))) = Some dss"
    "\<forall>d \<in> set (concat dss). is_error d"
    "concat dss = [] \<longleftrightarrow> (\<forall>n \<in> set (ir_nodes program). ?P n)"
    using those_result [where f = ?f and P = "\<lambda>x. ?P (snd x)"
        and xs = "List.enumerate 0 (ir_nodes program)"]
    unfolding enumerate_ball [where P = ?P] by blast
  then show ?thesis by (simp add: validate_fallbacks_def fallbacks_ok_def)
qed

text \<open>Clean fallbacks leave the fallback relation without a cycle.\<close>

lemma fallbacks_ok_acyclic:
  assumes "fallbacks_ok program registry" and "types_ok program registry"
  shows "acyclic (fallback_relation program)"
proof -
  have "(b, a) \<notin> (fallback_relation program)\<^sup>*" if "(a, b) \<in> fallback_relation program" for a b
  proof -
    from that obtain n fs where n: "n \<in> set (ir_nodes program)" "node_capability n = a"
      "node_failure n = Fallback fs" "b \<in> set fs"
      by (auto simp: fallback_relation_def)
    moreover obtain primary where "ok_flatten (resolve_capability registry (node_capability n)) = Some primary"
      using assms(2) n(1) unfolding types_ok_def node_types_ok_def by blast
    ultimately have "fallback_ok program registry n primary b"
      using assms(1) unfolding fallbacks_ok_def by blast
    with n show ?thesis by (simp add: fallback_ok_def)
  qed
  then show ?thesis unfolding no_return_acyclic [symmetric] by blast
qed


section \<open>Unused pure nodes\<close>

definition add_node_consumers :: "node \<Rightarrow> (string, string bset) bmap \<Rightarrow> (string, string bset) bmap" where
  "add_node_consumers n =
     fold (\<lambda>r. case r of InputRef _ \<Rightarrow> id | NodeRef producer _ \<Rightarrow> consumers_insert producer (node_id n))
       (map snd (node_inputs n))"

definition build_consumers :: "aios_ir \<Rightarrow> (string, string bset) bmap" where
  "build_consumers program = fold add_node_consumers (ir_nodes program) []"

function useful_search ::
  "(string, string bset) bmap \<Rightarrow> (string \<Rightarrow> bool) \<Rightarrow> string list \<Rightarrow> string bset \<Rightarrow> bool" where
  "useful_search consumers stop [] seen = False"
| "useful_search consumers stop (c # pending) seen =
     (if c \<in> set seen then useful_search consumers stop pending seen
      else if stop c then True
      else useful_search consumers stop (pending @ consumers_of consumers c) (bs_insert c seen))"
  by pat_completeness auto
termination
proof (relation "inv_image (less_than <*lex*> less_than)
    (\<lambda>(consumers, _, pending, seen). (keys_left consumers seen, length pending))")
  fix consumers :: "(string, string bset) bmap" and stop and c :: string and pending seen
  assume "c \<notin> set seen"
  from keys_left_visit [OF this, of consumers]
  show "((consumers, stop, pending @ consumers_of consumers c, bs_insert c seen),
      consumers, stop, c # pending, seen) \<in> inv_image (less_than <*lex*> less_than)
      (\<lambda>(consumers, _, pending, seen). (keys_left consumers seen, length pending))"
    by auto
qed auto

interpretation use: graph_search "useful_search consumers stop" "consumers_of consumers" stop
  for consumers stop
proof
  fix x :: string and vs p
  assume "x \<notin> set vs" "\<not> stop x"
  then show "\<exists>vs'. set vs' = insert x (set vs) \<and>
      useful_search consumers stop (x # p) vs = useful_search consumers stop (p @ consumers_of consumers x) vs'"
    by (intro exI [of _ "bs_insert x vs"]) simp
qed (simp_all add: finite_consumers)

definition is_effectful :: "effect_class bset \<Rightarrow> bool" where
  "is_effectful effects = (length effects \<noteq> 1 \<or> Pure \<notin> set effects)"

definition output_nodes :: "aios_ir \<Rightarrow> string bset" where
  "output_nodes program =
     bs_of_list (List.map_filter (\<lambda>r. case r of NodeRef i _ \<Rightarrow> Some i | InputRef _ \<Rightarrow> None)
       (map snd (ir_outputs program)))"

definition effectful_nodes :: "effect_table \<Rightarrow> string bset" where
  "effectful_nodes effects = bs_of_list (map fst (filter (\<lambda>(_, e). is_effectful e) effects))"

definition warn_unused_node ::
  "aios_ir \<Rightarrow> effect_table \<Rightarrow> nat \<times> node \<Rightarrow> diagnostic list option" where
  "warn_unused_node program effects entry =
     (case entry of (node_index, n) \<Rightarrow>
       (case map_of effects (node_id n) of
          None \<Rightarrow> None
        | Some node_effects \<Rightarrow>
            Some (push_if (\<not> is_effectful node_effects \<and>
                \<not> useful_search (build_consumers program)
                    (\<lambda>c. c \<in> set (output_nodes program) \<or> c \<in> set (effectful_nodes effects))
                    [node_id n] [])
              (at_node IrGraphUnusedPureNode
                ''pure node has no path to a program output or effectful node'' n None
                (node_pointer node_index [])))))"

definition warn_unused_pure_nodes :: "aios_ir \<Rightarrow> effect_table \<Rightarrow> diagnostic list option" where
  "warn_unused_pure_nodes program effects =
     map_option concat (those (map (warn_unused_node program effects)
       (List.enumerate 0 (ir_nodes program))))"


lemma build_consumers_flow: "build_consumers program = fst (build_flow program nodes)"
proof -
  have step: "fst (add_node_edges n st) = add_node_consumers n (fst st)" for n st
  proof -
    have "fst (fold (\<lambda>r. case r of InputRef _ \<Rightarrow> id | NodeRef p _ \<Rightarrow> add_edge p i) rs st) =
        fold (\<lambda>r. case r of InputRef _ \<Rightarrow> id | NodeRef p _ \<Rightarrow> consumers_insert p i) rs (fst st)" for i rs st
      by (induction rs arbitrary: st) (auto simp: add_edge_def split: value_ref.split)
    then show ?thesis by (simp add: add_node_edges_def add_node_consumers_def)
  qed
  have "fst (fold add_node_edges ns st) = fold add_node_consumers ns (fst st)" for ns st
    by (induction ns arbitrary: st) (simp_all add: step)
  then show ?thesis by (simp add: build_consumers_def build_flow_def)
qed

lemma build_consumers_set: "set (consumers_of (build_consumers program) p) = flow program `` {p}"
  unfolding build_consumers_flow [of program "node_table program"]
  using flow_tables_build [of program] by (auto simp: flow_tables_def)

lemma useful_search_iff:
  "useful_search (build_consumers program) stop [i] [] \<longleftrightarrow>
     (\<exists>c. (i, c) \<in> (flow program)\<^sup>* \<and> stop c)"
proof -
  have "use.edge (build_consumers program) = flow program"
    by (auto simp: use.edge_def build_consumers_set)
  then show ?thesis by (simp only: use.search_iff) (simp add: use.reaches_def)
qed

lemma set_output_nodes:
  "i \<in> set (output_nodes program) \<longleftrightarrow> (\<exists>port. NodeRef i port \<in> snd ` set (ir_outputs program))"
  by (force simp: output_nodes_def List.map_filter_def split: value_ref.splits)

lemma set_effectful_nodes:
  "bm_wf table \<Longrightarrow> i \<in> set (effectful_nodes table) \<longleftrightarrow> (\<exists>e. map_of table i = Some e \<and> is_effectful e)"
  by (force simp: effectful_nodes_def bm_wf_map_of_iff)

lemma is_effectful_iff: "bs_wf effects \<Longrightarrow> is_effectful effects \<longleftrightarrow> set effects \<noteq> {Pure}"
proof -
  assume "bs_wf effects"
  then have "length effects = card (set effects)" by (metis bs_wf_distinct distinct_card)
  moreover have "card (set effects) = 1 \<and> Pure \<in> set effects \<longleftrightarrow> set effects = {Pure}"
    by (auto simp: card_Suc_eq)
  ultimately show ?thesis by (auto simp: is_effectful_def)
qed

text \<open>
  A pure node is unused when no data-flow path leads from it to a program output or to a node
  that is charged with a protected effect.
\<close>

definition unused_pure :: "aios_ir \<Rightarrow> semantic_registry \<Rightarrow> node \<Rightarrow> bool" where
  "unused_pure program registry n \<longleftrightarrow>
     (\<forall>contract. ok_flatten (resolve_capability registry (node_capability n)) = Some contract \<longrightarrow>
        charged_effects n contract = {Pure}) \<and>
     (\<forall>c. (node_id n, c) \<in> (flow program)\<^sup>* \<longrightarrow>
        (\<forall>port. NodeRef c port \<notin> snd ` set (ir_outputs program)) \<and>
        (\<forall>m \<in> set (ir_nodes program). \<forall>contract. node_id m = c \<longrightarrow>
           ok_flatten (resolve_capability registry (node_capability m)) = Some contract \<longrightarrow>
           charged_effects m contract = {Pure}))"

lemma effect_table_effectful:
  assumes "unique_ids program" and "effect_table_ok program (resolved_capabilities program registry) table"
    and "n \<in> set (ir_nodes program)"
  shows "\<exists>contract effects. ok_flatten (resolve_capability registry (node_capability n)) = Some contract \<and>
    map_of table (node_id n) = Some effects \<and> set effects = charged_effects n contract \<and>
    (is_effectful effects \<longleftrightarrow> charged_effects n contract \<noteq> {Pure})"
proof -
  obtain contract effects where
    "map_of (resolved_capabilities program registry) (node_id n) = Some contract"
    "map_of table (node_id n) = Some effects" "bs_wf effects" "set effects = charged_effects n contract"
    using assms(2,3) unfolding effect_table_ok_def by blast
  then show ?thesis
    by (simp add: resolved_capabilities_lookup [OF assms(1,3)] is_effectful_iff)
qed

lemma effectful_node_iff:
  assumes "unique_ids program" and "effect_table_ok program (resolved_capabilities program registry) table"
  shows "c \<in> set (effectful_nodes table) \<longleftrightarrow>
    (\<exists>m \<in> set (ir_nodes program). \<exists>contract. node_id m = c \<and>
       ok_flatten (resolve_capability registry (node_capability m)) = Some contract \<and>
       charged_effects m contract \<noteq> {Pure})" (is "?L \<longleftrightarrow> ?R")
proof -
  have wf: "bm_wf table" and keys: "fst ` set table = node_ids program"
    using assms(2) by (auto simp: effect_table_ok_def)
  show ?thesis
  proof
    assume ?L
    then obtain e where e: "map_of table c = Some e" "is_effectful e" using set_effectful_nodes [OF wf] by blast
    then have "c \<in> node_ids program" by (metis domI dom_map_of_conv_image_fst keys)
    then obtain m where m: "m \<in> set (ir_nodes program)" "node_id m = c" by (auto simp: node_ids_def)
    then show ?R using effect_table_effectful [OF assms m(1)] e by auto
  next
    assume ?R
    then obtain m contract where m: "m \<in> set (ir_nodes program)" "node_id m = c"
      "ok_flatten (resolve_capability registry (node_capability m)) = Some contract"
      "charged_effects m contract \<noteq> {Pure}" by blast
    then show ?L using effect_table_effectful [OF assms m(1)] set_effectful_nodes [OF wf] by auto
  qed
qed

lemma warn_unused_node_result:
  assumes "unique_ids program" and "effect_table_ok program (resolved_capabilities program registry) table"
    and "n \<in> set (ir_nodes program)"
  shows "warn_unused_node program table (i, n) =
    Some (push_if (unused_pure program registry n)
      (at_node IrGraphUnusedPureNode ''pure node has no path to a program output or effectful node'' n None
        (node_pointer i [])))"
proof -
  obtain contract effects where
    c: "ok_flatten (resolve_capability registry (node_capability n)) = Some contract"
    "map_of table (node_id n) = Some effects" "is_effectful effects \<longleftrightarrow> charged_effects n contract \<noteq> {Pure}"
    using effect_table_effectful [OF assms] by blast
  have "unused_pure program registry n \<longleftrightarrow> \<not> is_effectful effects \<and>
      \<not> useful_search (build_consumers program)
          (\<lambda>c. c \<in> set (output_nodes program) \<or> c \<in> set (effectful_nodes table)) [node_id n] []"
    unfolding useful_search_iff set_output_nodes effectful_node_iff [OF assms(1,2)] unused_pure_def
    using c(1,3) by auto
  then show ?thesis by (simp add: warn_unused_node_def c(2))
qed

lemma warn_unused_pure_nodes_result:
  assumes "unique_ids program" and "effect_table_ok program (resolved_capabilities program registry) table"
  shows "warn_unused_pure_nodes program table =
    Some (concat (map (\<lambda>(i, n). push_if (unused_pure program registry n)
      (at_node IrGraphUnusedPureNode ''pure node has no path to a program output or effectful node'' n None
        (node_pointer i []))) (List.enumerate 0 (ir_nodes program))))"
proof -
  have "those (map (warn_unused_node program table) xs) = Some (map (\<lambda>(i, n). push_if (unused_pure program registry n)
      (at_node IrGraphUnusedPureNode ''pure node has no path to a program output or effectful node'' n None
        (node_pointer i []))) xs)" if "snd ` set xs \<subseteq> set (ir_nodes program)" for xs
    using that
  proof (induction xs)
    case (Cons x xs)
    then show ?case
      using warn_unused_node_result [OF assms, of "snd x" "fst x"] by (auto simp: case_prod_beta)
  qed simp
  then show ?thesis
    by (simp add: warn_unused_pure_nodes_def snd_set_enumerate)
qed

end
