(* ===== verification/Aios_Semantics.thy ===== *)
theory Aios_Semantics
  imports Aios_Fallbacks
begin

text \<open>
  The semantic analyzer as a whole (\<open>crates/aios-ir/src/semantics.rs\<close>: \<open>analyze\<close>, \<open>build_summary\<close>).
  The main lemma compares it with an abstract specification, \<open>well_formed\<close>: on a collector
  without errors the analyzer always returns, yields a summary exactly for the well-formed
  programs, and the summary is the one the specification describes.
\<close>

section \<open>Effect summary\<close>

definition node_summary :: "node \<Rightarrow> effect_class bset \<Rightarrow> node_effect_summary" where
  "node_summary n derived =
     \<lparr>nes_node_id = node_id n,
      nes_capability = node_capability n,
      nes_execution_class = node_execution_class n,
      nes_effects = derived,
      nes_authority_classes = bs_of_list (map ar_action (node_authority_requests n)),
      nes_egress_mode = eg_mode (node_egress n),
      nes_verification_gate = (op_kind (node_operation n) = Verify)\<rparr>"

text \<open>\<open>sort_by_key\<close> on the node id, then one lookup per node; \<open>None\<close> is the index panic.\<close>

definition ordered_effects :: "aios_ir \<Rightarrow> effect_table \<Rightarrow> (node \<times> effect_class bset) list option" where
  "ordered_effects program node_effects =
     those (map (\<lambda>n. map_option (Pair n) (map_of node_effects (node_id n)))
       (sort_key node_id (ir_nodes program)))"

definition build_summary ::
  "aios_ir \<Rightarrow> string \<Rightarrow> string \<Rightarrow> effect_table \<Rightarrow> effect_summary option" where
  "build_summary program snapshot_id semantic_hash node_effects =
     map_option (\<lambda>ordered.
       (let effects = fold (\<lambda>(_, derived) s. fold bs_insert derived s) ordered []
        in \<lparr>es_schema_version = ''0.1'',
            es_semantic_program_hash = semantic_hash,
            es_registry_snapshot_id = snapshot_id,
            es_effects = (if 1 < length effects then filter (\<lambda>e. e \<noteq> Pure) effects else effects),
            es_authority_classes =
              fold (\<lambda>(n, _) s. fold bs_insert (bs_of_list (map ar_action (node_authority_requests n))) s)
                ordered [],
            es_egress_modes = fold (\<lambda>(n, _). bs_insert (eg_mode (node_egress n))) ordered [],
            es_contains_probabilistic =
              list_ex (\<lambda>n. node_execution_class n = Probabilistic) (ir_nodes program),
            es_contains_opaque_external =
              (list_ex (\<lambda>n. node_execution_class n = OpaqueExternal) (ir_nodes program)
               \<or> list_ex (\<lambda>(_, e). LegacyOpaque \<in> set e) node_effects),
            es_nodes = map (\<lambda>(n, derived). node_summary n derived) ordered,
            es_verification_barriers =
              map (\<lambda>(n, _). node_id n) (filter (\<lambda>(n, _). op_kind (node_operation n) = Verify) ordered),
            es_generated_by =
              Some \<lparr>gb_id = Some ''org.ainative.aios-ir-validator'', gb_version = Some ''0.1.0''\<rparr>,
            es_generated_at = None\<rparr>))
     (ordered_effects program node_effects)"


section \<open>The analyzer\<close>

type_synonym analysis = "(effect_summary option \<times> diagnostic_collector) option"

text \<open>Push what a stage found and stop the analysis when the collector has an error.\<close>

definition stage ::
  "diagnostic_collector \<Rightarrow> diagnostic list \<Rightarrow> (diagnostic_collector \<Rightarrow> analysis) \<Rightarrow> analysis" where
  "stage c ds continue =
     (let c' = push_all c ds in if has_errors c' then Some (None, c') else continue c')"

definition analyze :: "aios_ir \<Rightarrow> semantic_registry \<Rightarrow> diagnostic_collector \<Rightarrow> analysis" where
  "analyze program registry c =
     (let (duplicates, nodes) = index_nodes program in
      stage c duplicates (\<lambda>c.
      stage c (validate_references program nodes) (\<lambda>c.
      Option.bind (validate_acyclic program nodes) (\<lambda>cycles.
      stage c cycles (\<lambda>c.
      Option.bind (validate_types_and_capabilities program registry nodes) (\<lambda>(types, capabilities).
      stage c types (\<lambda>c.
      Option.bind (validate_effects program capabilities) (\<lambda>(effects, node_effects).
      stage c effects (\<lambda>c.
      Option.bind (validate_fallbacks program registry capabilities node_effects) (\<lambda>fallbacks.
      stage c fallbacks (\<lambda>c.
      Option.bind (warn_unused_pure_nodes program node_effects) (\<lambda>warnings.
      Option.bind (build_summary program (reg_snapshot_id registry) [] node_effects) (\<lambda>summary.
      Some (Some summary, push_all c warnings))))))))))))))"


section \<open>The specification\<close>

definition effects_ok :: "aios_ir \<Rightarrow> semantic_registry \<Rightarrow> bool" where
  "effects_ok program registry \<longleftrightarrow>
     (\<forall>n \<in> set (ir_nodes program). \<exists>contract.
        ok_flatten (resolve_capability registry (node_capability n)) = Some contract \<and>
        node_effects_ok program n contract)"

definition well_formed :: "aios_ir \<Rightarrow> semantic_registry \<Rightarrow> bool" where
  "well_formed program registry \<longleftrightarrow>
     unique_ids program \<and> references_ok program \<and> acyclic (flow program) \<and>
     types_ok program registry \<and> effects_ok program registry \<and> fallbacks_ok program registry"

lemma stage_result:
  assumes "\<not> has_errors c" and "\<forall>d \<in> set ds. is_error d"
  shows "stage c ds k = (if ds = [] then k c else Some (None, push_all c ds))"
proof (cases ds)
  case Nil
  then show ?thesis using assms(1) by (simp add: stage_def)
next
  case (Cons d ds')
  then have "has_errors (push_all c ds)" using assms(2) by (auto simp del: push_all_Cons)
  with Cons show ?thesis by (simp add: stage_def)
qed

lemma stage_stops:
  assumes "\<not> has_errors c" and "\<forall>d \<in> set ds. is_error d" and "ds \<noteq> []"
  shows "stage c ds k = Some (None, push_all c ds) \<and> has_errors (push_all c ds)"
proof -
  have "\<exists>d \<in> set ds. is_error d" using assms(2,3) by (cases ds) auto
  then show ?thesis using stage_result [OF assms(1,2)] assms(3) by simp
qed

lemma ordered_effects_result:
  assumes "effect_table_ok program capabilities table"
  shows "ordered_effects program table =
    Some (map (\<lambda>n. (n, the (map_of table (node_id n)))) (sort_key node_id (ir_nodes program)))"
proof -
  have "those (map (\<lambda>n. map_option (Pair n) (map_of table (node_id n))) ns) =
      Some (map (\<lambda>n. (n, the (map_of table (node_id n)))) ns)" if "set ns \<subseteq> set (ir_nodes program)" for ns
    using that
  proof (induction ns)
    case (Cons n ns)
    then obtain e where "map_of table (node_id n) = Some e"
      using assms by (auto simp: effect_table_ok_def)
    with Cons show ?case by simp
  qed simp
  then show ?thesis by (simp add: ordered_effects_def)
qed


lemma validate_acyclic_clean:
  assumes "references_ok program"
  shows "\<exists>ds. validate_acyclic program (node_table program) = Some ds \<and>
    (\<forall>d \<in> set ds. is_error d) \<and> (ds = [] \<longleftrightarrow> acyclic (flow program))"
  using validate_acyclic_result [OF references_ok_flow [OF assms]] by auto

text \<open>A program that fails an early stage is rejected there.\<close>

lemma analyze_early:
  assumes c: "\<not> has_errors c"
    and bad: "\<not> (unique_ids program \<and> references_ok program \<and> acyclic (flow program) \<and> types_ok program registry)"
  shows "\<exists>c'. analyze program registry c = Some (None, c') \<and> has_errors c'"
proof (cases "unique_ids program")
  case False
  then have "fst (index_nodes program) \<noteq> []" by (simp add: index_nodes_clean_iff)
  then show ?thesis
    using stage_stops [OF c, of "fst (index_nodes program)"] index_nodes_error
    by (auto simp: analyze_def case_prod_beta)
next
  case ids: True
  then have index: "index_nodes program = ([], node_table program)"
    by (metis index_nodes_clean_iff node_table_def prod.collapse)
  show ?thesis
  proof (cases "references_ok program")
    case False
    then show ?thesis
      using stage_stops [OF c, of "validate_references program (node_table program)"]
        validate_references_error [of _ program "node_table program"] validate_references_clean [OF ids]
      by (auto simp: analyze_def index stage_result [OF c])
  next
    case refs: True
    then have clean: "validate_references program (node_table program) = []"
      by (simp add: validate_references_clean [OF ids])
    obtain cycles where cycles: "validate_acyclic program (node_table program) = Some cycles"
      "\<forall>d \<in> set cycles. is_error d" "cycles = [] \<longleftrightarrow> acyclic (flow program)"
      using validate_acyclic_clean [OF refs] by blast
    obtain types where types: "validate_types_and_capabilities program registry (node_table program) =
        Some (types, resolved_capabilities program registry)"
      "\<forall>d \<in> set types. is_error d" "types = [] \<longleftrightarrow> types_ok program registry"
      using validate_types_and_capabilities_result [OF ids refs] by blast
    have start: "analyze program registry c = stage c cycles (\<lambda>c. stage c types (\<lambda>c.
        Option.bind (validate_effects program (resolved_capabilities program registry)) (\<lambda>(effects, table).
        stage c effects (\<lambda>c.
        Option.bind (validate_fallbacks program registry (resolved_capabilities program registry) table) (\<lambda>fallbacks.
        stage c fallbacks (\<lambda>c.
        Option.bind (warn_unused_pure_nodes program table) (\<lambda>warnings.
        Option.bind (build_summary program (reg_snapshot_id registry) [] table) (\<lambda>summary.
        Some (Some summary, push_all c warnings)))))))))"
      by (simp add: analyze_def index clean cycles(1) types(1) stage_result [OF c])
    show ?thesis
      using bad ids refs cycles(3) types(3) stage_stops [OF c cycles(2)] stage_stops [OF c types(2)]
        stage_result [OF c cycles(2)] unfolding start by (cases "cycles = []") auto
  qed
qed

text \<open>A program that passes them reaches the effect and fallback stages, and then its summary.\<close>

lemma analyze_late:
  assumes c: "\<not> has_errors c" and ids: "unique_ids program" and refs: "references_ok program"
    and acyc: "acyclic (flow program)" and types_ok: "types_ok program registry"
  shows "\<exists>table summary warnings.
    effect_table_ok program (resolved_capabilities program registry) table \<and>
    warn_unused_pure_nodes program table = Some warnings \<and>
    build_summary program (reg_snapshot_id registry) [] table = Some summary \<and>
    (if effects_ok program registry \<and> fallbacks_ok program registry
     then analyze program registry c = Some (Some summary, push_all c warnings)
     else \<exists>c'. analyze program registry c = Some (None, c') \<and> has_errors c')"
proof -
  let ?caps = "resolved_capabilities program registry"
  have index: "index_nodes program = ([], node_table program)"
    using ids by (metis index_nodes_clean_iff node_table_def prod.collapse)
  have clean: "validate_references program (node_table program) = []"
    using refs by (simp add: validate_references_clean [OF ids])
  have cycles: "validate_acyclic program (node_table program) = Some []"
    using validate_acyclic_clean [OF refs] acyc by blast
  have types: "validate_types_and_capabilities program registry (node_table program) = Some ([], ?caps)"
    using validate_types_and_capabilities_result [OF ids refs, of registry] types_ok by blast
  have caps: "\<exists>contract. map_of ?caps (node_id n) = Some contract" if "n \<in> set (ir_nodes program)" for n
    using types_ok that unfolding resolved_capabilities_lookup [OF ids that] types_ok_def node_types_ok_def
    by blast
  obtain effects table where effects: "validate_effects program ?caps = Some (effects, table)"
    "\<forall>d \<in> set effects. is_error d" "effect_table_ok program ?caps table"
    "effects = [] \<longleftrightarrow> effects_ok program registry"
    using validate_effects_result [OF ids caps] resolved_capabilities_lookup [OF ids, of _ registry]
    unfolding effects_ok_def by (auto cong: ball_cong)
  obtain fallbacks where fallbacks: "validate_fallbacks program registry ?caps table = Some fallbacks"
    "\<forall>d \<in> set fallbacks. is_error d" "fallbacks = [] \<longleftrightarrow> fallbacks_ok program registry"
    using validate_fallbacks_result [OF ids refs effects(3)] by blast
  obtain warnings where warnings: "warn_unused_pure_nodes program table = Some warnings"
    using warn_unused_pure_nodes_result [OF ids effects(3)] by blast
  obtain summary where summary: "build_summary program (reg_snapshot_id registry) [] table = Some summary"
    using ordered_effects_result [OF effects(3)] by (auto simp: build_summary_def)
  have "analyze program registry c = stage c effects (\<lambda>c. stage c fallbacks (\<lambda>c.
      Some (Some summary, push_all c warnings)))"
    by (simp add: analyze_def index clean cycles types effects(1) fallbacks(1) warnings summary stage_result [OF c])
  moreover have "\<dots> = (if effects = [] \<and> fallbacks = [] then Some (Some summary, push_all c warnings)
      else if effects = [] then Some (None, push_all c fallbacks) else Some (None, push_all c effects))"
    using stage_result [OF c effects(2)] stage_result [OF c fallbacks(2)] stage_result [OF c, of "[]"] by simp
  ultimately show ?thesis
    using effects(3,4) fallbacks(3) warnings summary
      stage_stops [OF c effects(2)] stage_stops [OF c fallbacks(2)] by auto
qed



section \<open>The summary\<close>

text \<open>The contract a program node runs under.\<close>

definition contract_of :: "semantic_registry \<Rightarrow> node \<Rightarrow> capability_contract option" where
  "contract_of registry n = ok_flatten (resolve_capability registry (node_capability n))"

definition program_effects :: "aios_ir \<Rightarrow> semantic_registry \<Rightarrow> effect_class set" where
  "program_effects program registry =
     {e. \<exists>n \<in> set (ir_nodes program). \<exists>contract. contract_of registry n = Some contract \<and>
        e \<in> charged_effects n contract}"

definition summary_of :: "aios_ir \<Rightarrow> semantic_registry \<Rightarrow> effect_summary \<Rightarrow> bool" where
  "summary_of program registry s \<longleftrightarrow>
     es_registry_snapshot_id s = reg_snapshot_id registry \<and>
     set (es_effects s) =
       (if program_effects program registry = {Pure} then {Pure} else program_effects program registry - {Pure}) \<and>
     set (es_authority_classes s) = \<Union> (requested_actions ` set (ir_nodes program)) \<and>
     set (es_egress_modes s) = (eg_mode \<circ> node_egress) ` set (ir_nodes program) \<and>
     (es_contains_opaque_external s \<longleftrightarrow> OpaqueExternal \<in> node_execution_class ` set (ir_nodes program)
        \<or> LegacyOpaque \<in> program_effects program registry) \<and>
     sorted (map nes_node_id (es_nodes s)) \<and> distinct (map nes_node_id (es_nodes s)) \<and>
     nes_node_id ` set (es_nodes s) = node_ids program \<and>
     (\<forall>x \<in> set (es_nodes s). \<exists>n \<in> set (ir_nodes program). \<exists>contract.
        contract_of registry n = Some contract \<and> nes_node_id x = node_id n \<and>
        nes_capability x = node_capability n \<and> nes_execution_class x = node_execution_class n \<and>
        set (nes_effects x) = charged_effects n contract \<and>
        set (nes_authority_classes x) = requested_actions n \<and>
        nes_egress_mode x = eg_mode (node_egress n) \<and>
        (nes_verification_gate x \<longleftrightarrow> op_kind (node_operation n) = Verify)) \<and>
     set (es_verification_barriers s) = {node_id n |n. n \<in> set (ir_nodes program) \<and> op_kind (node_operation n) = Verify} \<and>
     sorted (es_verification_barriers s) \<and> distinct (es_verification_barriers s) \<and>
     (es_contains_probabilistic s \<longleftrightarrow> Probabilistic \<in> node_execution_class ` set (ir_nodes program)) \<and>
     es_schema_version s = ''0.1'' \<and>
     es_generated_by s = Some \<lparr>gb_id = Some ''org.ainative.aios-ir-validator'', gb_version = Some ''0.1.0''\<rparr> \<and>
     es_generated_at s = None"

lemma set_fold_extend:
  "set (fold (\<lambda>x s. fold bs_insert (f x) s) xs s) = (\<Union>x \<in> set xs. set (f x)) \<union> set s"
  by (induction xs arbitrary: s) (auto simp: set_fold_bs_insert)

lemma bs_wf_fold_extend: "bs_wf s \<Longrightarrow> bs_wf (fold (\<lambda>x s. fold bs_insert (f x) s) xs s)"
  by (induction xs arbitrary: s) (simp_all add: bs_wf_fold_bs_insert)

lemma set_fold_insert: "set (fold (\<lambda>x. bs_insert (f x)) xs s) = f ` set xs \<union> set s"
  by (induction xs arbitrary: s) auto

lemma drop_pure:
  assumes "bs_wf effects"
  shows "set (if 1 < length effects then filter (\<lambda>e. e \<noteq> Pure) effects else effects) =
    (if set effects = {Pure} then {Pure} else set effects - {Pure})"
proof -
  have len: "length effects = card (set effects)" using assms by (metis bs_wf_distinct distinct_card)
  show ?thesis
  proof (cases "1 < length effects")
    case True
    then have "card (set effects) \<noteq> 1" using len by simp
    then have "set effects \<noteq> {Pure}" by (metis card_1_singleton_iff One_nat_def)
    with True show ?thesis by auto
  next
    case False
    then consider "effects = []" | e where "effects = [e]" by (cases effects) auto
    then show ?thesis by cases auto
  qed
qed

lemma build_summary_result:
  assumes ids: "unique_ids program"
    and table: "effect_table_ok program (resolved_capabilities program registry) table"
    and s: "build_summary program (reg_snapshot_id registry) hash table = Some s"
  shows "summary_of program registry s"
proof -
  let ?ns = "sort_key node_id (ir_nodes program)"
  let ?ord = "map (\<lambda>n. (n, the (map_of table (node_id n)))) ?ns"
  have look: "\<exists>contract. contract_of registry n = Some contract \<and>
      set (the (map_of table (node_id n))) = charged_effects n contract" if "n \<in> set (ir_nodes program)" for n
    using effect_table_effectful [OF ids table that] by (auto simp: contract_of_def)
  let ?effects = "fold (\<lambda>(_, derived) s. fold bs_insert derived s) ?ord []"
  have "set ?effects = (\<Union>n \<in> set (ir_nodes program). set (the (map_of table (node_id n))))"
    using set_fold_extend [of snd ?ord "[]"] by (simp add: case_prod_beta')
  also have "\<dots> = program_effects program registry"
    using look by (fastforce simp: program_effects_def)
  finally have effects: "set ?effects = program_effects program registry" .
  have "bs_wf ?effects" using bs_wf_fold_extend [of "[]" snd ?ord] by (simp add: case_prod_beta')
  note fields = drop_pure [OF this, unfolded effects]
  have keys: "fst ` set table = node_ids program" and wf: "bm_wf table"
    using table by (auto simp: effect_table_ok_def)
  have entry: "the (map_of table (fst p)) = snd p" if "p \<in> set table" for p
    using bm_wf_map_of_iff [OF wf, of "fst p" "snd p"] that by simp
  have opaque: "list_ex (\<lambda>(_, e). LegacyOpaque \<in> set e) table \<longleftrightarrow> LegacyOpaque \<in> program_effects program registry"
  proof -
    have "list_ex (\<lambda>(_, e). LegacyOpaque \<in> set e) table \<longleftrightarrow>
        (\<exists>i \<in> node_ids program. LegacyOpaque \<in> set (the (map_of table i)))"
      unfolding keys [symmetric] using entry by (auto simp: list_ex_iff split_def)
    also have "\<dots> \<longleftrightarrow> LegacyOpaque \<in> program_effects program registry"
      using look by (fastforce simp: program_effects_def node_ids_def)
    finally show ?thesis .
  qed
  have actions: "set (fold (\<lambda>(n, _) s. fold bs_insert (bs_of_list (map ar_action (node_authority_requests n))) s) ?ord [])
      = \<Union> (requested_actions ` set (ir_nodes program))"
    using set_fold_extend [of "\<lambda>x. bs_of_list (map ar_action (node_authority_requests (fst x)))" ?ord "[]"]
    by (simp add: case_prod_beta' requested_actions_def)
  have modes: "set (fold (\<lambda>(n, _). bs_insert (eg_mode (node_egress n))) ?ord []) =
      (eg_mode \<circ> node_egress) ` set (ir_nodes program)"
    using set_fold_insert [of "\<lambda>x. eg_mode (node_egress (fst x))" ?ord "[]"]
    by (simp add: case_prod_beta' image_image)
  have es: "es_registry_snapshot_id s = reg_snapshot_id registry"
    "es_effects s = (if 1 < length ?effects then filter (\<lambda>e. e \<noteq> Pure) ?effects else ?effects)"
    "es_authority_classes s =
      fold (\<lambda>(n, _) s. fold bs_insert (bs_of_list (map ar_action (node_authority_requests n))) s) ?ord []"
    "es_egress_modes s = fold (\<lambda>(n, _). bs_insert (eg_mode (node_egress n))) ?ord []"
    "es_contains_opaque_external s \<longleftrightarrow>
      list_ex (\<lambda>n. node_execution_class n = OpaqueExternal) (ir_nodes program)
      \<or> list_ex (\<lambda>(_, e). LegacyOpaque \<in> set e) table"
    "es_nodes s = map (\<lambda>n. node_summary n (the (map_of table (node_id n)))) ?ns"
    "es_verification_barriers s = map node_id (filter (\<lambda>n. op_kind (node_operation n) = Verify) ?ns)"
    "es_contains_probabilistic s \<longleftrightarrow> list_ex (\<lambda>n. node_execution_class n = Probabilistic) (ir_nodes program)"
    "es_schema_version s = ''0.1''"
    "es_generated_by s = Some \<lparr>gb_id = Some ''org.ainative.aios-ir-validator'', gb_version = Some ''0.1.0''\<rparr>"
    "es_generated_at s = None"
    using s by (auto simp: build_summary_def ordered_effects_result [OF table] Let_def filter_map comp_def)
  have order: "map nes_node_id (es_nodes s) = map node_id ?ns"
    by (simp add: es node_summary_def comp_def)
  have dist: "distinct (map node_id ?ns)"
    using ids by (simp add: unique_ids_def distinct_map)
  moreover have "\<forall>x \<in> set (es_nodes s). \<exists>n \<in> set (ir_nodes program). \<exists>contract.
      contract_of registry n = Some contract \<and> nes_node_id x = node_id n \<and>
      nes_capability x = node_capability n \<and> nes_execution_class x = node_execution_class n \<and>
      set (nes_effects x) = charged_effects n contract \<and>
      set (nes_authority_classes x) = requested_actions n \<and> nes_egress_mode x = eg_mode (node_egress n) \<and>
      (nes_verification_gate x \<longleftrightarrow> op_kind (node_operation n) = Verify)"
    using look by (fastforce simp: es(6) node_summary_def requested_actions_def)
  moreover have "nes_node_id ` set (es_nodes s) = node_ids program"
    using arg_cong [OF order, of set] by (simp add: node_ids_def)
  moreover have "x \<in> node_execution_class ` set (ir_nodes program) \<longleftrightarrow>
      list_ex (\<lambda>n. node_execution_class n = x) (ir_nodes program)" for x
    unfolding list_ex_iff image_iff by metis
  moreover have "set (es_verification_barriers s) =
      {node_id n |n. n \<in> set (ir_nodes program) \<and> op_kind (node_operation n) = Verify}"
    by (auto simp: es(7))
  moreover have "sorted (es_verification_barriers s)" "distinct (es_verification_barriers s)"
    unfolding es(7) using dist by (simp_all add: sorted_filter distinct_map_filter)
  ultimately show ?thesis
    unfolding summary_of_def order by (simp only: es(1-5,8-11) fields opaque actions modes sorted_sort_key simp_thms)
qed



section \<open>Refinement\<close>

lemma unused_warning_not_error:
  assumes "unique_ids program" and "effect_table_ok program (resolved_capabilities program registry) table"
    and "warn_unused_pure_nodes program table = Some warnings" and "d \<in> set warnings"
  shows "\<not> is_error d \<and> dg_code d = IrGraphUnusedPureNode \<and>
    (\<exists>n \<in> set (ir_nodes program). unused_pure program registry n \<and> dg_node_id d = Some (node_id n))"
proof -
  obtain i n where "(i, n) \<in> set (List.enumerate 0 (ir_nodes program))" "unused_pure program registry n"
    and d: "d = at_node IrGraphUnusedPureNode
      ''pure node has no path to a program output or effectful node'' n None (node_pointer i [])"
    using assms(3,4) unfolding warn_unused_pure_nodes_result [OF assms(1,2)] by auto
  moreover from this have "n \<in> set (ir_nodes program)" using in_set_enumerate_snd by fastforce
  ultimately show ?thesis
    by (auto simp: is_error_def at_node_def contextual_def diagnostic_new_def)
qed

lemma unused_warning_complete:
  assumes "unique_ids program" and "effect_table_ok program (resolved_capabilities program registry) table"
    and "warn_unused_pure_nodes program table = Some warnings"
    and "n \<in> set (ir_nodes program)" and "unused_pure program registry n"
  shows "\<exists>d \<in> set warnings. dg_node_id d = Some (node_id n)"
proof -
  obtain i where "(i, n) \<in> set (List.enumerate 0 (ir_nodes program))"
    using assms(4) snd_set_enumerate [of 0 "ir_nodes program"] by (metis imageE prod.collapse)
  with assms(5) show ?thesis
    using assms(3) unfolding warn_unused_pure_nodes_result [OF assms(1,2)]
    by (force simp: at_node_def contextual_def)
qed

lemma analyze_refines:
  assumes c: "\<not> has_errors c"
  shows "\<exists>r c'. analyze program registry c = Some (r, c') \<and>
    (well_formed program registry \<longrightarrow> \<not> has_errors c' \<and> (\<exists>s. r = Some s \<and> summary_of program registry s)) \<and>
    (\<not> well_formed program registry \<longrightarrow> has_errors c' \<and> r = None)"
proof (cases "unique_ids program \<and> references_ok program \<and> acyclic (flow program) \<and> types_ok program registry")
  case False
  then have "\<not> well_formed program registry" by (auto simp: well_formed_def)
  then show ?thesis using analyze_early [OF c False] by blast
next
  case True
  then have ids: "unique_ids program" by blast
  obtain table s warnings where
    table: "effect_table_ok program (resolved_capabilities program registry) table" and
    warn: "warn_unused_pure_nodes program table = Some warnings" and
    s: "build_summary program (reg_snapshot_id registry) [] table = Some s" and
    run: "if effects_ok program registry \<and> fallbacks_ok program registry
     then analyze program registry c = Some (Some s, push_all c warnings)
     else \<exists>c'. analyze program registry c = Some (None, c') \<and> has_errors c'"
    using analyze_late [OF c] True by metis
  have wf: "well_formed program registry \<longleftrightarrow> effects_ok program registry \<and> fallbacks_ok program registry"
    using True by (auto simp: well_formed_def)
  show ?thesis
  proof (cases "well_formed program registry")
    case True
    have "\<not> has_errors (push_all c warnings)"
      using c unused_warning_not_error [OF ids table warn] by auto
    then show ?thesis using True run wf build_summary_result [OF ids table s] by auto
  next
    case False
    then show ?thesis using run wf by auto
  qed
qed

end
