(* ===== verification/Aios_Example.thy ===== *)
theory Aios_Example
  imports Aios_Semantics
begin

text \<open>
  A small registry and program on which the checks of the development run: one artifact type, one
  capability that reads an artifact, a second one that may take over as its fallback, and a program
  with two nodes. The analyzer is evaluated on it by the kernel.
\<close>

definition text_type :: type_contract where
  "text_type =
     \<lparr>ty_type_id = ''artifact.text'', ty_version = ''1.0'', ty_kind = Artifact, ty_description = ''text'',
      ty_logical_schema_ref = None, ty_nullable = False, ty_representations = [],
      ty_equality = \<lparr>te_mode = EqByteIdentical, te_canonicalizer = None,
        te_numeric_absolute_tolerance = None, te_numeric_relative_tolerance = None\<rparr>,
      ty_unit_semantics = None, ty_conversion_capabilities = [],
      ty_conformance = \<lparr>cf_suite_id = ''suite'', cf_suite_version = None, cf_suite_hash = None\<rparr>,
      ty_notes = []\<rparr>"

definition text_port :: port_contract where
  "text_port = \<lparr>port_type_ref = ''artifact.text@1'', port_required = True, port_description = None\<rparr>"

definition text_capability :: "string \<Rightarrow> capability_contract" where
  "text_capability name =
     \<lparr>cap_capability = name, cap_version = ''1.0'', cap_description = None, cap_role = Ordinary,
      cap_inputs = [(''source'', text_port)], cap_outputs = [(''text'', text_port)],
      cap_allowed_execution_classes = [Deterministic],
      cap_required_effect_classes = [ArtifactRead], cap_allowed_effect_classes = [ArtifactRead],
      cap_required_authority_classes = [''artifact.read''],
      cap_allowed_authority_classes = [''artifact.read''],
      cap_allowed_egress_modes = [Deny], cap_determinism = None, cap_error_classes = [],
      cap_conformance = \<lparr>cf_suite_id = ''suite'', cf_suite_version = None, cf_suite_hash = None\<rparr>,
      cap_notes = []\<rparr>"

definition sample_registry :: semantic_registry where
  "sample_registry =
     \<lparr>reg_snapshot =
        \<lparr>rs_schema_version = ''0.1'', rs_snapshot_id = ''sha256:0'', rs_generation = None,
         rs_type_contracts = [], rs_capability_contracts = [], rs_created_at = '''',
         rs_publisher = None, rs_notes = []\<rparr>,
      reg_snapshot_id = ''sha256:0'', reg_hash_verification = Strict,
      reg_types = [((''artifact.text'', 1), text_type)],
      reg_capabilities =
        [((''text.copy'', 1), text_capability ''text.copy''), ((''text.keep'', 1), text_capability ''text.keep'')],
      reg_type_hashes = [], reg_capability_hashes = []\<rparr>"

definition sample_node :: "string \<Rightarrow> value_ref \<Rightarrow> failure_policy \<Rightarrow> authority_request list \<Rightarrow> node" where
  "sample_node i source failure requests =
     \<lparr>node_id = i, node_operation = \<lparr>op_kind = Invoke, op_capability = ''text.copy@1''\<rparr>,
      node_execution_class = Deterministic, node_inputs = [(''source'', source)],
      node_outputs = [(''text'', ''artifact.text@1'')], node_authority_requests = requests,
      node_egress = \<lparr>eg_mode = Deny, eg_destination_classes = []\<rparr>, node_constraints = None,
      node_failure = failure, node_cache = Never, node_description = None, node_metadata = None\<rparr>"

definition read_request :: "string \<Rightarrow> authority_request" where
  "read_request r = \<lparr>ar_action = ''artifact.read'', ar_resource = r, ar_reason = None\<rparr>"

definition sample_program :: aios_ir where
  "sample_program =
     \<lparr>ir_version = ''0.1'', ir_program_id = ''p'', ir_kind = TaskGraph,
      ir_inputs = [(''doc'', \<lparr>pin_type_ref = ''artifact.text@1'', pin_required = True,
        pin_media_types = [], pin_description = None\<rparr>)],
      ir_nodes =
        [sample_node ''b'' (NodeRef ''a'' ''text'') Stop [read_request ''node:a''],
         sample_node ''a'' (InputRef ''doc'') (Fallback [''text.keep@1'']) [read_request ''input:doc'']],
      ir_outputs = [(''out'', NodeRef ''b'' ''text'')], ir_metadata = None\<rparr>"

text \<open>The same program with the two nodes reading each other.\<close>

definition cyclic_program :: aios_ir where
  "cyclic_program = sample_program
     \<lparr>ir_nodes :=
        [sample_node ''b'' (NodeRef ''a'' ''text'') Stop [read_request ''node:a''],
         sample_node ''a'' (NodeRef ''b'' ''text'') Stop [read_request ''node:b'']]\<rparr>"

text \<open>
  A program that also has a pure node nobody reads and a node that sends its input to a remote provider,
  with the capabilities for them.
\<close>

definition flag_type :: type_contract where
  "flag_type = text_type\<lparr>ty_type_id := ''value.flag'', ty_kind := Scalar\<rparr>"

definition idle_capability :: capability_contract where
  "idle_capability = (text_capability ''text.idle'')
     \<lparr>cap_inputs := [], cap_outputs := [(''flag'', text_port\<lparr>port_type_ref := ''value.flag@1''\<rparr>)],
      cap_required_effect_classes := [], cap_allowed_effect_classes := [Pure],
      cap_required_authority_classes := [], cap_allowed_authority_classes := []\<rparr>"

definition send_capability :: capability_contract where
  "send_capability = (text_capability ''text.send'')
     \<lparr>cap_required_effect_classes := [ArtifactRead, Network, DataEgress],
      cap_allowed_effect_classes := [ArtifactRead, Network, DataEgress],
      cap_required_authority_classes := [''artifact.read'', ''network.connect'', ''data.egress''],
      cap_allowed_authority_classes := [''artifact.read'', ''network.connect'', ''data.egress''],
      cap_allowed_egress_modes := [Policy]\<rparr>"

definition placed_registry :: semantic_registry where
  "placed_registry = sample_registry
     \<lparr>reg_types := [((''artifact.text'', 1), text_type), ((''value.flag'', 1), flag_type)],
      reg_capabilities :=
        [((''text.copy'', 1), text_capability ''text.copy''), ((''text.idle'', 1), idle_capability),
         ((''text.keep'', 1), text_capability ''text.keep''), ((''text.send'', 1), send_capability)]\<rparr>"

definition idle_node :: node where
  "idle_node = (sample_node ''idle'' (InputRef ''doc'') Stop [])
     \<lparr>node_operation := \<lparr>op_kind = Invoke, op_capability = ''text.idle@1''\<rparr>, node_inputs := [],
      node_outputs := [(''flag'', ''value.flag@1'')]\<rparr>"

definition send_node :: node where
  "send_node = (sample_node ''send'' (InputRef ''doc'') Stop
       [read_request ''input:doc'', \<lparr>ar_action = ''network.connect'', ar_resource = ''network:mail'', ar_reason = None\<rparr>,
        \<lparr>ar_action = ''data.egress'', ar_resource = ''destination:mail'', ar_reason = None\<rparr>])
     \<lparr>node_operation := \<lparr>op_kind = Invoke, op_capability = ''text.send@1''\<rparr>,
      node_egress := \<lparr>eg_mode = Policy, eg_destination_classes = [''mail'']\<rparr>,
      node_constraints := Some \<lparr>con_locality = [Remote], con_max_latency_ms = None, con_max_cost_microusd = None,
        con_min_memory_bytes = None, con_accelerator = None\<rparr>\<rparr>"

definition placed_program :: aios_ir where
  "placed_program = sample_program\<lparr>ir_nodes := send_node # idle_node # ir_nodes sample_program\<rparr>"

lemmas sample_defs = sample_program_def sample_registry_def sample_node_def read_request_def
  text_type_def text_port_def text_capability_def cyclic_program_def

lemma sample_accepted:
  "case analyze sample_program sample_registry (collector_new 8) of
     Some (Some s, c) \<Rightarrow>
       \<not> has_errors c \<and> es_effects s = [ArtifactRead] \<and> map nes_node_id (es_nodes s) = [''a'', ''b'']
   | _ \<Rightarrow> False"
  by code_simp

lemma placed_accepted:
  "case analyze placed_program placed_registry (collector_new 8) of
     Some (Some s, c) \<Rightarrow>
       \<not> has_errors c \<and> es_effects s = [ArtifactRead, Network, DataEgress] \<and>
       map (\<lambda>d. (dg_code d, dg_node_id d)) (dc_diagnostics c) = [(IrGraphUnusedPureNode, Some ''idle'')]
   | _ \<Rightarrow> False"
  by code_simp

lemma cyclic_rejected:
  "case analyze cyclic_program sample_registry (collector_new 8) of
     Some (None, c) \<Rightarrow> map (\<lambda>d. (dg_code d, dg_related d)) (dc_diagnostics c) = [(IrGraphCycle, [''a'', ''b''])]
   | _ \<Rightarrow> False"
  by code_simp

lemma sample_well_formed: "well_formed sample_program sample_registry"
  using sample_accepted analyze_refines [of "collector_new 8" sample_program sample_registry]
  by (auto split: option.splits prod.splits)


lemma cross_references_closed_witness:
  "\<exists>r. semantic_ref_parse (port_type_ref text_port) = Inr r \<and>
     (sr_id r, sr_major r) \<in> fst ` set (reg_types sample_registry)"
proof -
  have "validate_cross_references (reg_types sample_registry) (reg_capabilities sample_registry) = Inr ()"
    by code_simp
  moreover have "text_capability ''text.copy'' \<in> snd ` set (reg_capabilities sample_registry)"
    by (simp add: sample_registry_def)
  moreover have "text_port \<in> set (capability_ports (text_capability ''text.copy''))"
    by (simp add: capability_ports_def text_capability_def)
  ultimately show ?thesis using cross_references_closed by blast
qed

end
