(* ===== verification/Aios_Numbers.thy ===== *)
theory Aios_Numbers
  imports Aios_Prelude
begin

text \<open>
  Lexical number handling (\<open>crates/aios-registry/src/numbers.rs\<close>). A byte string is a list of
  characters; an index loop over it is a recursion on the bytes that remain. \<open>i64\<close> values are
  integers with the saturation of the source written out, \<open>u64\<close> arithmetic is checked. What the
  source uses of \<open>str::parse::<f64>\<close> (whether the correctly rounded value is finite and positive) is
  decided on the exact decimal value. The lemmas show that the integer reading of a token is exact:
  nothing is rounded, and the exponent's magnitude never matters beyond the value it denotes.
\<close>

section \<open>Machine arithmetic\<close>

definition i64_max :: int where
  "i64_max = 9223372036854775807"

definition saturate :: "int \<Rightarrow> int" where
  "saturate x = max (- i64_max - 1) (min i64_max x)"

definition checked_u64 :: "nat \<Rightarrow> nat option" where
  "checked_u64 n = (if int n < 18446744073709551616 then Some n else None)"


section \<open>Decimal tokens\<close>

datatype number_profile = IrIntegers | RegistryTolerance

record decimal_token =
  dt_negative :: bool
  dt_digits :: string
  dt_fraction :: int
  dt_exponent :: int

definition exponent_step :: "int \<Rightarrow> char \<Rightarrow> int" where
  "exponent_step e c = saturate (saturate (e * 10) + int (of_char c - 48))"

text \<open>The optional fraction: the digits it adds, how many, and what remains.\<close>

definition parse_fraction :: "string \<Rightarrow> (string \<times> int \<times> string) option" where
  "parse_fraction rest =
     (case rest of
        [] \<Rightarrow> Some ([], 0, [])
      | c # r \<Rightarrow>
          if c = CHR ''.'' then
            (let f = takeWhile is_ascii_digit r
             in if f = [] then None
                else if int (length f) \<le> i64_max
                then Some (f, int (length f), dropWhile is_ascii_digit r)
                else None)
          else Some ([], 0, rest))"

definition parse_exponent :: "string \<Rightarrow> (int \<times> string) option" where
  "parse_exponent rest =
     (case rest of
        [] \<Rightarrow> Some (0, [])
      | c # r \<Rightarrow>
          if c = CHR ''e'' \<or> c = CHR ''E'' then
            (let negative_exponent = (take 1 r = ''-'');
                 r' = (if take 1 r = ''+'' \<or> take 1 r = ''-'' then drop 1 r else r);
                 ds = takeWhile is_ascii_digit r'
             in if ds = [] then None
                else (let e = foldl exponent_step 0 ds
                      in Some (if negative_exponent then - e else e, dropWhile is_ascii_digit r')))
          else Some (0, rest))"

definition parse_integer_part :: "string \<Rightarrow> (string \<times> string) option" where
  "parse_integer_part rest =
     (case rest of
        [] \<Rightarrow> None
      | c # r \<Rightarrow>
          if c = CHR ''0'' then Some ([c], r)
          else if is_ascii_digit c
          then Some (takeWhile is_ascii_digit rest, dropWhile is_ascii_digit rest)
          else None)"

definition decimal_token_parse :: "string \<Rightarrow> decimal_token option" where
  "decimal_token_parse token =
     (let negative = (take 1 token = ''-'');
          rest = (if negative then drop 1 token else token)
      in Option.bind (parse_integer_part rest) (\<lambda>(integer_digits, rest).
         Option.bind (parse_fraction rest) (\<lambda>(fraction_digits, fraction, rest).
         Option.bind (parse_exponent rest) (\<lambda>(exponent, rest).
         if rest = []
         then Some \<lparr>dt_negative = negative, dt_digits = integer_digits @ fraction_digits,
                    dt_fraction = fraction, dt_exponent = exponent\<rparr>
         else None))))"

definition is_zero :: "decimal_token \<Rightarrow> bool" where
  "is_zero t = list_all (\<lambda>b. b = CHR ''0'') (dt_digits t)"

fun accumulate :: "nat \<Rightarrow> string \<Rightarrow> nat option" where
  "accumulate v [] = Some v"
| "accumulate v (b # bs) =
     Option.bind (checked_u64 (v * 10)) (\<lambda>v.
     Option.bind (checked_u64 (v + (of_char b - 48))) (\<lambda>v. accumulate v bs))"

fun scale_up :: "nat \<Rightarrow> nat \<Rightarrow> nat option" where
  "scale_up v 0 = Some v"
| "scale_up v (Suc k) = Option.bind (checked_u64 (v * 10)) (\<lambda>v. scale_up v k)"

definition kept_digits :: "int \<Rightarrow> string \<Rightarrow> string option" where
  "kept_digits scale digits =
     (if scale < 0 then
        (if scale = - i64_max - 1 then None
         else (let removed = nat (- scale)
               in if length digits < removed then None
                  else (let kept = length digits - removed
                        in if list_ex (\<lambda>b. b \<noteq> CHR ''0'') (drop kept digits) then None
                           else Some (take kept digits))))
      else Some digits)"

definition safe_integer :: "decimal_token \<Rightarrow> nat option" where
  "safe_integer t =
     (let digits = dropWhile (\<lambda>b. b = CHR ''0'') (dt_digits t)
      in if digits = [] then Some 0
         else if dt_negative t then None
         else if i64_max < int (length digits) then None
         else (let scale = saturate (dt_exponent t - dt_fraction t);
                   len = saturate (int (length digits) + scale)
               in if \<not> (1 \<le> len \<and> len \<le> 16) then None
                  else Option.bind (kept_digits scale digits) (\<lambda>kept.
                       Option.bind (accumulate 0 kept) (\<lambda>v.
                       Option.bind (scale_up v (nat (max scale 0))) (\<lambda>v.
                       if int v \<le> 9007199254740991 then Some v else None)))))"

text \<open>
  \<open>str::parse::<f64>\<close> rounds to nearest, ties to even: a positive decimal stays finite below the
  midpoint \<open>2^1024 - 2^970\<close> and does not vanish above the midpoint \<open>2^-1075\<close>. The two length tests
  decide the extreme exponents without computing the power.
\<close>

definition finite_positive :: "decimal_token \<Rightarrow> bool" where
  "finite_positive t =
     (let digits = dropWhile (\<lambda>b. b = CHR ''0'') (dt_digits t);
          n = int (digits_value digits);
          e = dt_exponent t - dt_fraction t;
          len = int (length digits) + e
      in digits \<noteq> [] \<and>
         (if 400 < len then False
          else if len < - 400 then False
          else if 0 \<le> e then n * 10 ^ nat e < 2 ^ 1024 - 2 ^ 970
          else n < (2 ^ 1024 - 2 ^ 970) * 10 ^ nat (- e) \<and> 10 ^ nat (- e) < n * 2 ^ 1075))"


section \<open>Preparing a document\<close>

definition token_byte :: "char \<Rightarrow> bool" where
  "token_byte c =
     (c \<noteq> CHR '' '' \<and> c \<noteq> CHR 0x09 \<and> c \<noteq> CHR 0x0D \<and> c \<noteq> CHR 0x0A \<and> c \<noteq> CHR '','' \<and> c \<noteq> CHR '']''
      \<and> c \<noteq> CHR 0x7D)"

definition starts_number :: "char \<Rightarrow> bool" where
  "starts_number c = (c = CHR ''-'' \<or> is_ascii_digit c)"

text \<open>The text written for a token; \<open>None\<close> is the tolerance error.\<close>

definition render_token :: "number_profile \<Rightarrow> string \<Rightarrow> string option" where
  "render_token profile token =
     (case decimal_token_parse token of
        None \<Rightarrow> Some token
      | Some number \<Rightarrow>
          (case profile of
             IrIntegers \<Rightarrow>
               (case safe_integer number of None \<Rightarrow> Some token | Some v \<Rightarrow> Some (show_nat v))
           | RegistryTolerance \<Rightarrow>
               if is_zero number then Some (show_nat 0)
               else if dt_negative number \<or> \<not> finite_positive number then None
               else Some token))"

lemma starts_number_token: "starts_number c \<Longrightarrow> token_byte c"
  by (auto simp: starts_number_def token_byte_def is_ascii_digit_def)

function prepare_from :: "number_profile \<Rightarrow> bool \<Rightarrow> bool \<Rightarrow> string \<Rightarrow> string option" where
  "prepare_from profile in_string escaped [] = Some []"
| "prepare_from profile in_string escaped (byte # bytes) =
     (if in_string then
        (let escaped' = (\<not> escaped \<and> byte = CHR 0x5C);
             in_string' = (escaped \<or> byte \<noteq> CHR 0x22)
         in map_option (Cons byte) (prepare_from profile in_string' escaped' bytes))
      else if byte = CHR 0x22 then
        map_option (Cons byte) (prepare_from profile True escaped bytes)
      else if starts_number byte then
        Option.bind (render_token profile (takeWhile token_byte (byte # bytes))) (\<lambda>text.
          map_option (append text)
            (prepare_from profile False escaped (dropWhile token_byte (byte # bytes))))
      else map_option (Cons byte) (prepare_from profile False escaped bytes))"
  by pat_completeness auto

termination
proof (relation "measure (\<lambda>(_, _, _, bytes). length bytes)")
  fix profile :: number_profile and escaped :: bool and byte bytes
  assume "starts_number byte"
  then have "token_byte byte" by (rule starts_number_token)
  then show "((profile, False, escaped, dropWhile token_byte (byte # bytes)), profile, b, escaped, byte # bytes)
      \<in> measure (\<lambda>(_, _, _, bytes). length bytes)" for b
    by (simp add: length_dropWhile_le less_Suc_eq_le)
qed auto

definition prepare_numbers :: "string \<Rightarrow> number_profile \<Rightarrow> string option" where
  "prepare_numbers bytes profile = prepare_from profile False False bytes"

lemma prepare_examples:
  "map (\<lambda>s. prepare_numbers s IrIntegers)
     [''1.0'', ''-0'', ''-0e999999999999999999'', ''1000e-3'', ''1.1'', ''1e-999999999999999999'', ''01'', ''1.'', ''[1e2,-3]'']
   = map Some [''1'', ''0'', ''0'', ''1'', ''1.1'', ''1e-999999999999999999'', ''01'', ''1.'', ''[100,-3]'']"
  by code_simp

lemma tolerance_examples:
  "map (\<lambda>s. prepare_numbers s RegistryTolerance) [''-1e-9999'', ''1e-9999'', ''1e9999'', ''-0.1'',
      ''0'', ''-0'', ''5e-324'', ''0.1'', ''18e307'', ''17e307'']
   = [None, None, None, None, Some ''0'', Some ''0'', Some ''5e-324'', Some ''0.1'', None, Some ''17e307'']"
  by code_simp



section \<open>Exactness of the integer reading\<close>

lemma foldl_digits: "foldl (\<lambda>v c. v * 10 + (of_char c - 48)) a s = a * 10 ^ length s + digits_value s"
proof (induction s rule: rev_induct)
  case (snoc c s)
  then show ?case by (simp add: digits_value_def algebra_simps)
qed (simp add: digits_value_def)

lemma digits_value_append: "digits_value (s @ t) = digits_value s * 10 ^ length t + digits_value t"
  using foldl_digits [of "digits_value s" t] by (simp add: digits_value_def)

lemma digits_value_less: "list_all is_ascii_digit s \<Longrightarrow> digits_value s < 10 ^ length s"
proof (induction s rule: rev_induct)
  case (snoc c s)
  then have "of_char c - 48 < (10::nat)" by (simp add: is_ascii_digit_value)
  with snoc show ?case by (simp add: digits_value_snoc)
qed (simp add: digits_value_def)

lemma digits_value_zeros: "list_all (\<lambda>b. b = CHR ''0'') s \<Longrightarrow> digits_value s = 0"
  by (induction s rule: rev_induct) (auto simp: digits_value_snoc digits_value_def)

lemma digits_value_eq_0:
  "list_all is_ascii_digit s \<Longrightarrow> digits_value s = 0 \<longleftrightarrow> list_all (\<lambda>b. b = CHR ''0'') s"
proof (induction s rule: rev_induct)
  case (snoc c s)
  have "is_ascii_digit c" using snoc.prems by simp
  then have "of_char c - 48 = (0::nat) \<longleftrightarrow> c = CHR ''0''"
    by (auto simp: is_ascii_digit_def simp flip: of_char_48_iff)
  with snoc show ?case by (auto simp: digits_value_snoc)
qed (simp add: digits_value_def)

lemma digits_value_dropWhile: "digits_value (dropWhile (\<lambda>b. b = CHR ''0'') s) = digits_value s"
proof -
  have "digits_value (takeWhile (\<lambda>b. b = CHR ''0'') s) = 0"
    by (rule digits_value_zeros) (auto simp: list_all_iff dest: set_takeWhileD)
  then show ?thesis
    using digits_value_append [of "takeWhile (\<lambda>b. b = CHR ''0'') s" "dropWhile (\<lambda>b. b = CHR ''0'') s"] by simp
qed

lemma accumulate_Some:
  assumes "list_all is_ascii_digit s" and "v < 10 ^ k" and "k + length s \<le> 16"
  shows "accumulate v s = Some (v * 10 ^ length s + digits_value s)"
  using assms
proof (induction s arbitrary: v k)
  case (Cons c s)
  let ?w = "v * 10 + (of_char c - 48)"
  have c: "of_char c - 48 < (10::nat)" using Cons.prems(1) by (simp add: is_ascii_digit_value)
  have w: "?w < 10 ^ Suc k" using Cons.prems(2) c by simp
  have "(10::nat) ^ Suc k \<le> 10 ^ 16" using Cons.prems(3) by (intro power_increasing) auto
  then have "?w < 18446744073709551616" using w by simp
  then have "checked_u64 (v * 10) = Some (v * 10)" "checked_u64 ?w = Some ?w"
    by (simp_all add: checked_u64_def)
  then have "accumulate v (c # s) = accumulate ?w s" by simp
  also have "\<dots> = Some (?w * 10 ^ length s + digits_value s)"
    using Cons.prems by (intro Cons.IH [OF _ w]) auto
  also have "?w * 10 ^ length s + digits_value s = v * 10 ^ length (c # s) + digits_value (c # s)"
    using foldl_digits [of "of_char c - 48" s] by (simp add: digits_value_def algebra_simps)
  finally show ?case .
qed (simp add: digits_value_def)

lemma scale_up_Some: "v * 10 ^ k < 10 ^ 16 \<Longrightarrow> scale_up v k = Some (v * 10 ^ k)"
proof (induction k arbitrary: v)
  case (Suc k)
  have "v * 10 * 1 \<le> v * 10 * 10 ^ k" by (intro mult_left_mono) auto
  moreover have w: "v * 10 * 10 ^ k < 10 ^ 16" using Suc.prems by (simp only: power_Suc mult.assoc)
  ultimately have "v * 10 < 10 ^ 16" by linarith
  then have "checked_u64 (v * 10) = Some (v * 10)" by (simp add: checked_u64_def)
  with Suc.IH [OF w] show ?case by (simp only: scale_up.simps bind.bind_lunit power_Suc mult.assoc)
qed simp

lemma too_big: "10 ^ 16 \<le> (w::nat) \<Longrightarrow> \<not> int w \<le> 9007199254740991"
  by simp

text \<open>The token denotes \<open>v\<close>: \<open>digits \<cdot> 10^(exponent - fraction) = v\<close>, cross-multiplied.\<close>

definition denotes :: "decimal_token \<Rightarrow> nat \<Rightarrow> bool" where
  "denotes t v \<longleftrightarrow>
     digits_value (dt_digits t) * 10 ^ nat (dt_exponent t - dt_fraction t) =
     v * 10 ^ nat (dt_fraction t - dt_exponent t) \<and> (dt_negative t \<longrightarrow> v = 0)"

definition token_wf :: "decimal_token \<Rightarrow> bool" where
  "token_wf t \<longleftrightarrow>
     list_all is_ascii_digit (dt_digits t) \<and> int (length (dt_digits t)) < 2 ^ 62 \<and>
     0 \<le> dt_fraction t \<and> dt_fraction t < 2 ^ 62 \<and> - i64_max \<le> dt_exponent t \<and> dt_exponent t \<le> i64_max"

text \<open>The arithmetic of \<open>safe_integer\<close> once zero and negative tokens are out of the way.\<close>

definition read_scaled :: "int \<Rightarrow> string \<Rightarrow> nat option" where
  "read_scaled scale digits =
     (let len = saturate (int (length digits) + scale)
      in if \<not> (1 \<le> len \<and> len \<le> 16) then None
         else Option.bind (kept_digits scale digits) (\<lambda>kept.
              Option.bind (accumulate 0 kept) (\<lambda>v.
              Option.bind (scale_up v (nat (max scale 0))) (\<lambda>v.
              if int v \<le> 9007199254740991 then Some v else None))))"

lemma read_scaled_up:
  assumes ds: "list_all is_ascii_digit ds" "ds \<noteq> []" "hd ds \<noteq> CHR ''0''"
    and len: "int (length ds) < 2 ^ 62" and k: "int k \<le> i64_max"
  shows "read_scaled (int k) ds = Some v \<longleftrightarrow> digits_value ds * 10 ^ k = v \<and> int v \<le> 9007199254740991"
proof (cases "length ds + k \<le> 16")
  case True
  have "digits_value ds * 10 ^ k < 10 ^ length ds * 10 ^ k"
    using digits_value_less [OF ds(1)] by simp
  also have "\<dots> = 10 ^ (length ds + k)" by (simp add: power_add)
  also have "\<dots> \<le> 10 ^ 16" using True by (intro power_increasing) auto
  finally have up: "scale_up (digits_value ds) k = Some (digits_value ds * 10 ^ k)"
    by (rule scale_up_Some)
  have "1 \<le> length ds" using ds(2) by (cases ds) auto
  then have L: "saturate (int (length ds) + int k) = int (length ds + k)" "1 \<le> length ds + k"
    using True by (auto simp: saturate_def i64_max_def)
  have "accumulate 0 ds = Some (digits_value ds)"
    using accumulate_Some [OF ds(1), of 0 0] True by simp
  with up L True show ?thesis by (auto simp: read_scaled_def kept_digits_def)
next
  case False
  have "16 \<le> length ds - 1 + k" using False by linarith
  then have "(10::nat) ^ 16 \<le> 10 ^ (length ds - 1 + k)" by (intro power_increasing) auto
  also have "\<dots> = 10 ^ (length ds - 1) * 10 ^ k" by (simp add: power_add)
  also have "\<dots> \<le> digits_value ds * 10 ^ k" using digits_value_ge [OF ds] by simp
  finally have "\<not> int (digits_value ds * 10 ^ k) \<le> 9007199254740991" by (rule too_big)
  moreover have "16 < saturate (int (length ds) + int k)"
    using False len k by (auto simp: saturate_def i64_max_def)
  ultimately show ?thesis by (auto simp del: of_nat_mult simp: read_scaled_def)
qed

lemma read_scaled_down:
  assumes ds: "list_all is_ascii_digit ds" "ds \<noteq> []" "hd ds \<noteq> CHR ''0''"
    and r: "0 < r" "int r \<le> i64_max" and n: "r < length ds" "int (length ds) < 2 ^ 62"
  shows "read_scaled (- int r) ds = Some v \<longleftrightarrow> digits_value ds = v * 10 ^ r \<and> int v \<le> 9007199254740991"
proof -
  let ?m = "length ds - r"
  let ?a = "take ?m ds" and ?b = "drop ?m ds"
  have ab: "list_all is_ascii_digit ?a" "list_all is_ascii_digit ?b"
    using ds(1) by (auto simp: list_all_iff dest: in_set_takeD in_set_dropD)
  have lb: "length ?b = r" and la: "length ?a = ?m" using n by simp_all
  have split: "digits_value ds = digits_value ?a * 10 ^ r + digits_value ?b"
    using digits_value_append [of ?a ?b] lb by simp
  have "digits_value ?b < 10 ^ r" using digits_value_less [OF ab(2)] lb by simp
  then have iff: "digits_value ds = v * 10 ^ r \<longleftrightarrow> digits_value ?b = 0 \<and> digits_value ?a = v"
    unfolding split by (metis add.right_neutral add_diff_cancel_left' div_less div_mult_self3 gr_implies_not0
        mult.commute nonzero_mult_div_cancel_right plus_nat.add_0 power_not_zero zero_neq_numeral)
  have zero: "list_ex (\<lambda>b. b \<noteq> CHR ''0'') ?b \<longleftrightarrow> digits_value ?b \<noteq> 0"
    unfolding digits_value_eq_0 [OF ab(2)] by (auto simp: list_ex_iff list_all_iff)
  have kept: "kept_digits (- int r) ds = (if digits_value ?b \<noteq> 0 then None else Some ?a)"
    using r n zero by (simp add: kept_digits_def Let_def)
  have L: "saturate (int (length ds) + - int r) = int ?m" "1 \<le> ?m"
    using n by (auto simp: saturate_def i64_max_def)
  show ?thesis
  proof (cases "?m \<le> 16")
    case True
    then have "accumulate 0 ?a = Some (digits_value ?a)"
      using accumulate_Some [OF ab(1), of 0 0] la by simp
    moreover have "1 \<le> int ?m" "int ?m \<le> 16" using True L(2) by linarith+
    ultimately show ?thesis
      unfolding read_scaled_def Let_def L(1) kept iff using r(1) by auto
  next
    case False
    have "hd ?a \<noteq> CHR ''0''" "?a \<noteq> []" using ds n by (auto simp: hd_take)
    then have "10 ^ (?m - 1) \<le> digits_value ?a" using digits_value_ge [OF ab(1)] la by simp
    moreover have "(10::nat) ^ 16 \<le> 10 ^ (?m - 1)" using False by (intro power_increasing) auto
    ultimately have "\<not> int (digits_value ?a) \<le> 9007199254740991" by (intro too_big) linarith
    moreover have "\<not> int ?m \<le> 16" using False by linarith
    ultimately show ?thesis unfolding read_scaled_def Let_def L(1) iff by auto
  qed
qed

lemma read_scaled_fraction:
  assumes "s + int (length ds) \<le> 0"
  shows "read_scaled s ds = None"
  using assms by (auto simp: read_scaled_def saturate_def i64_max_def)

lemma safe_integer_read_scaled:
  assumes "dropWhile (\<lambda>b. b = CHR ''0'') (dt_digits t) \<noteq> []" and "token_wf t" and "\<not> dt_negative t"
  shows "safe_integer t =
    read_scaled (saturate (dt_exponent t - dt_fraction t)) (dropWhile (\<lambda>b. b = CHR ''0'') (dt_digits t))"
proof -
  let ?ds = "dropWhile (\<lambda>b. b = CHR ''0'') (dt_digits t)"
  have "length ?ds \<le> length (dt_digits t)" by (rule length_dropWhile_le)
  then have "\<not> i64_max < int (length ?ds)" using assms(2) by (simp add: token_wf_def i64_max_def)
  then show ?thesis
    unfolding safe_integer_def read_scaled_def Let_def if_not_P [OF assms(1)] if_not_P [OF assms(3)] by simp
qed

lemma safe_integer_nonzero:
  assumes ds: "list_all is_ascii_digit ds" "ds \<noteq> []" "hd ds \<noteq> CHR ''0''"
    and len: "int (length ds) < 2 ^ 62" and scale: "scale \<le> i64_max"
  shows "read_scaled (saturate scale) ds = Some v \<longleftrightarrow>
    digits_value ds * 10 ^ nat scale = v * 10 ^ nat (- scale) \<and> int v \<le> 9007199254740991"
proof (cases "0 \<le> scale")
  case True
  then have "saturate scale = int (nat scale)" using scale by (simp add: saturate_def i64_max_def)
  with True scale read_scaled_up [OF ds len, of "nat scale" v] show ?thesis by simp
next
  case neg: False
  show ?thesis
  proof (cases "length ds \<le> nat (- scale)")
    case True
    have "digits_value ds < 10 ^ length ds" by (rule digits_value_less [OF ds(1)])
    also have "\<dots> \<le> 10 ^ nat (- scale)" using True by (intro power_increasing) auto
    finally have less: "digits_value ds < 10 ^ nat (- scale)" .
    have "1 \<le> (10::nat) ^ (length ds - 1)" by simp
    then have "digits_value ds \<noteq> 0" using digits_value_ge [OF ds] by linarith
    with less have "digits_value ds \<noteq> v * 10 ^ nat (- scale)" by (cases v) auto
    moreover have "saturate scale + int (length ds) \<le> 0"
      using True neg len by (auto simp: saturate_def i64_max_def)
    ultimately show ?thesis using neg by (simp add: read_scaled_fraction)
  next
    case False
    then have "saturate scale = - int (nat (- scale))" and "int (nat (- scale)) \<le> i64_max"
      using neg len by (auto simp: saturate_def i64_max_def)
    with neg False read_scaled_down [OF ds, of "nat (- scale)" v] len show ?thesis by simp
  qed
qed

lemma safe_integer_exact_aux:
  assumes wf: "token_wf t"
  shows "safe_integer t = Some v \<longleftrightarrow> denotes t v \<and> int v \<le> 9007199254740991"
proof (cases "dropWhile (\<lambda>b. b = CHR ''0'') (dt_digits t) = []")
  case True
  then have "digits_value (dt_digits t) = 0"
    unfolding digits_value_dropWhile [of "dt_digits t", symmetric] by (simp only: True) (simp add: digits_value_def)
  with True show ?thesis by (auto simp: safe_integer_def denotes_def)
next
  case False
  let ?ds = "dropWhile (\<lambda>b. b = CHR ''0'') (dt_digits t)"
  have ds: "list_all is_ascii_digit ?ds" "hd ?ds \<noteq> CHR ''0''" "int (length ?ds) < 2 ^ 62"
    using wf False hd_dropWhile [OF False] length_dropWhile_le [of "\<lambda>b. b = CHR ''0''" "dt_digits t"]
    by (auto simp: token_wf_def list_all_iff dest: set_dropWhileD)
  have nz: "digits_value (dt_digits t) \<noteq> 0"
    using digits_value_ge [OF ds(1) False ds(2)] unfolding digits_value_dropWhile
    by (metis le_zero_eq power_not_zero zero_neq_numeral)
  show ?thesis
  proof (cases "dt_negative t")
    case True
    have "safe_integer t = None"
      unfolding safe_integer_def Let_def if_not_P [OF False] if_P [OF True] by simp
    then show ?thesis using True nz by (auto simp: denotes_def)
  next
    case pos: False
    have "dt_exponent t - dt_fraction t \<le> i64_max" using wf by (auto simp: token_wf_def)
    from safe_integer_nonzero [OF ds(1) False ds(2,3) this, of v] pos
    show ?thesis
      unfolding safe_integer_read_scaled [OF False wf pos] denotes_def digits_value_dropWhile by simp
  qed
qed

lemma exponent_fold:
  "0 \<le> e \<Longrightarrow> e \<le> i64_max \<Longrightarrow> 0 \<le> foldl exponent_step e ds \<and> foldl exponent_step e ds \<le> i64_max"
proof (induction ds arbitrary: e)
  case (Cons c ds)
  then show ?case by (auto simp: exponent_step_def saturate_def i64_max_def)
qed simp

text \<open>Below saturation the exponent is the value of its digits; above it, it stays at the maximum.\<close>

lemma exponent_fold_value:
  assumes "list_all is_ascii_digit ds"
  shows "foldl exponent_step 0 ds = min i64_max (int (digits_value ds))"
  using assms
proof (induction ds rule: rev_induct)
  case (snoc c ds)
  then show ?case
    by (auto simp: exponent_step_def saturate_def i64_max_def digits_value_snoc min_def)
qed (simp add: digits_value_def i64_max_def)

lemma parse_exponent_range:
  assumes "parse_exponent rest = Some (e, r)"
  shows "- i64_max \<le> e \<and> e \<le> i64_max"
proof -
  have z: "0 \<le> foldl exponent_step 0 ds" "foldl exponent_step 0 ds \<le> i64_max" for ds
    using exponent_fold [of 0 ds] by (auto simp: i64_max_def)
  have "e = 0 \<or> (\<exists>ds. e = foldl exponent_step 0 ds) \<or> (\<exists>ds. e = - foldl exponent_step 0 ds)"
    using assms by (auto simp: parse_exponent_def Let_def split: list.splits if_splits)
  then show ?thesis
  proof (elim disjE exE)
    fix ds assume "e = foldl exponent_step 0 ds" then show ?thesis using z [of ds] by linarith
  next
    fix ds assume "e = - foldl exponent_step 0 ds" then show ?thesis using z [of ds] by linarith
  qed (simp add: i64_max_def)
qed

lemma is_ascii_digit_zero: "is_ascii_digit (CHR ''0'')"
  by (simp add: is_ascii_digit_def)

lemma parse_integer_part_digits:
  "parse_integer_part rest = Some (ds, r) \<Longrightarrow> list_all is_ascii_digit ds \<and> rest = ds @ r"
  by (auto simp: parse_integer_part_def list_all_iff is_ascii_digit_zero split: list.splits if_splits
      dest: set_takeWhileD)

lemma parse_fraction_digits:
  assumes "parse_fraction rest = Some (fs, f, r)"
  shows "list_all is_ascii_digit fs \<and> length fs \<le> length rest \<and> f = int (length fs)"
  using assms length_takeWhile_le [of is_ascii_digit "tl rest"]
  by (auto simp: parse_fraction_def Let_def list_all_iff split: list.splits if_splits dest: set_takeWhileD)

lemma decimal_token_parse_wf:
  assumes "decimal_token_parse s = Some t" and "int (length s) < 2 ^ 62"
  shows "token_wf t"
proof -
  define rest where "rest = (if take 1 s = ''-'' then drop 1 s else s)"
  have lr: "length rest \<le> length s" by (simp add: rest_def)
  from assms(1) obtain ds fs f r1 r2 e where
      i: "parse_integer_part rest = Some (ds, r1)" and fr: "parse_fraction r1 = Some (fs, f, r2)"
    and e: "parse_exponent r2 = Some (e, [])"
    and t: "t = \<lparr>dt_negative = (take 1 s = ''-''), dt_digits = ds @ fs, dt_fraction = f, dt_exponent = e\<rparr>"
    unfolding decimal_token_parse_def Let_def rest_def [symmetric]
    by (auto split: if_splits simp: Option.bind_eq_Some_conv)
  have "length ds + length r1 = length rest" "list_all is_ascii_digit ds"
    using parse_integer_part_digits [OF i] by auto
  then show ?thesis
    using parse_fraction_digits [OF fr] lr assms(2) parse_exponent_range [OF e] by (auto simp: token_wf_def t)
qed


section \<open>Preparing is idempotent\<close>

text \<open>A safe integer in its canonical spelling reads back as itself.\<close>

lemma decimal_token_parse_show:
  "decimal_token_parse (show_nat v) =
     Some \<lparr>dt_negative = False, dt_digits = show_nat v, dt_fraction = 0, dt_exponent = 0\<rparr>"
proof -
  obtain c r where cr: "show_nat v = c # r" by (cases "show_nat v") auto
  have digits: "list_all is_ascii_digit (c # r)" using show_nat_digits [of v] cr by simp
  have "r = []" if "c = CHR ''0''"
    using canonical_show_nat [of v] that cr by (auto simp: canonical_digits_def)
  moreover have "takeWhile is_ascii_digit (c # r) = c # r" "dropWhile is_ascii_digit (c # r) = []"
    using digits by (auto simp: takeWhile_eq_all_conv list_all_iff)
  ultimately have "parse_integer_part (c # r) = Some (c # r, [])"
    using digits by (auto simp: parse_integer_part_def)
  moreover have "c \<noteq> CHR ''-''" using digits by (auto simp: is_ascii_digit_def)
  ultimately show ?thesis
    unfolding cr by (simp add: decimal_token_parse_def parse_fraction_def parse_exponent_def)
qed

lemma safe_integer_show:
  assumes "int v \<le> 9007199254740991"
  shows "safe_integer \<lparr>dt_negative = False, dt_digits = show_nat v, dt_fraction = 0, dt_exponent = 0\<rparr> = Some v"
proof -
  have "length (show_nat v) \<le> 17"
  proof (cases "v = 0")
    case True
    then show ?thesis by (simp add: show_nat.simps)
  next
    case False
    then have ge: "10 ^ (length (show_nat v) - 1) \<le> v"
      using digits_value_ge [OF show_nat_digits show_nat_nonempty hd_show_nat, of v] by simp
    show ?thesis
    proof (rule ccontr)
      assume "\<not> length (show_nat v) \<le> 17"
      then have "(10::nat) ^ 16 \<le> 10 ^ (length (show_nat v) - 1)" by (intro power_increasing) auto
      then have "10 ^ 16 \<le> v" using ge by (rule order_trans)
      then show False using too_big assms by blast
    qed
  qed
  then have "token_wf \<lparr>dt_negative = False, dt_digits = show_nat v, dt_fraction = 0, dt_exponent = 0\<rparr>"
    using show_nat_digits [of v] by (simp add: token_wf_def i64_max_def)
  from safe_integer_exact_aux [OF this, of v] assms show ?thesis by (simp add: denotes_def)
qed

lemma safe_integer_le: "safe_integer t = Some v \<Longrightarrow> int v \<le> 9007199254740991"
  by (auto simp: safe_integer_def Let_def Option.bind_eq_Some_conv split: if_splits)

lemma is_zero_show:
  "is_zero \<lparr>dt_negative = False, dt_digits = show_nat 0, dt_fraction = 0, dt_exponent = 0\<rparr>"
  by code_simp

lemma render_token_stable:
  assumes "render_token profile token = Some wr"
  shows "render_token profile wr = Some wr"
proof (cases "wr = token")
  case False
  then obtain v where v: "wr = show_nat v" "int v \<le> 9007199254740991" "profile = RegistryTolerance \<Longrightarrow> v = 0"
    using assms safe_integer_le
    by (auto simp: render_token_def split: option.splits number_profile.splits if_splits)
  then show ?thesis
    by (cases profile)
      (simp_all add: render_token_def decimal_token_parse_show safe_integer_show is_zero_show)
qed (use assms in simp)

lemma render_token_shape:
  assumes "render_token profile token = Some wr" and "token \<noteq> []" and "starts_number (hd token)"
    and "list_all token_byte token"
  shows "wr \<noteq> [] \<and> starts_number (hd wr) \<and> list_all token_byte wr"
proof (cases "wr = token")
  case False
  then obtain v where v: "wr = show_nat v"
    using assms by (auto simp: render_token_def split: option.splits number_profile.splits if_splits)
  have d: "list_all is_ascii_digit wr" "wr \<noteq> []" using show_nat_digits v by auto
  then have "is_ascii_digit (hd wr)" by (cases wr) auto
  with d show ?thesis
    by (auto simp: starts_number_def list_all_iff intro: starts_number_token)
qed (use assms in simp)

text \<open>Outside a string the first byte of the result tells a token from a separator.\<close>

definition separated :: "string \<Rightarrow> bool" where
  "separated s \<longleftrightarrow> s = [] \<or> \<not> token_byte (hd s)"

lemma prepare_separated:
  assumes "prepare_from profile False escaped bytes = Some out" and "separated bytes"
  shows "separated out"
proof (cases bytes)
  case (Cons b r)
  then have "\<not> token_byte b" using assms(2) by (simp add: separated_def)
  moreover from this have "\<not> starts_number b" "b \<noteq> CHR 0x22"
    using starts_number_token by (auto simp: token_byte_def)
  ultimately show ?thesis using assms(1) Cons by (auto simp: separated_def)
qed (use assms in simp)

lemma takeWhile_separated:
  assumes "list_all token_byte t" and "separated r"
  shows "takeWhile token_byte (t @ r) = t \<and> dropWhile token_byte (t @ r) = r"
  using assms by (induction t) (auto simp: separated_def takeWhile_eq_Nil_iff dropWhile_eq_self_iff)

lemma prepare_from_idem:
  "prepare_from profile in_string escaped bytes = Some out \<Longrightarrow>
   prepare_from profile in_string escaped out = Some out"
proof (induction profile in_string escaped bytes arbitrary: out rule: prepare_from.induct)
  case (2 profile in_string escaped byte bytes)
  consider (inside) "in_string" | (quote) "\<not> in_string" "byte = CHR 0x22"
    | (number) "\<not> in_string" "byte \<noteq> CHR 0x22" "starts_number byte"
    | (other) "\<not> in_string" "byte \<noteq> CHR 0x22" "\<not> starts_number byte" by blast
  then show ?case
  proof cases
    case number
    let ?tok = "takeWhile token_byte (byte # bytes)" and ?rest = "dropWhile token_byte (byte # bytes)"
    from 2(5) number obtain wr out' where
        t: "render_token profile ?tok = Some wr"
      and p: "prepare_from profile False escaped ?rest = Some out'" and out: "out = wr @ out'"
      by (auto simp: Option.bind_eq_Some_conv simp del: takeWhile.simps dropWhile.simps)
    have "?tok \<noteq> []" "starts_number (hd ?tok)" "list_all token_byte ?tok"
      using number starts_number_token [of byte] by (auto simp: list_all_iff dest: set_takeWhileD)
    from render_token_shape [OF t this] obtain c r where
      wr: "wr = c # r" "starts_number c" "list_all token_byte wr" by (cases wr) auto
    have "separated ?rest"
      by (simp only: separated_def) (metis hd_dropWhile)
    then have sep: "separated out'" by (rule prepare_separated [OF p])
    have c: "c \<noteq> CHR 0x22" using wr(2) by (auto simp: starts_number_def is_ascii_digit_def)
    have "prepare_from profile False escaped out' = Some out'"
      by (rule 2(3)) (use number t p in auto)
    then show ?thesis
      using takeWhile_separated [OF wr(3) sep] render_token_stable [OF t] number(1) c wr(1,2)
      by (simp add: out del: takeWhile.simps dropWhile.simps)
  next
    case inside
    from 2(5) inside obtain out' where out: "out = byte # out'"
      and p: "prepare_from profile (escaped \<or> byte \<noteq> CHR 0x22) (\<not> escaped \<and> byte = CHR 0x5C) bytes = Some out'"
      by (auto simp: Let_def)
    have "prepare_from profile (escaped \<or> byte \<noteq> CHR 0x22) (\<not> escaped \<and> byte = CHR 0x5C) out' = Some out'"
      by (rule 2(1) [OF inside refl refl p])
    then show ?thesis using inside out by (simp add: Let_def)
  next
    case quote
    from 2(5) quote obtain out' where out: "out = byte # out'"
      and p: "prepare_from profile True escaped bytes = Some out'" by auto
    show ?thesis using 2(2) [OF quote p] quote out by simp
  next
    case other
    from 2(5) other obtain out' where out: "out = byte # out'"
      and p: "prepare_from profile False escaped bytes = Some out'" by auto
    show ?thesis using 2(4) [OF other p] other out by simp
  qed
qed simp

text \<open>
  C36: The integer reading of a number token is exact: for every token the lexer accepts,
  \<open>safe_integer\<close> returns \<open>v\<close> precisely when the token's decimal value is the integer \<open>v\<close> and \<open>v\<close> is at
  most \<open>2^53 - 1\<close>. No rounding, overflow or exponent saturation is ever visible.
\<close>

theorem safe_integer_exact:
  assumes "decimal_token_parse s = Some t" and "int (length s) < 2 ^ 62"
  shows "safe_integer t = Some v \<longleftrightarrow> denotes t v \<and> int v \<le> 9007199254740991"
  by (rule safe_integer_exact_aux [OF decimal_token_parse_wf [OF assms]])

definition sample_token :: decimal_token where
  "sample_token = \<lparr>dt_negative = False, dt_digits = ''12500'', dt_fraction = 2, dt_exponent = 1\<rparr>"

theorem safe_integer_exact_witness:
  "decimal_token_parse ''125.00e1'' = Some sample_token \<and> safe_integer sample_token = Some 1250
   \<and> denotes sample_token 1250"
proof -
  have p: "decimal_token_parse ''125.00e1'' = Some sample_token" by code_simp
  have s: "safe_integer sample_token = Some 1250" by code_simp
  then show ?thesis using safe_integer_exact [OF p, of 1250] p by simp
qed

text \<open>
  C37: Preparing the numbers of a document is idempotent under both profiles: preparing what was
  prepared succeeds and changes nothing.
\<close>

theorem prepare_numbers_idempotent:
  assumes "prepare_numbers bytes profile = Some prepared"
  shows "prepare_numbers prepared profile = Some prepared"
  using assms by (auto simp: prepare_numbers_def intro: prepare_from_idem)

theorem prepare_numbers_idempotent_witness:
  "prepare_numbers ''[1e2,-3]'' IrIntegers = Some ''[100,-3]'' \<and>
   prepare_numbers ''[100,-3]'' IrIntegers = Some ''[100,-3]''"
proof -
  have p: "prepare_numbers ''[1e2,-3]'' IrIntegers = Some ''[100,-3]''" by code_simp
  show ?thesis using prepare_numbers_idempotent [OF p] p by simp
qed

end
