(* ===== verification/Aios_Task_Types.thy ===== *)
theory Aios_Task_Types
  imports Aios_Contracts Aios_Numbers
begin

text \<open>
  The data of the task manager (\<open>crates/aios-task-manager/src/lib.rs\<close>): its errors, the states of
  tasks and steps with their stored spellings, the transition request and result, the task and step
  records. SQLite integers are integers of the \<open>i64\<close> range, \<open>u64\<close> values are naturals with their
  bound written where the source checks it, RFC 3339 texts are strings. The \<open>time\<close> crate is a
  parameter (\<open>rfc3339\<close>): its parser and its printer, on nanoseconds since the epoch.
\<close>

section \<open>Errors\<close>

datatype authority_denial_stage =
  CandidateReservation | ApprovalApplication | BindingAdmission | ArtifactAdmission | ArtifactRead

datatype authority_denial_reason =
  SemanticRequestMismatch | ApprovalStale | GrantUsageExhausted | GrantExpired | GrantRevoked
  | GrantPrincipalMismatch | GrantTaskMismatch | ProviderBindingMismatch | GrantBindingMismatch

fun authority_denial_reason_code :: "authority_denial_reason \<Rightarrow> string" where
  "authority_denial_reason_code SemanticRequestMismatch = ''AUTH_SEMANTIC_REQUEST_MISMATCH''"
| "authority_denial_reason_code ApprovalStale = ''AUTH_APPROVAL_STALE''"
| "authority_denial_reason_code GrantUsageExhausted = ''AUTH_GRANT_USAGE_EXHAUSTED''"
| "authority_denial_reason_code GrantExpired = ''AUTH_GRANT_EXPIRED''"
| "authority_denial_reason_code GrantRevoked = ''AUTH_GRANT_REVOKED''"
| "authority_denial_reason_code GrantPrincipalMismatch = ''AUTH_GRANT_PRINCIPAL_MISMATCH''"
| "authority_denial_reason_code GrantTaskMismatch = ''AUTH_GRANT_TASK_MISMATCH''"
| "authority_denial_reason_code ProviderBindingMismatch = ''AUTH_PROVIDER_BINDING_MISMATCH''"
| "authority_denial_reason_code GrantBindingMismatch = ''AUTH_GRANT_BINDING_MISMATCH''"

record authority_denial =
  ad_stage :: authority_denial_stage
  ad_reason :: authority_denial_reason

text \<open>The errors of other crates and of the operating system are their messages.\<close>

datatype task_manager_error =
  Storage string
  | Io string
  | Serialization string
  | Canonicalization string
  | Provenance string
  | RegistryStore string
  | ProviderStore string
  | InvalidRecord string
  | AuthorityDenied authority_denial

fun authority_denial_of :: "task_manager_error \<Rightarrow> authority_denial option" where
  "authority_denial_of (AuthorityDenied denial) = Some denial"
| "authority_denial_of _ = None"

type_synonym 'a tm_result = "task_manager_error + 'a"


section \<open>Times\<close>

record rfc3339 =
  rfc_parse :: "string \<Rightarrow> int option"
  rfc_format :: "int \<Rightarrow> string option"

text \<open>\<open>i64::try_from\<close> and the checked operators: a value that fits, or nothing.\<close>

definition i64_checked :: "int \<Rightarrow> int option" where
  "i64_checked x = (if - i64_max - 1 \<le> x \<and> x \<le> i64_max then Some x else None)"

lemma i64_checked_Some_iff:
  "i64_checked x = Some y \<longleftrightarrow> y = x \<and> - i64_max - 1 \<le> x \<and> x \<le> i64_max"
  by (auto simp: i64_checked_def)

definition parse_rfc_nanos :: "rfc3339 \<Rightarrow> string \<Rightarrow> int option" where
  "parse_rfc_nanos lib raw = Option.bind (rfc_parse lib raw) i64_checked"

text \<open>The documented behaviour of the library the deadlines rely on: a printed instant parses back.\<close>

definition rfc_exact :: "rfc3339 \<Rightarrow> bool" where
  "rfc_exact lib \<longleftrightarrow> (\<forall>n s. rfc_format lib n = Some s \<longrightarrow> rfc_parse lib s = Some n)"


section \<open>Task and step states\<close>

datatype task_state =
  Created | Planning | WaitingForInput | WaitingForAuth | Runnable | Running | Verifying | Paused
  | Recovering | RollingBack | Completed | Failed | Cancelled | RolledBack

fun task_state_as_str :: "task_state \<Rightarrow> string" where
  "task_state_as_str Created = ''CREATED''"
| "task_state_as_str Planning = ''PLANNING''"
| "task_state_as_str WaitingForInput = ''WAITING_FOR_INPUT''"
| "task_state_as_str WaitingForAuth = ''WAITING_FOR_AUTH''"
| "task_state_as_str Runnable = ''RUNNABLE''"
| "task_state_as_str Running = ''RUNNING''"
| "task_state_as_str Verifying = ''VERIFYING''"
| "task_state_as_str Paused = ''PAUSED''"
| "task_state_as_str Recovering = ''RECOVERING''"
| "task_state_as_str RollingBack = ''ROLLING_BACK''"
| "task_state_as_str Completed = ''COMPLETED''"
| "task_state_as_str Failed = ''FAILED''"
| "task_state_as_str Cancelled = ''CANCELLED''"
| "task_state_as_str RolledBack = ''ROLLED_BACK''"

definition task_state_parse :: "string \<Rightarrow> task_state tm_result" where
  "task_state_parse value =
     (if value = ''CREATED'' then Inr Created
      else if value = ''PLANNING'' then Inr Planning
      else if value = ''WAITING_FOR_INPUT'' then Inr WaitingForInput
      else if value = ''WAITING_FOR_AUTH'' then Inr WaitingForAuth
      else if value = ''RUNNABLE'' then Inr Runnable
      else if value = ''RUNNING'' then Inr Running
      else if value = ''VERIFYING'' then Inr Verifying
      else if value = ''PAUSED'' then Inr Paused
      else if value = ''RECOVERING'' then Inr Recovering
      else if value = ''ROLLING_BACK'' then Inr RollingBack
      else if value = ''COMPLETED'' then Inr Completed
      else if value = ''FAILED'' then Inr Failed
      else if value = ''CANCELLED'' then Inr Cancelled
      else if value = ''ROLLED_BACK'' then Inr RolledBack
      else Inl (InvalidRecord ''stored Task state is invalid''))"

definition terminal :: "task_state \<Rightarrow> bool" where
  "terminal s = (s = Completed \<or> s = Failed \<or> s = Cancelled \<or> s = RolledBack)"

lemma task_state_parse_as_str: "task_state_parse (task_state_as_str s) = Inr s"
  by (cases s) (simp_all add: task_state_parse_def)

lemma task_state_parse_Inr_iff: "task_state_parse v = Inr s \<longleftrightarrow> v = task_state_as_str s"
proof
  assume "task_state_parse v = Inr s"
  then show "v = task_state_as_str s" by (simp add: task_state_parse_def split: if_splits)
qed (simp add: task_state_parse_as_str)

datatype step_state =
  StepPending | StepBlocked | StepReady | StepStarting | StepRunning | StepSucceeded | StepFailed
  | StepCancelled | StepSkipped | StepUnknown

fun step_state_as_str :: "step_state \<Rightarrow> string" where
  "step_state_as_str StepPending = ''PENDING''"
| "step_state_as_str StepBlocked = ''BLOCKED''"
| "step_state_as_str StepReady = ''READY''"
| "step_state_as_str StepStarting = ''STARTING''"
| "step_state_as_str StepRunning = ''RUNNING''"
| "step_state_as_str StepSucceeded = ''SUCCEEDED''"
| "step_state_as_str StepFailed = ''FAILED''"
| "step_state_as_str StepCancelled = ''CANCELLED''"
| "step_state_as_str StepSkipped = ''SKIPPED''"
| "step_state_as_str StepUnknown = ''UNKNOWN''"

datatype outcome_certainty =
  NotStarted | StartedNoEffect | OutcomeCompleted | FailedNoEffect | FailedPartialEffect | OutcomeUnknown

fun outcome_certainty_as_str :: "outcome_certainty \<Rightarrow> string" where
  "outcome_certainty_as_str NotStarted = ''NOT_STARTED''"
| "outcome_certainty_as_str StartedNoEffect = ''STARTED_NO_EFFECT''"
| "outcome_certainty_as_str OutcomeCompleted = ''COMPLETED''"
| "outcome_certainty_as_str FailedNoEffect = ''FAILED_NO_EFFECT''"
| "outcome_certainty_as_str FailedPartialEffect = ''FAILED_PARTIAL_EFFECT''"
| "outcome_certainty_as_str OutcomeUnknown = ''OUTCOME_UNKNOWN''"


section \<open>Requests and records\<close>

record actor =
  ac_kind :: string
  ac_id :: string

record transition_reason =
  tr_code :: string
  tr_message :: "string option"
  tr_related_ids :: "string list"

datatype waiting_kind = WaitInput | WaitApproval | WaitResource | WaitProvider | WaitValidation

record waiting_on =
  wo_kind :: waiting_kind
  wo_id :: string
  wo_message :: "string option"

record active_plan =
  ap_plan_id :: string
  ap_revision :: nat

record recovery_mutation =
  rm_unknown_operation_ids :: "string list"
  rm_unknown_operations_ref :: "string option"
  rm_last_known_daemon_instance :: "string option"

record failure_record =
  fr_code :: string
  fr_summary :: string
  fr_step_id :: "string option"
  fr_provider_id :: "string option"
  fr_execution_binding_id :: "string option"
  fr_retryable :: bool
  fr_safe_to_replan :: bool
  fr_unknown_side_effects :: bool
  fr_rollback_available :: bool
  fr_provenance_event_ids :: "string list"

record task_mutation =
  tm_active_plan :: "active_plan option"
  tm_active_step_ids :: "string list option"
  tm_waiting_on :: "waiting_on list option"
  tm_failure :: "failure_record option"
  tm_recovery :: "recovery_mutation option"

record transition_request =
  rq_schema_version :: string
  rq_transition_id :: string
  rq_task_id :: string
  rq_expected_revision :: nat
  rq_expected_state :: task_state
  rq_to_state :: task_state
  rq_requested_by :: actor
  rq_reason :: transition_reason
  rq_mutation :: task_mutation

record transition_result =
  rs_schema_version :: string
  rs_transition_id :: string
  rs_task_id :: string
  rs_applied :: bool
  rs_reason_code :: string
  rs_message :: "string option"
  rs_previous_state :: "task_state option"
  rs_current_state :: "task_state option"
  rs_previous_revision :: "nat option"
  rs_current_revision :: "nat option"
  rs_observed_state :: "task_state option"
  rs_observed_revision :: "nat option"
  rs_provenance_event_id :: "string option"
  rs_provenance_event_hash :: "string option"
  rs_resulted_at :: string

record step_failure =
  sf_code :: string
  sf_summary :: string
  sf_retryable :: bool
  sf_safe_to_rebind :: bool
  sf_unknown_side_effects :: bool

record create_step_execution =
  ce_attempt_id :: string
  ce_task_id :: string
  ce_semantic_program_hash :: string
  ce_registry_snapshot_id :: "string option"
  ce_node_id :: string
  ce_binding_id :: "string option"
  ce_provider_id :: "string option"
  ce_provider_version :: "string option"
  ce_attempt_number :: nat
  ce_state :: step_state
  ce_operation_id :: "string option"
  ce_idempotency_key :: "string option"
  ce_outcome_certainty :: "outcome_certainty option"
  ce_input_artifacts :: "string list"
  ce_output_artifacts :: "string list"
  ce_failure :: "step_failure option"
  ce_started_at :: "string option"
  ce_finished_at :: "string option"

end
