(* ===== verification/Aios_Time.thy ===== *)
theory Aios_Time
  imports Aios_Task_Types
begin

text \<open>
  Trusted time (\<open>crates/aios-task-manager/src/trusted_time.rs\<close> with the tables and triggers of
  \<open>specs/persistence-v0.1-0018-trusted-time.sql\<close> and \<open>...-0019-inflight-time.sql\<close>).

  The store is a record of tables. A function that runs inside a transaction returns the changed
  store or an error, and every caller rolls a failed transaction back, so an error carries no
  store; a function that opens its own transaction returns the store in both cases. Each call of
  \<open>Clock::security_sample\<close> is an argument: the sample it returns. Whether SQLite acknowledges a
  commit is an argument as well. SQL \<open>NULL\<close> is \<open>None\<close>; a constraint or trigger that aborts a
  statement is a \<open>Storage\<close> error. The tables of the other components are the field \<open>db_rest\<close>.
\<close>

section \<open>Samples, assessments and permits\<close>

definition ROLLBACK_TOLERANCE_NANOS :: int where
  "ROLLBACK_TOLERANCE_NANOS = 2000000000"

datatype time_source = SystemClock | InjectedClock

fun time_source_as_str :: "time_source \<Rightarrow> string" where
  "time_source_as_str SystemClock = ''SYSTEM_CLOCK''"
| "time_source_as_str InjectedClock = ''INJECTED_CLOCK''"

record security_clock_sample =
  sc_wall :: string
  sc_monotonic_nanos :: nat
  sc_source :: time_source

record time_assessment =
  ta_confidence :: string
  ta_effective_nanos :: "int option"

record locked_time_observation =
  lo_sample :: "security_clock_sample option"
  lo_effective_nanos :: "int option"

record protected_time_context =
  pc_now :: string
  pc_state_revision :: int
  pc_observed_unix_nanos :: int
  pc_effective_unix_nanos :: int
  pc_monotonic_nanos :: int

datatype external_effect_kind =
  EffectRead | StagingWrite | StagingSeal | Publication | ExportConstruction | ExportCopy | ExportFinalize

fun external_effect_kind_as_str :: "external_effect_kind \<Rightarrow> string" where
  "external_effect_kind_as_str EffectRead = ''ARTIFACT_READ''"
| "external_effect_kind_as_str StagingWrite = ''ARTIFACT_STAGING_WRITE''"
| "external_effect_kind_as_str StagingSeal = ''ARTIFACT_STAGING_SEAL''"
| "external_effect_kind_as_str Publication = ''ARTIFACT_PUBLICATION''"
| "external_effect_kind_as_str ExportConstruction = ''ARTIFACT_EXPORT_CONSTRUCTION''"
| "external_effect_kind_as_str ExportCopy = ''ARTIFACT_EXPORT_COPY''"
| "external_effect_kind_as_str ExportFinalize = ''ARTIFACT_EXPORT_FINALIZE''"

datatype external_resolution_kind = EffectInvoked | NoEffect

fun external_resolution_kind_as_str :: "external_resolution_kind \<Rightarrow> string" where
  "external_resolution_kind_as_str EffectInvoked = ''EFFECT_INVOKED''"
| "external_resolution_kind_as_str NoEffect = ''NO_EFFECT''"

record external_time_permit =
  pm_marker_id :: string
  pm_task_id :: string
  pm_subject_kind :: external_effect_kind
  pm_subject_id :: string
  pm_owner_id :: string
  pm_owner_epoch :: int
  pm_prepared_state_revision :: int

record external_entry_sample =
  es_marker_id :: string
  es_observation :: locked_time_observation
  es_committed_state_revision :: "int option"


section \<open>Tables\<close>

record time_state_row =
  ts_confidence :: string
  ts_high_water :: "int option"
  ts_expiry_floor :: "int option"
  ts_reason_code :: string
  ts_revision :: int

record observation_row =
  ob_state_revision :: int
  ob_observed :: "int option"
  ob_monotonic :: "int option"
  ob_high_water :: "int option"
  ob_expiry_floor :: "int option"
  ob_confidence :: string
  ob_reason_code :: string
  ob_source_class :: string

record preparation_row =
  pr_marker_id :: string
  pr_task_id :: string
  pr_subject_kind :: string
  pr_subject_id :: string
  pr_owner_id :: string
  pr_owner_epoch :: int
  pr_state_revision :: int
  pr_observed :: int

record resolution_row =
  re_marker_id :: string
  re_state_revision :: int
  re_entry_observed :: "int option"
  re_kind :: string

record clock_session_row =
  cs_session_id :: string
  cs_owner_id :: string
  cs_owner_epoch :: int
  cs_high_water_monotonic :: int
  cs_high_water_observed :: int
  cs_high_water_revision :: int
  cs_revision :: int

record 'r time_db =
  db_lease :: "(string \<times> int) option"
  db_tasks :: "string list"
  db_time_state :: "time_state_row option"
  db_observations :: "observation_row list"
  db_preparations :: "preparation_row list"
  db_resolutions :: "resolution_row list"
  db_pending :: "string list"
  db_sessions :: "clock_session_row list"
  db_rest :: 'r

definition observation_at :: "observation_row list \<Rightarrow> int \<Rightarrow> observation_row option" where
  "observation_at obs r = find (\<lambda>o'. ob_state_revision o' = r) obs"

text \<open>\<open>ORDER BY state_revision DESC LIMIT 1\<close>.\<close>

fun latest_observation :: "observation_row list \<Rightarrow> observation_row option" where
  "latest_observation [] = None"
| "latest_observation (o' # obs) =
     (case latest_observation obs of
        None \<Rightarrow> Some o'
      | Some b \<Rightarrow> Some (if ob_state_revision o' < ob_state_revision b then b else o'))"

text \<open>The row of \<open>trusted_time_state\<close> joined with the observation of its revision.\<close>

definition current_observation :: "'r time_db \<Rightarrow> (time_state_row \<times> observation_row) option" where
  "current_observation db =
     Option.bind (db_time_state db) (\<lambda>s.
     map_option (Pair s) (observation_at (db_observations db) (ts_revision s)))"

definition no_rows :: task_manager_error where
  "no_rows = Storage ''Query returned no rows''"

definition assert_manager_lease :: "'r time_db \<Rightarrow> string \<Rightarrow> int \<Rightarrow> unit tm_result" where
  "assert_manager_lease db owner epoch =
     ensure (db_lease db = Some (owner, epoch))
       (InvalidRecord ''Task Manager write rejected by stale ownership fence'')"


section \<open>Trusted times\<close>

definition format_nanos :: "rfc3339 \<Rightarrow> int \<Rightarrow> string tm_result" where
  "format_nanos lib nanos =
     (case rfc_format lib nanos of
        None \<Rightarrow> Inl (InvalidRecord ''TIME_UNCERTAIN'')
      | Some text \<Rightarrow> Inr text)"

definition trusted_text :: "rfc3339 \<Rightarrow> int option \<Rightarrow> string tm_result" where
  "trusted_text lib effective =
     (case effective of None \<Rightarrow> Inl (InvalidRecord ''TIME_UNCERTAIN'') | Some n \<Rightarrow> format_nanos lib n)"

definition observation_require_trusted_time :: "rfc3339 \<Rightarrow> locked_time_observation \<Rightarrow> string tm_result" where
  "observation_require_trusted_time lib l = trusted_text lib (lo_effective_nanos l)"

definition assessment_require_trusted_time :: "rfc3339 \<Rightarrow> time_assessment \<Rightarrow> string tm_result" where
  "assessment_require_trusted_time lib a =
     (if ta_confidence a \<noteq> ''TRUSTED_LOCAL'' then Inl (InvalidRecord ''TIME_UNCERTAIN'')
      else trusted_text lib (ta_effective_nanos a))"


section \<open>The audit of the time state\<close>

definition state_columns :: "time_state_row \<Rightarrow> int option \<times> int option \<times> string" where
  "state_columns s = (ts_high_water s, ts_expiry_floor s, ts_confidence s)"

definition observation_columns :: "observation_row \<Rightarrow> int option \<times> int option \<times> string" where
  "observation_columns o' = (ob_high_water o', ob_expiry_floor o', ob_confidence o')"

definition state_matches_audit :: "'r time_db \<Rightarrow> bool" where
  "state_matches_audit db =
     (case db_time_state db of
        None \<Rightarrow> False
      | Some s \<Rightarrow>
          0 \<le> ts_revision s \<and>
          (let obs = db_observations db; revisions = map ob_state_revision obs; latest = latest_observation obs
           in if ts_revision s = 0
              then ts_confidence s = ''UNASSESSED'' \<and> ts_high_water s = None \<and> ts_expiry_floor s = None \<and> obs = []
              else int (length obs) = ts_revision s \<and>
                   fold (\<lambda>r m. Some (case m of None \<Rightarrow> r | Some a \<Rightarrow> min a r)) revisions None = Some 1 \<and>
                   map_option ob_state_revision latest = Some (ts_revision s) \<and>
                   map_option ob_high_water latest = Some (ts_high_water s) \<and>
                   map_option ob_confidence latest = Some (ts_confidence s) \<and>
                   map_option (\<lambda>o'. (ob_expiry_floor o', ob_confidence o')) (observation_at obs (ts_revision s)) =
                     Some (ts_expiry_floor s, ts_confidence s)))"

definition state_matches_audit_tail :: "'r time_db \<Rightarrow> bool" where
  "state_matches_audit_tail db =
     (case db_time_state db of
        None \<Rightarrow> False
      | Some s \<Rightarrow>
          (let latest = latest_observation (db_observations db)
           in if ts_revision s = 0
              then ts_confidence s = ''UNASSESSED'' \<and> ts_high_water s = None \<and> ts_expiry_floor s = None \<and> latest = None
              else (case latest of
                      None \<Rightarrow> False
                    | Some o' \<Rightarrow> ob_state_revision o' = ts_revision s \<and> observation_columns o' = state_columns s)))"


section \<open>Applying a sample\<close>

text \<open>Wall time, monotonic ticks and source of a sample; all \<open>NULL\<close> when it is missing or malformed.\<close>

definition sample_columns ::
  "rfc3339 \<Rightarrow> security_clock_sample option \<Rightarrow> int option \<times> int option \<times> string" where
  "sample_columns lib sample =
     (case Option.bind sample (\<lambda>s. map_option (Pair s) (parse_rfc_nanos lib (sc_wall s))) of
        None \<Rightarrow> (None, None, ''UNAVAILABLE'')
      | Some (s, wall) \<Rightarrow>
          (Some wall, i64_checked (int (sc_monotonic_nanos s)), time_source_as_str (sc_source s)))"

definition rolled_back :: "int option \<Rightarrow> int option \<Rightarrow> bool" where
  "rolled_back observed high =
     (case (observed, high) of
        (Some w, Some h) \<Rightarrow> w < saturate (h - ROLLBACK_TOLERANCE_NANOS)
      | _ \<Rightarrow> False)"

definition merge_max :: "int option \<Rightarrow> int option \<Rightarrow> int option" where
  "merge_max a b =
     (case (a, b) of
        (Some x, Some y) \<Rightarrow> Some (max x y)
      | (Some x, None) \<Rightarrow> Some x
      | (None, _) \<Rightarrow> b)"

definition next_reason :: "string \<Rightarrow> bool \<Rightarrow> int option \<Rightarrow> int option \<Rightarrow> string" where
  "next_reason confidence unresolved observed high =
     (if confidence = ''TIME_UNCERTAIN'' then ''TIME_UNCERTAIN''
      else if unresolved then ''TIME_EFFECT_UNRESOLVED''
      else if observed = None then ''TIME_SOURCE_UNAVAILABLE''
      else if rolled_back observed high then ''TIME_ROLLBACK_DETECTED''
      else ''TIME_OK'')"

definition next_confidence :: "string \<Rightarrow> bool \<Rightarrow> int option \<Rightarrow> int option \<Rightarrow> string" where
  "next_confidence confidence unresolved observed high =
     (if confidence = ''TIME_UNCERTAIN'' \<or> unresolved \<or> observed = None \<or> rolled_back observed high
      then ''TIME_UNCERTAIN'' else ''TRUSTED_LOCAL'')"

text \<open>The \<open>CHECK\<close> constraint and the monotonicity trigger of \<open>trusted_time_state\<close>; \<open>NULL\<close> passes a check.\<close>

definition floor_covers :: "int option \<Rightarrow> int option \<Rightarrow> bool" where
  "floor_covers floor high = (case (floor, high) of (Some f, Some h) \<Rightarrow> h \<le> f | _ \<Rightarrow> True)"

definition time_state_check :: "time_state_row \<Rightarrow> bool" where
  "time_state_check s =
     (0 \<le> ts_revision s \<and>
      ((ts_confidence s = ''UNASSESSED'' \<and> ts_high_water s = None \<and> ts_expiry_floor s = None \<and> ts_revision s = 0) \<or>
       (ts_confidence s = ''TRUSTED_LOCAL'' \<and> 0 < ts_revision s \<and> ts_high_water s \<noteq> None \<and>
        floor_covers (ts_expiry_floor s) (ts_high_water s)) \<or>
       (ts_confidence s = ''TIME_UNCERTAIN'' \<and> 0 < ts_revision s \<and>
        floor_covers (ts_expiry_floor s) (ts_high_water s))))"

definition not_below :: "int option \<Rightarrow> int option \<Rightarrow> bool" where
  "not_below new old = (case old of None \<Rightarrow> True | Some b \<Rightarrow> (case new of None \<Rightarrow> False | Some a \<Rightarrow> b \<le> a))"

definition time_state_monotone :: "time_state_row \<Rightarrow> time_state_row \<Rightarrow> bool" where
  "time_state_monotone old new =
     (ts_revision new = ts_revision old + 1 \<and>
      not_below (ts_high_water new) (ts_high_water old) \<and>
      not_below (ts_expiry_floor new) (ts_expiry_floor old) \<and>
      (ts_confidence old = ''TIME_UNCERTAIN'' \<longrightarrow> ts_confidence new = ''TIME_UNCERTAIN''))"

definition update_time_state :: "time_state_row \<Rightarrow> time_state_row \<Rightarrow> 'r time_db \<Rightarrow> 'r time_db tm_result" where
  "update_time_state old new db =
     (if \<not> time_state_monotone old new then Inl (Storage ''trusted time cannot move backward or auto-clear'')
      else if \<not> time_state_check new then Inl (Storage ''CHECK constraint failed: trusted_time_state'')
      else Inr (db\<lparr>db_time_state := Some new\<rparr>))"

definition insert_observation :: "observation_row \<Rightarrow> 'r time_db \<Rightarrow> 'r time_db tm_result" where
  "insert_observation row db =
     (if list_ex (\<lambda>o'. ob_state_revision o' = ob_state_revision row) (db_observations db)
      then Inl (Storage ''trusted time observation already exists'')
      else Inr (db\<lparr>db_observations := db_observations db @ [row]\<rparr>))"

definition stored_state_valid :: "time_state_row \<Rightarrow> bool" where
  "stored_state_valid s =
     ((ts_confidence s = ''UNASSESSED'' \<or> ts_confidence s = ''TRUSTED_LOCAL'' \<or> ts_confidence s = ''TIME_UNCERTAIN'') \<and>
      0 \<le> ts_revision s \<and> floor_covers (ts_expiry_floor s) (ts_high_water s))"

text \<open>The new row of the state and of the ledger, from the old state and the sample's columns.\<close>

definition next_time_state ::
  "time_state_row \<Rightarrow> bool \<Rightarrow> int option \<Rightarrow> int \<Rightarrow> time_state_row" where
  "next_time_state old unresolved observed revision =
     (let high = merge_max (ts_high_water old) observed
      in \<lparr>ts_confidence = next_confidence (ts_confidence old) unresolved observed (ts_high_water old),
          ts_high_water = high,
          ts_expiry_floor = merge_max (ts_expiry_floor old) high,
          ts_reason_code = next_reason (ts_confidence old) unresolved observed (ts_high_water old),
          ts_revision = revision\<rparr>)"

definition ledger_row :: "time_state_row \<Rightarrow> int option \<times> int option \<times> string \<Rightarrow> observation_row" where
  "ledger_row new columns =
     (case columns of (observed, monotonic, source) \<Rightarrow>
      \<lparr>ob_state_revision = ts_revision new, ob_observed = observed, ob_monotonic = monotonic,
       ob_high_water = ts_high_water new, ob_expiry_floor = ts_expiry_floor new,
       ob_confidence = ts_confidence new, ob_reason_code = ts_reason_code new, ob_source_class = source\<rparr>)"

definition apply_sample_with_unresolved ::
  "rfc3339 \<Rightarrow> security_clock_sample option \<Rightarrow> bool \<Rightarrow> 'r time_db \<Rightarrow> (time_assessment \<times> 'r time_db) tm_result" where
  "apply_sample_with_unresolved lib sample unresolved db =
     (if \<not> state_matches_audit_tail db then Inl (InvalidRecord ''TIME_STATE_INVALID'')
      else case db_time_state db of
        None \<Rightarrow> Inl (InvalidRecord ''TIME_STATE_MISSING'')
      | Some old \<Rightarrow>
          if \<not> stored_state_valid old then Inl (InvalidRecord ''TIME_STATE_INVALID'')
          else case i64_checked (ts_revision old + 1) of
            None \<Rightarrow> Inl (InvalidRecord ''TIME_STATE_INVALID'')
          | Some revision \<Rightarrow>
              (let columns = sample_columns lib sample;
                   new = next_time_state old unresolved (fst columns) revision
               in and_then (update_time_state old new db) (\<lambda>db.
                  and_then (insert_observation (ledger_row new columns) db) (\<lambda>db.
                  Inr (\<lparr>ta_confidence = ts_confidence new, ta_effective_nanos = ts_expiry_floor new\<rparr>, db)))))"

definition apply_sample_in_transaction ::
  "rfc3339 \<Rightarrow> security_clock_sample option \<Rightarrow> 'r time_db \<Rightarrow> (time_assessment \<times> 'r time_db) tm_result" where
  "apply_sample_in_transaction lib sample db = apply_sample_with_unresolved lib sample False db"

datatype pending_policy = PendingDeny | PendingLatch | RecordOnly

definition pending_marker_exists :: "'r time_db \<Rightarrow> bool" where
  "pending_marker_exists db = (db_pending db \<noteq> [])"

text \<open>\<open>BEGIN IMMEDIATE\<close>, the sample, then \<open>COMMIT\<close>; an error rolls back.\<close>

definition assess_sample_with_pending_policy ::
  "rfc3339 \<Rightarrow> security_clock_sample option \<Rightarrow> pending_policy \<Rightarrow> 'r time_db
   \<Rightarrow> time_assessment tm_result \<times> 'r time_db" where
  "assess_sample_with_pending_policy lib sample policy db =
     (let pending = pending_marker_exists db
      in if policy = PendingDeny \<and> pending then (Inl (InvalidRecord ''TIME_UNCERTAIN''), db)
         else case apply_sample_with_unresolved lib sample (policy = PendingLatch \<and> pending) db of
           Inl error \<Rightarrow> (Inl error, db)
         | Inr (assessment, db') \<Rightarrow> (Inr assessment, db'))"

definition assess_sample ::
  "rfc3339 \<Rightarrow> security_clock_sample option \<Rightarrow> 'r time_db \<Rightarrow> time_assessment tm_result \<times> 'r time_db" where
  "assess_sample lib sample db = assess_sample_with_pending_policy lib sample RecordOnly db"

definition assess ::
  "rfc3339 \<Rightarrow> security_clock_sample option \<Rightarrow> 'r time_db \<Rightarrow> time_assessment tm_result \<times> 'r time_db" where
  "assess lib sample db =
     (if pending_marker_exists db then (Inl (InvalidRecord ''TIME_UNCERTAIN''), db)
      else assess_sample_with_pending_policy lib sample PendingDeny db)"

definition startup_assess ::
  "rfc3339 \<Rightarrow> security_clock_sample option \<Rightarrow> 'r time_db \<Rightarrow> time_assessment tm_result \<times> 'r time_db" where
  "startup_assess lib sample db = assess_sample_with_pending_policy lib sample PendingLatch db"


section \<open>Locked observations\<close>

definition permitted :: "string option \<Rightarrow> string list \<Rightarrow> bool" where
  "permitted marker pending =
     (case (marker, pending) of
        (None, []) \<Rightarrow> True
      | (Some expected, actual # rest) \<Rightarrow> expected = actual \<and> rest = []
      | _ \<Rightarrow> False)"

definition capture_locked_with_permit ::
  "rfc3339 \<Rightarrow> security_clock_sample option \<Rightarrow> string option \<Rightarrow> 'r time_db \<Rightarrow> locked_time_observation tm_result" where
  "capture_locked_with_permit lib sample marker db =
     (if \<not> state_matches_audit_tail db then Inl (InvalidRecord ''TIME_STATE_INVALID'')
      else if \<not> permitted marker (db_pending db) then Inl (InvalidRecord ''TIME_UNCERTAIN'')
      else case db_time_state db of
        None \<Rightarrow> Inl no_rows
      | Some s \<Rightarrow>
          (let observed = Option.bind sample (\<lambda>s. parse_rfc_nanos lib (sc_wall s))
           in Inr \<lparr>lo_sample = sample,
                   lo_effective_nanos =
                     (if ts_confidence s = ''TRUSTED_LOCAL''
                      then (case (ts_expiry_floor s, observed) of
                              (Some floor, Some now) \<Rightarrow>
                                if saturate (floor - ROLLBACK_TOLERANCE_NANOS) \<le> now then Some (max floor now) else None
                            | _ \<Rightarrow> None)
                      else None)\<rparr>))"

definition capture_locked ::
  "rfc3339 \<Rightarrow> security_clock_sample option \<Rightarrow> 'r time_db \<Rightarrow> locked_time_observation tm_result" where
  "capture_locked lib sample db = capture_locked_with_permit lib sample None db"

definition observation_commit ::
  "rfc3339 \<Rightarrow> locked_time_observation \<Rightarrow> 'r time_db \<Rightarrow> time_assessment tm_result \<times> 'r time_db" where
  "observation_commit lib l db = assess_sample lib (lo_sample l) db"

definition observation_commit_in ::
  "rfc3339 \<Rightarrow> locked_time_observation \<Rightarrow> 'r time_db \<Rightarrow> (time_assessment \<times> 'r time_db) tm_result" where
  "observation_commit_in lib l db = apply_sample_in_transaction lib (lo_sample l) db"

definition require_some :: "'a option \<Rightarrow> 'a tm_result" where
  "require_some x = (case x of None \<Rightarrow> Inl (InvalidRecord ''TIME_UNCERTAIN'') | Some v \<Rightarrow> Inr v)"

definition observation_commit_context_in ::
  "rfc3339 \<Rightarrow> locked_time_observation \<Rightarrow> 'r time_db \<Rightarrow> (protected_time_context \<times> 'r time_db) tm_result" where
  "observation_commit_context_in lib l db =
     and_then (observation_commit_in lib l db) (\<lambda>(assessment, db).
     and_then (assessment_require_trusted_time lib assessment) (\<lambda>now.
     case current_observation db of
       None \<Rightarrow> Inl no_rows
     | Some (s, o') \<Rightarrow>
         if ts_confidence s = ''TRUSTED_LOCAL'' \<and> ob_confidence o' = ''TRUSTED_LOCAL''
         then and_then (require_some (ob_observed o')) (\<lambda>observed.
              and_then (require_some (ob_expiry_floor o')) (\<lambda>effective.
              and_then (require_some (ob_monotonic o')) (\<lambda>monotonic.
              Inr (\<lparr>pc_now = now, pc_state_revision = ob_state_revision o', pc_observed_unix_nanos = observed,
                    pc_effective_unix_nanos = effective, pc_monotonic_nanos = monotonic\<rparr>, db))))
         else Inl no_rows))"


section \<open>External effects\<close>

text \<open>Inserts into the in-flight tables with their triggers; the projection keeps \<open>db_pending\<close>.\<close>

definition marker_text_valid :: "string \<Rightarrow> bool" where
  "marker_text_valid m = (length m = 32 \<and> list_all (\<lambda>c. c \<in> set ''0123456789abcdef'') m)"

definition preparation_exact :: "preparation_row \<Rightarrow> 'r time_db \<Rightarrow> bool" where
  "preparation_exact row db =
     (case current_observation db of
        None \<Rightarrow> False
      | Some (s, o') \<Rightarrow>
          ts_confidence s = ''TRUSTED_LOCAL'' \<and> ob_confidence o' = ''TRUSTED_LOCAL'' \<and>
          ob_observed o' = Some (pr_observed row) \<and> ts_revision s = pr_state_revision row \<and>
          db_lease db = Some (pr_owner_id row, pr_owner_epoch row))"

definition pending_insertable :: "string \<Rightarrow> 'r time_db \<Rightarrow> bool" where
  "pending_insertable m db =
     (m \<notin> set (db_pending db) \<and> m \<in> set (map pr_marker_id (db_preparations db)) \<and>
      m \<notin> set (map re_marker_id (db_resolutions db)))"

definition insert_preparation :: "preparation_row \<Rightarrow> 'r time_db \<Rightarrow> 'r time_db tm_result" where
  "insert_preparation row db =
     (if pr_marker_id row \<in> set (map pr_marker_id (db_preparations db))
      then Inl (Storage ''in-flight time marker already exists'')
      else if \<not> preparation_exact row db
      then Inl (Storage ''in-flight time preparation lacks exact clock and owner'')
      else if \<not> marker_text_valid (pr_marker_id row) \<or> pr_owner_epoch row < 1
      then Inl (Storage ''CHECK constraint failed: trusted_time_effect_preparations'')
      else if pr_task_id row \<notin> set (db_tasks db)
      then Inl (Storage ''FOREIGN KEY constraint failed'')
      else
        (let db = db\<lparr>db_preparations := db_preparations db @ [row]\<rparr>
         in if \<not> pending_insertable (pr_marker_id row) db
            then Inl (Storage ''in-flight time pending projection is invalid'')
            else Inr (db\<lparr>db_pending := db_pending db @ [pr_marker_id row]\<rparr>)))"

definition resolution_exact :: "resolution_row \<Rightarrow> 'r time_db \<Rightarrow> bool" where
  "resolution_exact row db =
     (case (current_observation db, db_lease db) of
        (Some (s, o'), Some (owner, epoch)) \<Rightarrow>
          list_ex (\<lambda>p. pr_marker_id p = re_marker_id row \<and> pr_state_revision p < ts_revision s \<and>
                       owner = pr_owner_id p \<and> epoch = pr_owner_epoch p) (db_preparations db) \<and>
          re_marker_id row \<in> set (db_pending db) \<and>
          ts_revision s = re_state_revision row \<and> ob_confidence o' = ts_confidence s \<and>
          ob_observed o' = re_entry_observed row \<and>
          ((re_kind row = ''EFFECT_INVOKED'' \<and> ts_confidence s = ''TRUSTED_LOCAL'' \<and> re_entry_observed row \<noteq> None) \<or>
           (re_kind row = ''NO_EFFECT'' \<and>
            (ts_confidence s = ''TRUSTED_LOCAL'' \<or> ts_confidence s = ''TIME_UNCERTAIN''))) \<and>
          length (db_pending db) = 1
      | _ \<Rightarrow> False)"

definition insert_resolution :: "resolution_row \<Rightarrow> 'r time_db \<Rightarrow> 'r time_db tm_result" where
  "insert_resolution row db =
     (if list_ex (\<lambda>r. re_marker_id r = re_marker_id row \<or> re_state_revision r = re_state_revision row)
           (db_resolutions db)
      then Inl (Storage ''in-flight time resolution already exists'')
      else if \<not> resolution_exact row db
      then Inl (Storage ''in-flight time resolution lacks exact entry clock and owner'')
      else Inr (db\<lparr>db_resolutions := db_resolutions db @ [row],
                   db_pending := filter (\<lambda>m. m \<noteq> re_marker_id row) (db_pending db)\<rparr>))"

definition subject_valid :: "int \<Rightarrow> string \<Rightarrow> string \<Rightarrow> bool" where
  "subject_valid owner_epoch task_id subject_id =
     (1 \<le> owner_epoch \<and> task_id \<noteq> [] \<and> char_count task_id \<le> 256 \<and> subject_id \<noteq> [] \<and>
      char_count subject_id \<le> 256 \<and> CHR 0x00 \<notin> set task_id \<and> CHR 0x00 \<notin> set subject_id)"

text \<open>
  The transaction of \<open>prepare_external_effect\<close>. The observation is returned beside the result:
  it is the value of \<open>locked_time\<close> when the closure ends, recorded afterwards unless the
  transaction committed.
\<close>

definition prepare_in ::
  "rfc3339 \<Rightarrow> security_clock_sample option \<Rightarrow> string \<Rightarrow> string \<Rightarrow> int \<Rightarrow> string \<Rightarrow> external_effect_kind \<Rightarrow> string
   \<Rightarrow> 'r time_db \<Rightarrow> (external_time_permit \<times> 'r time_db) tm_result \<times> locked_time_observation option" where
  "prepare_in lib sample marker owner_id owner_epoch task_id kind subject_id db =
     (case and_then (assert_manager_lease db owner_id owner_epoch) (\<lambda>_. capture_locked lib sample db) of
        Inl error \<Rightarrow> (Inl error, None)
      | Inr fresh \<Rightarrow>
          (and_then (observation_require_trusted_time lib fresh) (\<lambda>_.
           and_then (observation_commit_in lib fresh db) (\<lambda>(assessment, db).
           and_then (assessment_require_trusted_time lib assessment) (\<lambda>_.
           case Option.bind (current_observation db) (\<lambda>(s, o'). map_option (Pair s) (ob_observed o')) of
             None \<Rightarrow> Inl no_rows
           | Some (s, observed) \<Rightarrow>
               and_then
                 (insert_preparation
                   \<lparr>pr_marker_id = marker, pr_task_id = task_id, pr_subject_kind = external_effect_kind_as_str kind,
                    pr_subject_id = subject_id, pr_owner_id = owner_id, pr_owner_epoch = owner_epoch,
                    pr_state_revision = ts_revision s, pr_observed = observed\<rparr> db) (\<lambda>db.
               Inr (\<lparr>pm_marker_id = marker, pm_task_id = task_id, pm_subject_kind = kind,
                     pm_subject_id = subject_id, pm_owner_id = owner_id, pm_owner_epoch = owner_epoch,
                     pm_prepared_state_revision = ts_revision s\<rparr>, db))))),
           Some fresh))"

text \<open>Recording the sample of a transaction that was rolled back.\<close>

definition deny_with_sample ::
  "rfc3339 \<Rightarrow> locked_time_observation \<Rightarrow> task_manager_error \<Rightarrow> 'r time_db \<Rightarrow> 'a tm_result \<times> 'r time_db" where
  "deny_with_sample lib fresh error db =
     (case observation_commit lib fresh db of
        (Inl error', db') \<Rightarrow> (Inl error', db')
      | (Inr _, db') \<Rightarrow> (Inl error, db'))"

definition protected_now ::
  "rfc3339 \<Rightarrow> security_clock_sample option \<Rightarrow> 'r time_db \<Rightarrow> string tm_result \<times> 'r time_db" where
  "protected_now lib sample db =
     (case assess lib sample db of
        (Inl error, db') \<Rightarrow> (Inl error, db')
      | (Inr assessment, db') \<Rightarrow> (assessment_require_trusted_time lib assessment, db'))"

definition prepare_external_effect ::
  "rfc3339 \<Rightarrow> security_clock_sample option \<Rightarrow> security_clock_sample option \<Rightarrow> bool \<Rightarrow> string \<Rightarrow> string \<Rightarrow> int
   \<Rightarrow> string \<Rightarrow> external_effect_kind \<Rightarrow> string \<Rightarrow> 'r time_db \<Rightarrow> external_time_permit tm_result \<times> 'r time_db" where
  "prepare_external_effect lib before sample commits marker owner_id owner_epoch task_id kind subject_id db =
     (if \<not> subject_valid owner_epoch task_id subject_id
      then (Inl (InvalidRecord ''invalid in-flight time subject''), db)
      else case protected_now lib before db of
        (Inl error, db) \<Rightarrow> (Inl error, db)
      | (Inr _, db) \<Rightarrow>
          (case prepare_in lib sample marker owner_id owner_epoch task_id kind subject_id db of
             (Inl error, None) \<Rightarrow> (Inl error, db)
           | (Inl error, Some fresh) \<Rightarrow> deny_with_sample lib fresh error db
           | (Inr (permit, db'), Some fresh) \<Rightarrow>
               if commits then (Inr permit, db') else deny_with_sample lib fresh (Storage ''commit failed'') db
           | (Inr (permit, db'), None) \<Rightarrow> (Inr permit, db')))"

definition permit_matches_locked :: "external_time_permit \<Rightarrow> 'r time_db \<Rightarrow> unit tm_result" where
  "permit_matches_locked permit db =
     and_then (assert_manager_lease db (pm_owner_id permit) (pm_owner_epoch permit)) (\<lambda>_.
     ensure
       (list_ex (\<lambda>p. pr_marker_id p = pm_marker_id permit \<and> pr_task_id p = pm_task_id permit \<and>
                     pr_subject_kind p = external_effect_kind_as_str (pm_subject_kind permit) \<and>
                     pr_subject_id p = pm_subject_id permit \<and> pr_owner_id p = pm_owner_id permit \<and>
                     pr_owner_epoch p = pm_owner_epoch permit \<and>
                     pr_state_revision p = pm_prepared_state_revision permit) (db_preparations db) \<and>
        pm_marker_id permit \<in> set (db_pending db) \<and>
        pm_marker_id permit \<notin> set (map re_marker_id (db_resolutions db)))
       (InvalidRecord ''TIME_UNCERTAIN''))"

definition capture_external_entry ::
  "rfc3339 \<Rightarrow> security_clock_sample option \<Rightarrow> external_time_permit \<Rightarrow> 'r time_db \<Rightarrow> external_entry_sample tm_result" where
  "capture_external_entry lib sample permit db =
     and_then (permit_matches_locked permit db) (\<lambda>_.
     and_then (capture_locked_with_permit lib sample (Some (pm_marker_id permit)) db) (\<lambda>observation.
     Inr \<lparr>es_marker_id = pm_marker_id permit, es_observation = observation, es_committed_state_revision = None\<rparr>))"

definition entry_commit_context_in ::
  "rfc3339 \<Rightarrow> external_entry_sample \<Rightarrow> 'r time_db
   \<Rightarrow> (protected_time_context \<times> external_entry_sample \<times> 'r time_db) tm_result" where
  "entry_commit_context_in lib entry db =
     (if es_committed_state_revision entry \<noteq> None then Inl (InvalidRecord ''TIME_UNCERTAIN'')
      else and_then (observation_commit_context_in lib (es_observation entry) db) (\<lambda>(context, db).
           Inr (context, entry\<lparr>es_committed_state_revision := Some (pc_state_revision context)\<rparr>, db)))"

definition entry_assessment ::
  "rfc3339 \<Rightarrow> external_entry_sample \<Rightarrow> 'r time_db \<Rightarrow> (time_assessment \<times> 'r time_db) tm_result" where
  "entry_assessment lib entry db =
     (case es_committed_state_revision entry of
        None \<Rightarrow> observation_commit_in lib (es_observation entry) db
      | Some committed \<Rightarrow>
          (case db_time_state db of
             None \<Rightarrow> Inl no_rows
           | Some s \<Rightarrow>
               if ts_revision s \<noteq> committed \<or> ts_confidence s \<noteq> ''TRUSTED_LOCAL''
               then Inl (InvalidRecord ''TIME_UNCERTAIN'')
               else Inr (\<lparr>ta_confidence = ts_confidence s, ta_effective_nanos = ts_expiry_floor s\<rparr>, db)))"

definition resolve_external_entry_in_kind ::
  "rfc3339 \<Rightarrow> external_time_permit \<Rightarrow> external_entry_sample \<Rightarrow> external_resolution_kind \<Rightarrow> 'r time_db
   \<Rightarrow> (time_assessment \<times> 'r time_db) tm_result" where
  "resolve_external_entry_in_kind lib permit entry kind db =
     (if es_marker_id entry \<noteq> pm_marker_id permit then Inl (InvalidRecord ''TIME_UNCERTAIN'')
      else
        and_then (permit_matches_locked permit db) (\<lambda>_.
        and_then (if kind = EffectInvoked
                  then and_then (observation_require_trusted_time lib (es_observation entry)) (\<lambda>_. Inr ())
                  else Inr ()) (\<lambda>_.
        and_then (entry_assessment lib entry db) (\<lambda>(assessment, db).
        and_then (if kind = EffectInvoked
                  then and_then (assessment_require_trusted_time lib assessment) (\<lambda>_. Inr ())
                  else Inr ()) (\<lambda>_.
        case current_observation db of
          None \<Rightarrow> Inl no_rows
        | Some (s, o') \<Rightarrow>
            and_then
              (insert_resolution
                \<lparr>re_marker_id = pm_marker_id permit, re_state_revision = ts_revision s,
                 re_entry_observed = ob_observed o', re_kind = external_resolution_kind_as_str kind\<rparr> db) (\<lambda>db.
            Inr (assessment, db)))))))"


section \<open>Protected transactions\<close>

definition with_protected_immediate ::
  "rfc3339 \<Rightarrow> security_clock_sample option \<Rightarrow> security_clock_sample option \<Rightarrow> bool
   \<Rightarrow> ('r time_db \<Rightarrow> string \<Rightarrow> ('a \<times> 'r time_db) tm_result) \<Rightarrow> 'r time_db \<Rightarrow> 'a tm_result \<times> 'r time_db" where
  "with_protected_immediate lib before sample commits operation db =
     (case protected_now lib before db of
        (Inl error, db) \<Rightarrow> (Inl error, db)
      | (Inr _, db) \<Rightarrow>
          (case capture_locked lib sample db of
             Inl error \<Rightarrow> (Inl error, db)
           | Inr fresh \<Rightarrow>
               (case observation_require_trusted_time lib fresh of
                  Inl error \<Rightarrow> deny_with_sample lib fresh error db
                | Inr now \<Rightarrow>
                    (case and_then (operation db now) (\<lambda>(value, db).
                          and_then (observation_commit_in lib fresh db) (\<lambda>(assessment, db).
                          and_then (assessment_require_trusted_time lib assessment) (\<lambda>_. Inr (value, db)))) of
                       Inl error \<Rightarrow> deny_with_sample lib fresh error db
                     | Inr (value, db') \<Rightarrow>
                         if commits then (Inr value, db')
                         else deny_with_sample lib fresh (Storage ''commit failed'') db))))"

definition with_protected_observation ::
  "rfc3339 \<Rightarrow> security_clock_sample option \<Rightarrow> security_clock_sample option \<Rightarrow> bool
   \<Rightarrow> ('r time_db \<Rightarrow> protected_time_context \<Rightarrow> ('a \<times> 'r time_db) tm_result) \<Rightarrow> 'r time_db
   \<Rightarrow> 'a tm_result \<times> 'r time_db" where
  "with_protected_observation lib before sample commits operation db =
     (case protected_now lib before db of
        (Inl error, db) \<Rightarrow> (Inl error, db)
      | (Inr _, db) \<Rightarrow>
          (case capture_locked lib sample db of
             Inl error \<Rightarrow> (Inl error, db)
           | Inr fresh \<Rightarrow>
               (case observation_require_trusted_time lib fresh of
                  Inl error \<Rightarrow> deny_with_sample lib fresh error db
                | Inr now \<Rightarrow>
                    (case and_then (observation_commit_context_in lib fresh db) (\<lambda>(context, db). operation db context) of
                       Inl error \<Rightarrow> deny_with_sample lib fresh error db
                     | Inr (value, db') \<Rightarrow>
                         if commits then (Inr value, db')
                         else deny_with_sample lib fresh (Storage ''commit failed'') db))))"


section \<open>Leases and clock sessions\<close>

definition session_time_exact :: "'r time_db \<Rightarrow> string \<Rightarrow> int \<Rightarrow> int \<Rightarrow> int \<Rightarrow> int \<Rightarrow> bool" where
  "session_time_exact db owner epoch monotonic observed revision =
     (db_lease db = Some (owner, epoch) \<and>
      (case current_observation db of
         None \<Rightarrow> False
       | Some (s, o') \<Rightarrow>
           ts_confidence s = ''TRUSTED_LOCAL'' \<and> ob_confidence o' = ''TRUSTED_LOCAL'' \<and> ts_revision s = revision \<and>
           ob_monotonic o' = Some monotonic \<and> ob_observed o' = Some observed))"

definition advanceable :: "string \<Rightarrow> int \<Rightarrow> protected_time_context \<Rightarrow> clock_session_row \<Rightarrow> bool" where
  "advanceable owner epoch time c =
     (cs_session_id c = owner \<and> cs_owner_id c = owner \<and> cs_owner_epoch c = epoch \<and>
      cs_high_water_monotonic c \<le> pc_monotonic_nanos time \<and> cs_high_water_revision c < pc_state_revision time)"

definition advance_session :: "protected_time_context \<Rightarrow> clock_session_row \<Rightarrow> clock_session_row" where
  "advance_session time c =
     c\<lparr>cs_high_water_monotonic := pc_monotonic_nanos time, cs_high_water_observed := pc_observed_unix_nanos time,
       cs_high_water_revision := pc_state_revision time, cs_revision := cs_revision c + 1\<rparr>"

definition advance_clock_session_in ::
  "string \<Rightarrow> int \<Rightarrow> protected_time_context \<Rightarrow> 'r time_db \<Rightarrow> 'r time_db tm_result" where
  "advance_clock_session_in owner epoch time db =
     and_then (assert_manager_lease db owner epoch) (\<lambda>_.
     if length (filter (advanceable owner epoch time) (db_sessions db)) \<noteq> 1
     then Inl (InvalidRecord ''CLOCK_SESSION_INVALID'')
     else if \<not> session_time_exact db owner epoch (pc_monotonic_nanos time) (pc_observed_unix_nanos time)
                (pc_state_revision time)
     then Inl (Storage ''clock session high-water cannot regress or detach'')
     else Inr (db\<lparr>db_sessions :=
       map (\<lambda>c. if advanceable owner epoch time c then advance_session time c else c) (db_sessions db)\<rparr>))"

definition insert_clock_session :: "clock_session_row \<Rightarrow> 'r time_db \<Rightarrow> 'r time_db tm_result" where
  "insert_clock_session row db =
     (if list_ex (\<lambda>c. cs_session_id c = cs_session_id row \<or>
                     (cs_owner_id c = cs_owner_id row \<and> cs_owner_epoch c = cs_owner_epoch row)) (db_sessions db) \<or>
         \<not> session_time_exact db (cs_owner_id row) (cs_owner_epoch row) (cs_high_water_monotonic row)
             (cs_high_water_observed row) (cs_high_water_revision row)
      then Inl (Storage ''clock session lacks exact lease and paired time'')
      else if \<not> marker_text_valid (cs_session_id row) \<or> cs_owner_id row = [] \<or> cs_owner_epoch row < 1 \<or>
              cs_high_water_monotonic row < 0
      then Inl (Storage ''CHECK constraint failed: authority_clock_sessions'')
      else Inr (db\<lparr>db_sessions := db_sessions db @ [row]\<rparr>))"

definition open_session ::
  "string \<Rightarrow> int \<Rightarrow> 'r time_db \<Rightarrow> protected_time_context \<Rightarrow> (unit \<times> 'r time_db) tm_result" where
  "open_session owner epoch db time =
     and_then (assert_manager_lease db owner epoch) (\<lambda>_.
     and_then
       (insert_clock_session
         \<lparr>cs_session_id = owner, cs_owner_id = owner, cs_owner_epoch = epoch,
          cs_high_water_monotonic = pc_monotonic_nanos time, cs_high_water_observed = pc_observed_unix_nanos time,
          cs_high_water_revision = pc_state_revision time, cs_revision = 1\<rparr> db) (\<lambda>db. Inr ((), db)))"

text \<open>A manager that opens the store takes the lease with a fresh owner and the next epoch.\<close>

definition claim :: "string \<Rightarrow> 'r time_db \<Rightarrow> 'r time_db" where
  "claim owner db =
     db\<lparr>db_lease := Some (owner, (case db_lease db of None \<Rightarrow> 1 | Some (_, epoch) \<Rightarrow> epoch + 1))\<rparr>"

definition initialize_clock_session ::
  "rfc3339 \<Rightarrow> security_clock_sample option \<Rightarrow> security_clock_sample option \<Rightarrow> security_clock_sample option \<Rightarrow> bool
   \<Rightarrow> string \<Rightarrow> int \<Rightarrow> 'r time_db \<Rightarrow> unit tm_result \<times> 'r time_db" where
  "initialize_clock_session lib startup before sample commits owner epoch db =
     (case startup_assess lib startup db of
        (Inl error, db) \<Rightarrow> (Inl error, db)
      | (Inr assessment, db) \<Rightarrow>
          (case assessment_require_trusted_time lib assessment of
             Inl _ \<Rightarrow> (Inr (), db)
           | Inr _ \<Rightarrow>
               (case with_protected_observation lib before sample commits (open_session owner epoch) db of
                  (Inr (), db) \<Rightarrow> (Inr (), db)
                | (Inl error, db) \<Rightarrow>
                    if error = InvalidRecord ''TIME_UNCERTAIN'' then (Inr (), db) else (Inl error, db))))"


section \<open>The coherence check of startup\<close>

definition preparation_incoherent :: "'r time_db \<Rightarrow> preparation_row \<Rightarrow> bool" where
  "preparation_incoherent db p =
     (let resolved = pr_marker_id p \<in> set (map re_marker_id (db_resolutions db));
          pending = pr_marker_id p \<in> set (db_pending db)
      in pr_task_id p \<notin> set (db_tasks db) \<or>
         (case observation_at (db_observations db) (pr_state_revision p) of
            None \<Rightarrow> True
          | Some o' \<Rightarrow> ob_confidence o' \<noteq> ''TRUSTED_LOCAL'' \<or> ob_observed o' \<noteq> Some (pr_observed p)) \<or>
         pr_owner_id p = [] \<or> pr_owner_epoch p < 1 \<or> (\<not> resolved \<and> \<not> pending) \<or> (resolved \<and> pending))"

definition resolution_incoherent :: "'r time_db \<Rightarrow> resolution_row \<Rightarrow> bool" where
  "resolution_incoherent db r =
     (case (find (\<lambda>p. pr_marker_id p = re_marker_id r) (db_preparations db),
            observation_at (db_observations db) (re_state_revision r)) of
        (Some p, Some o') \<Rightarrow>
          re_state_revision r \<le> pr_state_revision p \<or> ob_observed o' \<noteq> re_entry_observed r \<or>
          (re_kind r = ''EFFECT_INVOKED'' \<and> (ob_confidence o' \<noteq> ''TRUSTED_LOCAL'' \<or> ob_observed o' = None)) \<or>
          (re_kind r = ''NO_EFFECT'' \<and>
           ob_confidence o' \<noteq> ''TRUSTED_LOCAL'' \<and> ob_confidence o' \<noteq> ''TIME_UNCERTAIN'')
      | _ \<Rightarrow> True)"

definition inflight_rows_coherent :: "'r time_db \<Rightarrow> bool" where
  "inflight_rows_coherent db =
     (\<not> list_ex (preparation_incoherent db) (db_preparations db) \<and>
      \<not> list_ex (resolution_incoherent db) (db_resolutions db) \<and>
      list_all (\<lambda>m. m \<in> set (map pr_marker_id (db_preparations db))) (db_pending db))"

end
