(* ===== verification/Aios_Time_Safety.thy ===== *)
theory Aios_Time_Safety
  imports Aios_Time
begin

text \<open>
  What the trusted clock guarantees. The ledger invariant says how the state row, the observation
  ledger and the in-flight tables fit together; \<open>store_step\<close> lists the atomic changes of the store,
  every operation of \<open>Aios_Time\<close> is a sequence of them (\<open>time_ops\<close>), and \<open>time_step\<close> is one operation
  of the manager. By rule induction the invariant holds in every reachable store; the order
  \<open>clock_le\<close> collects what never moves backward. The properties follow: no trigger of the schema
  ever aborts an honest store, trusted time is monotone, uncertainty is latched, protected
  transactions are atomic with their sample, and a crash with an effect in flight is detected.
\<close>

section \<open>The ledger invariant\<close>

text \<open>The highest wall time of a sequence of observations.\<close>

definition high_of :: "int option list \<Rightarrow> int option" where
  "high_of obs = foldl merge_max None obs"

lemma high_of_snoc: "high_of (obs @ [o']) = merge_max (high_of obs) o'"
  by (simp add: high_of_def)

lemma merge_max_self: "merge_max a (merge_max a b) = merge_max a b"
  by (auto simp: merge_max_def split: option.splits)

lemma merge_max_ge: "not_below (merge_max a b) a" "not_below (merge_max a b) b"
  by (auto simp: merge_max_def not_below_def split: option.splits)

lemma merge_max_None_iff: "merge_max a b = None \<longleftrightarrow> a = None \<and> b = None"
  by (auto simp: merge_max_def split: option.splits)

lemma not_below_refl: "not_below a a"
  by (auto simp: not_below_def split: option.splits)

lemma not_below_trans: "not_below a b \<Longrightarrow> not_below b c \<Longrightarrow> not_below a c"
  by (auto simp: not_below_def split: option.splits)

definition numbered :: "observation_row list \<Rightarrow> bool" where
  "numbered obs \<longleftrightarrow> map ob_state_revision obs = map int [1..<Suc (length obs)]"

definition ledger_exact :: "observation_row list \<Rightarrow> bool" where
  "ledger_exact obs \<longleftrightarrow>
     (\<forall>i<length obs. ob_high_water (obs ! i) = high_of (map ob_observed (take (Suc i) obs)) \<and>
                     ob_expiry_floor (obs ! i) = ob_high_water (obs ! i))"

text \<open>
  A trusted state has only trusted observations behind it, and none of them fell back by more than
  the tolerance behind the highest wall time before it.
\<close>

definition ledger_trusted :: "string \<Rightarrow> observation_row list \<Rightarrow> bool" where
  "ledger_trusted confidence obs \<longleftrightarrow>
     (confidence = ''TRUSTED_LOCAL'' \<longrightarrow>
      (\<forall>o'\<in>set obs. ob_confidence o' = ''TRUSTED_LOCAL'' \<and> ob_observed o' \<noteq> None) \<and>
      (\<forall>i<length obs. \<not> rolled_back (ob_observed (obs ! i)) (high_of (map ob_observed (take i obs)))))"

text \<open>Wall times are \<open>i64\<close> values.\<close>

definition ledger_bounded :: "observation_row list \<Rightarrow> bool" where
  "ledger_bounded obs \<longleftrightarrow>
     (\<forall>o'\<in>set obs. case ob_observed o' of None \<Rightarrow> True | Some w \<Rightarrow> - i64_max - 1 \<le> w \<and> w \<le> i64_max)"

definition state_of_ledger :: "time_state_row \<Rightarrow> observation_row list \<Rightarrow> bool" where
  "state_of_ledger s obs \<longleftrightarrow>
     ts_revision s = int (length obs) \<and> ts_high_water s = high_of (map ob_observed obs) \<and>
     ts_expiry_floor s = ts_high_water s \<and>
     (if obs = [] then ts_confidence s = ''UNASSESSED''
      else ts_confidence s = ob_confidence (last obs) \<and>
           (ts_confidence s = ''TRUSTED_LOCAL'' \<or> ts_confidence s = ''TIME_UNCERTAIN''))"

definition time_inv :: "'r time_db \<Rightarrow> bool" where
  "time_inv db \<longleftrightarrow>
     (\<exists>s. db_time_state db = Some s \<and> state_of_ledger s (db_observations db) \<and>
          ledger_trusted (ts_confidence s) (db_observations db)) \<and>
     numbered (db_observations db) \<and> ledger_exact (db_observations db) \<and> ledger_bounded (db_observations db)"

lemma numbered_snoc:
  "numbered (obs @ [o']) \<longleftrightarrow> numbered obs \<and> ob_state_revision o' = int (length obs) + 1"
  by (auto simp: numbered_def)

lemma numbered_nth: "numbered obs \<Longrightarrow> i < length obs \<Longrightarrow> ob_state_revision (obs ! i) = int i + 1"
proof -
  assume n: "numbered obs" and i: "i < length obs"
  have "map ob_state_revision obs ! i = map int [1..<Suc (length obs)] ! i"
    using n by (simp add: numbered_def)
  with i show ?thesis by (simp del: upt_Suc)
qed

lemma numbered_revision:
  assumes "numbered obs" and "o' \<in> set obs"
  shows "1 \<le> ob_state_revision o' \<and> ob_state_revision o' \<le> int (length obs)"
proof -
  obtain i where "i < length obs" "o' = obs ! i" using assms(2) by (auto simp: in_set_conv_nth)
  then show ?thesis using numbered_nth [OF assms(1)] by simp
qed

lemma latest_observation_last:
  assumes "numbered obs" and "obs \<noteq> []"
  shows "latest_observation obs = Some (last obs)"
proof -
  have "latest_observation xs = Some (last xs)"
    if "xs \<noteq> []" "sorted_wrt (\<lambda>a b. ob_state_revision a < ob_state_revision b) xs" for xs
    using that by (induction xs) (auto split: option.splits)
  moreover have "sorted_wrt (\<lambda>a b. ob_state_revision a < ob_state_revision b) obs"
    using assms(1) numbered_nth by (auto simp: sorted_wrt_iff_nth_less)
  ultimately show ?thesis using assms(2) by blast
qed

lemma observation_at_nth:
  assumes "numbered obs" and "i < length obs"
  shows "observation_at obs (int i + 1) = Some (obs ! i)"
proof -
  have "find (\<lambda>o'. ob_state_revision o' = int i + 1) obs = Some (obs ! i)"
    unfolding find_Some_iff using assms numbered_nth [OF assms(1)] by (intro exI [of _ i]) auto
  then show ?thesis by (simp add: observation_at_def)
qed

lemma observation_at_last:
  assumes "numbered obs" and "obs \<noteq> []"
  shows "observation_at obs (int (length obs)) = Some (last obs)"
proof -
  have "int (length obs - 1) + 1 = int (length obs)" using assms(2) by (cases obs) auto
  then show ?thesis using observation_at_nth [OF assms(1), of "length obs - 1"] assms(2)
    by (simp add: last_conv_nth)
qed

lemma observation_at_None: "numbered obs \<Longrightarrow> int (length obs) < r \<Longrightarrow> observation_at obs r = None"
  by (auto simp: observation_at_def find_None_iff dest: numbered_revision)

lemma observation_at_append:
  "observation_at obs r = Some o' \<Longrightarrow> observation_at (obs @ later) r = Some o'"
  unfolding observation_at_def by (induction obs) auto

lemma ledger_exact_snoc:
  assumes "ledger_exact obs"
  shows "ledger_exact (obs @ [o']) \<longleftrightarrow>
    ob_high_water o' = merge_max (high_of (map ob_observed obs)) (ob_observed o') \<and>
    ob_expiry_floor o' = ob_high_water o'"
  using assms unfolding ledger_exact_def
  by (auto simp: nth_append less_Suc_eq high_of_snoc)

lemma time_invE:
  assumes "time_inv db"
  obtains s where "db_time_state db = Some s" "state_of_ledger s (db_observations db)"
    "ledger_trusted (ts_confidence s) (db_observations db)" "numbered (db_observations db)"
    "ledger_exact (db_observations db)" "ledger_bounded (db_observations db)"
  using assms by (auto simp: time_inv_def)

lemma time_inv_audit_tail:
  assumes "time_inv db"
  shows "state_matches_audit_tail db"
  using assms
proof (rule time_invE)
  fix s assume s: "db_time_state db = Some s" "state_of_ledger s (db_observations db)"
    and n: "numbered (db_observations db)" and e: "ledger_exact (db_observations db)"
  show ?thesis
  proof (cases "db_observations db = []")
    case True
    with s show ?thesis by (simp add: state_matches_audit_tail_def state_of_ledger_def high_of_def)
  next
    case False
    let ?obs = "db_observations db" and ?k = "length (db_observations db) - 1"
    have k: "?k < length ?obs" "Suc ?k = length ?obs" using False by auto
    have "ob_high_water (last ?obs) = high_of (map ob_observed ?obs)"
      "ob_expiry_floor (last ?obs) = ob_high_water (last ?obs)"
      using e k False by (auto simp: ledger_exact_def last_conv_nth)
    moreover have "ob_state_revision (last ?obs) = int (length ?obs)"
      using numbered_nth [OF n k(1)] k False by (simp add: last_conv_nth)
    ultimately show ?thesis
      using s False latest_observation_last [OF n False]
      by (simp add: state_matches_audit_tail_def state_of_ledger_def observation_columns_def state_columns_def)
  qed
qed

lemma fold_min_le:
  fixes xs :: "int list"
  shows "(\<forall>x\<in>set xs. a \<le> x) \<Longrightarrow>
    fold (\<lambda>r m. Some (case m of None \<Rightarrow> r | Some a \<Rightarrow> min a r)) xs (Some a) = Some a"
  by (induction xs) (auto simp: min_def)

lemma time_inv_audit:
  assumes "time_inv db"
  shows "state_matches_audit db"
  using assms
proof (rule time_invE)
  fix s assume s: "db_time_state db = Some s" "state_of_ledger s (db_observations db)"
    and n: "numbered (db_observations db)" and e: "ledger_exact (db_observations db)"
  show ?thesis
  proof (cases "db_observations db")
    case Nil
    with s show ?thesis by (simp add: state_matches_audit_def state_of_ledger_def high_of_def)
  next
    case (Cons a as)
    let ?obs = "db_observations db"
    have ne: "?obs \<noteq> []" using Cons by simp
    have tail: "ob_state_revision (last ?obs) = ts_revision s" "observation_columns (last ?obs) = state_columns s"
      using time_inv_audit_tail [OF assms] s ne latest_observation_last [OF n ne]
      by (auto simp: state_matches_audit_tail_def state_of_ledger_def)
    have a: "ob_state_revision a = 1" using numbered_nth [OF n, of 0] Cons by simp
    have "\<forall>x\<in>set (map ob_state_revision as). 1 \<le> x" using numbered_revision [OF n] Cons by auto
    then have "fold (\<lambda>r m. Some (case m of None \<Rightarrow> r | Some a \<Rightarrow> min a r)) (map ob_state_revision ?obs) None = Some 1"
      using fold_min_le [of "map ob_state_revision as" 1] a Cons by simp
    then show ?thesis
      using s ne tail latest_observation_last [OF n ne] observation_at_last [OF n ne]
      by (simp add: state_matches_audit_def state_of_ledger_def observation_columns_def state_columns_def)
  qed
qed

text \<open>The store after a sample, and what the next state promises.\<close>

definition recorded ::
  "rfc3339 \<Rightarrow> security_clock_sample option \<Rightarrow> bool \<Rightarrow> time_state_row \<Rightarrow> 'r time_db \<Rightarrow> 'r time_db" where
  "recorded lib sample unresolved old db =
     (let new = next_time_state old unresolved (fst (sample_columns lib sample)) (ts_revision old + 1)
      in db\<lparr>db_time_state := Some new,
            db_observations := db_observations db @ [ledger_row new (sample_columns lib sample)]\<rparr>)"

lemma recorded_simps [simp]:
  "db_time_state (recorded lib sample u old db) =
     Some (next_time_state old u (fst (sample_columns lib sample)) (ts_revision old + 1))"
  "db_observations (recorded lib sample u old db) = db_observations db @
     [ledger_row (next_time_state old u (fst (sample_columns lib sample)) (ts_revision old + 1)) (sample_columns lib sample)]"
  "db_lease (recorded lib sample u old db) = db_lease db"
  "db_tasks (recorded lib sample u old db) = db_tasks db"
  "db_preparations (recorded lib sample u old db) = db_preparations db"
  "db_resolutions (recorded lib sample u old db) = db_resolutions db"
  "db_pending (recorded lib sample u old db) = db_pending db"
  "db_sessions (recorded lib sample u old db) = db_sessions db"
  "db_rest (recorded lib sample u old db) = db_rest db"
  by (simp_all add: recorded_def Let_def)

lemma next_time_state_simps [simp]:
  "ts_revision (next_time_state old u ob r) = r"
  "ts_high_water (next_time_state old u ob r) = merge_max (ts_high_water old) ob"
  "ts_expiry_floor (next_time_state old u ob r) = merge_max (ts_expiry_floor old) (merge_max (ts_high_water old) ob)"
  "ts_confidence (next_time_state old u ob r) = next_confidence (ts_confidence old) u ob (ts_high_water old)"
  by (simp_all add: next_time_state_def Let_def)

lemma ledger_row_simps [simp]:
  "ob_state_revision (ledger_row new cs) = ts_revision new"
  "ob_observed (ledger_row new cs) = fst cs"
  "ob_monotonic (ledger_row new cs) = fst (snd cs)"
  "ob_high_water (ledger_row new cs) = ts_high_water new"
  "ob_expiry_floor (ledger_row new cs) = ts_expiry_floor new"
  "ob_confidence (ledger_row new cs) = ts_confidence new"
  by (auto simp: ledger_row_def split: prod.splits)

lemma next_confidence_cases:
  "next_confidence c u ob h = ''TRUSTED_LOCAL'' \<or> next_confidence c u ob h = ''TIME_UNCERTAIN''"
  by (simp add: next_confidence_def)

lemma next_confidence_trusted:
  "next_confidence c u ob h = ''TRUSTED_LOCAL'' \<longleftrightarrow>
     c \<noteq> ''TIME_UNCERTAIN'' \<and> \<not> u \<and> ob \<noteq> None \<and> \<not> rolled_back ob h"
  by (simp add: next_confidence_def)

lemma recorded_state_of_ledger:
  assumes "state_of_ledger old obs"
  shows "state_of_ledger (next_time_state old u (fst cs) (ts_revision old + 1))
    (obs @ [ledger_row (next_time_state old u (fst cs) (ts_revision old + 1)) cs])"
  using assms next_confidence_cases [of "ts_confidence old" u "fst cs" "ts_high_water old"]
  by (simp add: state_of_ledger_def high_of_snoc merge_max_self)

lemma state_of_ledger_confidence:
  "state_of_ledger s obs \<Longrightarrow> obs \<noteq> [] \<Longrightarrow>
   ts_confidence s = ''TRUSTED_LOCAL'' \<or> ts_confidence s = ''TIME_UNCERTAIN''"
  by (auto simp: state_of_ledger_def)

lemma ledger_trusted_snoc:
  "ledger_trusted c (obs @ [o']) \<longleftrightarrow> ledger_trusted c obs \<and>
     (c = ''TRUSTED_LOCAL'' \<longrightarrow> ob_confidence o' = ''TRUSTED_LOCAL'' \<and> ob_observed o' \<noteq> None \<and>
        \<not> rolled_back (ob_observed o') (high_of (map ob_observed obs)))"
  unfolding ledger_trusted_def by (auto simp: nth_append less_Suc_eq)

lemma ledger_trusted_later:
  "c = ''TRUSTED_LOCAL'' \<Longrightarrow> ledger_trusted c obs \<Longrightarrow> ledger_trusted d obs"
  unfolding ledger_trusted_def by blast

lemma recorded_trusted:
  assumes "ledger_trusted (ts_confidence old) obs" and "state_of_ledger old obs"
  shows "ledger_trusted (next_confidence (ts_confidence old) u (fst cs) (ts_high_water old))
    (obs @ [ledger_row (next_time_state old u (fst cs) r) cs])"
proof -
  let ?c = "next_confidence (ts_confidence old) u (fst cs) (ts_high_water old)"
  have h: "ts_high_water old = high_of (map ob_observed obs)" using assms(2) by (simp add: state_of_ledger_def)
  have "ledger_trusted ?c obs" if t: "?c = ''TRUSTED_LOCAL''"
  proof (cases "obs = []")
    case True
    then show ?thesis by (simp add: ledger_trusted_def)
  next
    case False
    have "ts_confidence old \<noteq> ''TIME_UNCERTAIN''" using t unfolding next_confidence_trusted by blast
    then have "ts_confidence old = ''TRUSTED_LOCAL''"
      using state_of_ledger_confidence [OF assms(2) False] by blast
    then show ?thesis using assms(1) by (rule ledger_trusted_later)
  qed
  moreover have "ledger_trusted ?c obs" if "?c \<noteq> ''TRUSTED_LOCAL''"
    using that by (simp only: ledger_trusted_def simp_thms)
  moreover have "ob_observed (ledger_row (next_time_state old u (fst cs) r) cs) = fst cs"
    "ob_confidence (ledger_row (next_time_state old u (fst cs) r) cs) = ?c" by simp_all
  ultimately show ?thesis
    unfolding ledger_trusted_snoc using h by (metis next_confidence_trusted)
qed

lemma sample_columns_bounded:
  "fst (sample_columns lib sample) = Some w \<Longrightarrow> - i64_max - 1 \<le> w \<and> w \<le> i64_max"
  by (auto simp: sample_columns_def parse_rfc_nanos_def i64_checked_Some_iff Option.bind_eq_Some_conv
      split: option.splits prod.splits)

lemma time_inv_recorded:
  assumes "time_inv db" and "db_time_state db = Some old"
  shows "time_inv (recorded lib sample u old db)"
  using assms(1)
proof (rule time_invE)
  let ?cs = "sample_columns lib sample"
  fix s assume "db_time_state db = Some s" and s: "state_of_ledger s (db_observations db)"
    and t: "ledger_trusted (ts_confidence s) (db_observations db)"
    and n: "numbered (db_observations db)" and e: "ledger_exact (db_observations db)"
    and bd: "ledger_bounded (db_observations db)"
  then have [simp]: "s = old" using assms(2) by simp
  have "ledger_bounded (db_observations (recorded lib sample u old db))"
    using bd sample_columns_bounded [of lib sample] by (auto simp: ledger_bounded_def split: option.splits)
  moreover have fl: "ts_expiry_floor old = ts_high_water old" "ts_revision old = int (length (db_observations db))"
    "ts_high_water old = high_of (map ob_observed (db_observations db))"
    using s by (auto simp: state_of_ledger_def)
  moreover have "numbered (db_observations (recorded lib sample u old db))"
    "ledger_exact (db_observations (recorded lib sample u old db))"
    using n by (simp_all add: numbered_snoc ledger_exact_snoc [OF e] fl merge_max_self)
  ultimately show ?thesis
    using recorded_state_of_ledger [OF s, of u ?cs] recorded_trusted [OF t s, of u ?cs "ts_revision old + 1"]
    by (simp add: time_inv_def)
qed

text \<open>
  In a store that satisfies the invariant no trigger or constraint ever aborts: the only failure
  left is the exhaustion of the revision counter.
\<close>

lemma apply_sample_recorded:
  assumes "time_inv db" and "db_time_state db = Some old" and "ts_revision old < i64_max"
  shows "apply_sample_with_unresolved lib sample u db =
    Inr (\<lparr>ta_confidence = next_confidence (ts_confidence old) u (fst (sample_columns lib sample)) (ts_high_water old),
          ta_effective_nanos = merge_max (ts_high_water old) (fst (sample_columns lib sample))\<rparr>,
         recorded lib sample u old db)"
  using assms(1)
proof (rule time_invE)
  let ?ob = "fst (sample_columns lib sample)"
  let ?new = "next_time_state old u ?ob (ts_revision old + 1)"
  fix s assume "db_time_state db = Some s" and s: "state_of_ledger s (db_observations db)"
    and n: "numbered (db_observations db)"
  then have [simp]: "s = old" using assms(2) by simp
  have floor: "ts_expiry_floor old = ts_high_water old" and rev: "ts_revision old = int (length (db_observations db))"
    using s by (auto simp: state_of_ledger_def)
  have valid: "stored_state_valid old"
    using s by (auto simp: stored_state_valid_def state_of_ledger_def floor_covers_def split: if_splits option.splits)
  have chk: "i64_checked (ts_revision old + 1) = Some (ts_revision old + 1)"
    using assms(3) rev by (simp add: i64_checked_def i64_max_def)
  have mono: "time_state_monotone old ?new"
    using merge_max_ge(1) [of "ts_high_water old" ?ob]
    by (simp add: time_state_monotone_def floor merge_max_self next_confidence_def)
  have "time_state_check ?new"
    using next_confidence_cases [of "ts_confidence old" u ?ob "ts_high_water old"]
    by (auto simp: time_state_check_def floor rev merge_max_self floor_covers_def next_confidence_trusted
        merge_max_None_iff split: option.splits)
  then have up: "update_time_state old ?new db = Inr (db\<lparr>db_time_state := Some ?new\<rparr>)"
    using mono by (simp add: update_time_state_def)
  have "\<not> list_ex (\<lambda>o'. ob_state_revision o' = ts_revision old + 1) (db_observations db)"
    using rev by (force simp: list_ex_iff dest: numbered_revision [OF n])
  then have "insert_observation (ledger_row ?new (sample_columns lib sample)) (db\<lparr>db_time_state := Some ?new\<rparr>) =
      Inr (recorded lib sample u old db)"
    by (simp add: insert_observation_def recorded_def Let_def)
  with up valid chk show ?thesis
    using time_inv_audit_tail [OF assms(1)] assms(2)
    by (simp add: apply_sample_with_unresolved_def Let_def floor merge_max_self)
qed

lemma apply_sample_exhausted:
  assumes "db_time_state db = Some old" and "i64_max \<le> ts_revision old"
  shows "\<exists>e. apply_sample_with_unresolved lib sample u db = Inl e"
  using assms by (simp add: apply_sample_with_unresolved_def i64_checked_def)


section \<open>Atomic steps of the store\<close>

definition lease_valid :: "'r time_db \<Rightarrow> bool" where
  "lease_valid db \<longleftrightarrow> (\<forall>owner epoch. db_lease db = Some (owner, epoch) \<longrightarrow> owner \<noteq> [] \<and> 1 \<le> epoch)"

text \<open>At most one effect is in flight, and the in-flight tables pass the check of startup.\<close>

definition store_inv :: "'r time_db \<Rightarrow> bool" where
  "store_inv db \<longleftrightarrow>
     time_inv db \<and> inflight_rows_coherent db \<and> distinct (map pr_marker_id (db_preparations db)) \<and>
     length (db_pending db) \<le> 1 \<and> lease_valid db"

text \<open>What a business operation of another component may do: it leaves the clock's tables alone.\<close>

definition same_clock :: "'r time_db \<Rightarrow> 'r time_db \<Rightarrow> bool" where
  "same_clock db db' \<longleftrightarrow>
     db_lease db' = db_lease db \<and> db_time_state db' = db_time_state db \<and> db_observations db' = db_observations db \<and>
     db_preparations db' = db_preparations db \<and> db_resolutions db' = db_resolutions db \<and>
     db_pending db' = db_pending db \<and> set (db_tasks db) \<subseteq> set (db_tasks db')"

inductive store_step :: "'r time_db \<Rightarrow> 'r time_db \<Rightarrow> bool" where
  sampled: "db_time_state db = Some old \<Longrightarrow> ts_revision old < i64_max
    \<Longrightarrow> store_step db (recorded lib sample u old db)"
| frame: "same_clock db db' \<Longrightarrow> store_step db db'"
| prepare: "db_pending db = [] \<Longrightarrow> insert_preparation row db = Inr db' \<Longrightarrow> store_step db db'"
| resolve: "insert_resolution row db = Inr db' \<Longrightarrow> store_step db db'"
| claim: "owner \<noteq> [] \<Longrightarrow> store_step db (claim owner db)"

abbreviation store_steps :: "'r time_db \<Rightarrow> 'r time_db \<Rightarrow> bool" where
  "store_steps \<equiv> store_step\<^sup>*\<^sup>*"

lemma inflight_rows_coherent_iff:
  "inflight_rows_coherent db \<longleftrightarrow>
     (\<forall>p\<in>set (db_preparations db). \<not> preparation_incoherent db p) \<and>
     (\<forall>r\<in>set (db_resolutions db). \<not> resolution_incoherent db r) \<and>
     set (db_pending db) \<subseteq> set (map pr_marker_id (db_preparations db))"
  by (auto simp: inflight_rows_coherent_def list_ex_iff list_all_iff)

lemma preparation_incoherent_mono:
  assumes "\<not> preparation_incoherent db p"
    and "\<And>r o'. observation_at (db_observations db) r = Some o' \<Longrightarrow> observation_at (db_observations db') r = Some o'"
    and "set (db_tasks db) \<subseteq> set (db_tasks db')"
    and "pr_marker_id p \<in> set (map re_marker_id (db_resolutions db')) \<longleftrightarrow> pr_marker_id p \<notin> set (db_pending db')"
  shows "\<not> preparation_incoherent db' p"
proof -
  obtain o' where o': "observation_at (db_observations db) (pr_state_revision p) = Some o'"
    using assms(1) by (cases "observation_at (db_observations db) (pr_state_revision p)")
      (simp_all add: preparation_incoherent_def)
  note o'' = assms(2) [OF o']
  have "\<not> (ob_confidence o' \<noteq> ''TRUSTED_LOCAL'' \<or> ob_observed o' \<noteq> Some (pr_observed p))"
    "pr_task_id p \<in> set (db_tasks db)" "pr_owner_id p \<noteq> []" "\<not> pr_owner_epoch p < 1"
    using assms(1) unfolding preparation_incoherent_def Let_def o' option.case by (simp_all only: de_Morgan_disj simp_thms)
  then show ?thesis
    using assms(3,4) unfolding preparation_incoherent_def Let_def o'' option.case by (simp only: simp_thms) blast
qed

lemma preparation_coherentD:
  "\<not> preparation_incoherent db p \<Longrightarrow>
   pr_marker_id p \<in> set (map re_marker_id (db_resolutions db)) \<longleftrightarrow> pr_marker_id p \<notin> set (db_pending db)"
  unfolding preparation_incoherent_def Let_def by blast

lemma resolution_incoherent_mono:
  assumes "\<not> resolution_incoherent db r"
    and "\<And>r o'. observation_at (db_observations db) r = Some o' \<Longrightarrow> observation_at (db_observations db') r = Some o'"
    and "\<And>p. find (\<lambda>p. pr_marker_id p = re_marker_id r) (db_preparations db) = Some p \<Longrightarrow>
             find (\<lambda>p. pr_marker_id p = re_marker_id r) (db_preparations db') = Some p"
  shows "\<not> resolution_incoherent db' r"
proof -
  obtain p o' where "find (\<lambda>p. pr_marker_id p = re_marker_id r) (db_preparations db) = Some p"
      and "observation_at (db_observations db) (re_state_revision r) = Some o'"
    using assms(1) unfolding resolution_incoherent_def by (auto split: option.splits)
  with assms(1) assms(2) [of "re_state_revision r" o'] assms(3) [of p] show ?thesis
    unfolding resolution_incoherent_def by simp
qed

lemma store_inv_clock:
  assumes "store_inv db" and "time_inv db'"
    and obs: "\<And>r o'. observation_at (db_observations db) r = Some o' \<Longrightarrow> observation_at (db_observations db') r = Some o'"
    and same: "db_preparations db' = db_preparations db" "db_resolutions db' = db_resolutions db"
      "db_pending db' = db_pending db" "set (db_tasks db) \<subseteq> set (db_tasks db')" and "lease_valid db'"
  shows "store_inv db'"
proof -
  have c: "inflight_rows_coherent db" using assms(1) by (simp add: store_inv_def)
  have "\<not> preparation_incoherent db' p" if "p \<in> set (db_preparations db')" for p
  proof -
    have p: "\<not> preparation_incoherent db p" using c that same(1) by (simp add: inflight_rows_coherent_iff)
    show ?thesis
      by (rule preparation_incoherent_mono [OF p obs same(4)])
        (use preparation_coherentD [OF p] same in simp_all)
  qed
  moreover have "\<not> resolution_incoherent db' r" if "r \<in> set (db_resolutions db')" for r
    by (rule resolution_incoherent_mono [of db]) (use c that same obs in \<open>simp_all add: inflight_rows_coherent_iff\<close>)
  ultimately have "inflight_rows_coherent db'"
    using c same by (simp add: inflight_rows_coherent_iff)
  with assms show ?thesis by (simp add: store_inv_def)
qed

lemma store_inv_recorded:
  assumes "store_inv db" and "db_time_state db = Some old"
  shows "store_inv (recorded lib sample u old db)"
proof (rule store_inv_clock [OF assms(1)])
  show "time_inv (recorded lib sample u old db)"
    using assms by (auto simp: store_inv_def intro: time_inv_recorded)
  show "lease_valid (recorded lib sample u old db)"
    using assms(1) by (simp add: store_inv_def lease_valid_def)
qed (simp_all add: observation_at_append)

lemma store_inv_frame:
  assumes "store_inv db" and "same_clock db db'"
  shows "store_inv db'"
proof (rule store_inv_clock [OF assms(1)])
  show "time_inv db'" "lease_valid db'"
    using assms by (simp_all add: store_inv_def time_inv_def same_clock_def lease_valid_def)
qed (use assms(2) in \<open>simp_all add: same_clock_def\<close>)

lemma store_inv_claim:
  assumes "store_inv db" and "owner \<noteq> []"
  shows "store_inv (claim owner db)"
proof (rule store_inv_clock [OF assms(1)])
  show "time_inv (claim owner db)" using assms(1) by (simp add: store_inv_def time_inv_def claim_def)
  show "lease_valid (claim owner db)"
    using assms by (fastforce simp: store_inv_def lease_valid_def claim_def split: option.splits)
qed (simp_all add: claim_def)

lemma current_observation_Some:
  "current_observation db = Some (s, o') \<longleftrightarrow>
     db_time_state db = Some s \<and> observation_at (db_observations db) (ts_revision s) = Some o'"
  by (auto simp: current_observation_def Option.bind_eq_Some_conv)

lemma insert_preparation_Inr:
  assumes "insert_preparation row db = Inr db'"
  shows "db' = db\<lparr>db_preparations := db_preparations db @ [row], db_pending := db_pending db @ [pr_marker_id row]\<rparr>"
    "pr_marker_id row \<notin> set (map pr_marker_id (db_preparations db))" "preparation_exact row db"
    "1 \<le> pr_owner_epoch row" "pr_task_id row \<in> set (db_tasks db)"
    "pr_marker_id row \<notin> set (map re_marker_id (db_resolutions db))"
  using assms by (auto simp: insert_preparation_def pending_insertable_def Let_def split: if_splits)

lemma preparation_exactD:
  assumes "preparation_exact row db"
  obtains s o' where "db_time_state db = Some s" "observation_at (db_observations db) (pr_state_revision row) = Some o'"
    "ts_confidence s = ''TRUSTED_LOCAL''" "ob_confidence o' = ''TRUSTED_LOCAL''" "ob_observed o' = Some (pr_observed row)"
    "db_lease db = Some (pr_owner_id row, pr_owner_epoch row)" "pr_state_revision row = ts_revision s"
  using assms unfolding preparation_exact_def
  by (cases "current_observation db") (auto simp: current_observation_Some)

lemma store_inv_prepare:
  assumes inv: "store_inv db" and none: "db_pending db = []" and ins: "insert_preparation row db = Inr db'"
  shows "store_inv db'"
proof -
  note i = insert_preparation_Inr [OF ins]
  have c: "inflight_rows_coherent db" and ti: "time_inv db" and lv: "lease_valid db"
    using inv by (simp_all add: store_inv_def)
  have db': "db_observations db' = db_observations db" "db_tasks db' = db_tasks db"
      "db_resolutions db' = db_resolutions db" "db_pending db' = [pr_marker_id row]"
      "db_preparations db' = db_preparations db @ [row]" "db_time_state db' = db_time_state db" "db_lease db' = db_lease db"
    using i(1) none by simp_all
  obtain s o' where e: "observation_at (db_observations db) (pr_state_revision row) = Some o'"
      "ob_confidence o' = ''TRUSTED_LOCAL''" "ob_observed o' = Some (pr_observed row)"
      "db_lease db = Some (pr_owner_id row, pr_owner_epoch row)"
    using i(3) by (rule preparation_exactD)
  have "pr_owner_id row \<noteq> []" using lv e(4) by (simp add: lease_valid_def)
  then have new: "\<not> preparation_incoherent db' row"
    using e i(4,5,6) db' by (simp add: preparation_incoherent_def)
  have old: "\<not> preparation_incoherent db' p" if p: "p \<in> set (db_preparations db)" for p
  proof -
    have pc: "\<not> preparation_incoherent db p" using c p by (simp add: inflight_rows_coherent_iff)
    have "pr_marker_id p \<noteq> pr_marker_id row" using i(2) p by (metis imageI image_set)
    moreover have "pr_marker_id p \<in> set (map re_marker_id (db_resolutions db))"
      using preparation_coherentD [OF pc] none by simp
    ultimately show ?thesis by (intro preparation_incoherent_mono [OF pc]) (simp_all add: db')
  qed
  have "\<not> resolution_incoherent db' r" if r: "r \<in> set (db_resolutions db')" for r
    by (rule resolution_incoherent_mono [of db])
      (use c r db' in \<open>auto simp: inflight_rows_coherent_iff find_Some_iff nth_append\<close>)
  then have "inflight_rows_coherent db'"
    using new old db' by (auto simp: inflight_rows_coherent_iff)
  moreover have "time_inv db'" "lease_valid db'" using ti lv db' by (simp_all add: time_inv_def lease_valid_def)
  ultimately show ?thesis using inv i(2) db' by (auto simp: store_inv_def)
qed

lemma insert_resolution_Inr:
  assumes "insert_resolution row db = Inr db'"
  shows "db' = db\<lparr>db_resolutions := db_resolutions db @ [row],
                  db_pending := filter (\<lambda>m. m \<noteq> re_marker_id row) (db_pending db)\<rparr>"
    "resolution_exact row db" "re_marker_id row \<notin> set (map re_marker_id (db_resolutions db))"
  using assms by (auto simp: insert_resolution_def list_ex_iff split: if_splits)

lemma resolution_exactD:
  assumes "resolution_exact row db"
  obtains s o' p where "db_time_state db = Some s" "observation_at (db_observations db) (re_state_revision row) = Some o'"
    "p \<in> set (db_preparations db)" "pr_marker_id p = re_marker_id row" "pr_state_revision p < re_state_revision row"
    "db_pending db = [re_marker_id row]" "ob_observed o' = re_entry_observed row" "ob_confidence o' = ts_confidence s"
    "re_state_revision row = ts_revision s"
    "re_kind row = ''EFFECT_INVOKED'' \<and> ob_confidence o' = ''TRUSTED_LOCAL'' \<and> ob_observed o' \<noteq> None \<or>
     re_kind row = ''NO_EFFECT'' \<and> (ob_confidence o' = ''TRUSTED_LOCAL'' \<or> ob_confidence o' = ''TIME_UNCERTAIN'')"
proof -
  obtain s o' owner epoch where c: "current_observation db = Some (s, o')" and l: "db_lease db = Some (owner, epoch)"
    using assms unfolding resolution_exact_def by (auto split: option.splits)
  note e = assms [unfolded resolution_exact_def c l option.case prod.case list_ex_iff]
  obtain p where p: "p \<in> set (db_preparations db)" "pr_marker_id p = re_marker_id row"
      "pr_state_revision p < ts_revision s" using e by blast
  have pend: "db_pending db = [re_marker_id row]"
    using e by (cases "db_pending db") auto
  show thesis
    by (rule that [of s o' p])
      (use c [unfolded current_observation_Some] p pend e in \<open>simp_all only: simp_thms\<close>)
qed

lemma find_marker:
  assumes "distinct (map pr_marker_id ps)" and "p \<in> set ps"
  shows "find (\<lambda>q. pr_marker_id q = pr_marker_id p) ps = Some p"
  using assms by (induction ps) (auto simp: image_iff)

lemma store_inv_resolve:
  assumes inv: "store_inv db" and ins: "insert_resolution row db = Inr db'"
  shows "store_inv db'"
proof -
  note i = insert_resolution_Inr [OF ins]
  have c: "inflight_rows_coherent db" and d: "distinct (map pr_marker_id (db_preparations db))"
    and ti: "time_inv db" and lv: "lease_valid db"
    using inv by (simp_all add: store_inv_def)
  obtain s o' p where e: "observation_at (db_observations db) (re_state_revision row) = Some o'"
      "p \<in> set (db_preparations db)" "pr_marker_id p = re_marker_id row" "pr_state_revision p < re_state_revision row"
      "db_pending db = [re_marker_id row]" "ob_observed o' = re_entry_observed row"
      "re_kind row = ''EFFECT_INVOKED'' \<and> ob_confidence o' = ''TRUSTED_LOCAL'' \<and> ob_observed o' \<noteq> None \<or>
       re_kind row = ''NO_EFFECT'' \<and> (ob_confidence o' = ''TRUSTED_LOCAL'' \<or> ob_confidence o' = ''TIME_UNCERTAIN'')"
    using i(2) by (rule resolution_exactD)
  have db': "db_observations db' = db_observations db" "db_tasks db' = db_tasks db"
      "db_resolutions db' = db_resolutions db @ [row]" "db_pending db' = []"
      "db_preparations db' = db_preparations db" "db_time_state db' = db_time_state db" "db_lease db' = db_lease db"
    using i(1) e(5) by simp_all
  have prep: "\<not> preparation_incoherent db' q" if q: "q \<in> set (db_preparations db)" for q
  proof -
    have qc: "\<not> preparation_incoherent db q" using c q by (simp add: inflight_rows_coherent_iff)
    have "pr_marker_id q \<in> set (map re_marker_id (db_resolutions db'))"
      using preparation_coherentD [OF qc] e(5) db'(3) by auto
    then show ?thesis by (intro preparation_incoherent_mono [OF qc]) (simp_all add: db')
  qed
  have "find (\<lambda>q. pr_marker_id q = re_marker_id row) (db_preparations db) = Some p"
    using find_marker [OF d e(2)] e(3) by simp
  then have "\<not> resolution_incoherent db' row"
    using e(1,4,6,7) unfolding resolution_incoherent_def db' by (elim disjE conjE) simp_all
  moreover have "\<not> resolution_incoherent db' r" if "r \<in> set (db_resolutions db)" for r
    by (rule resolution_incoherent_mono [of db]) (use c that db' in \<open>simp_all add: inflight_rows_coherent_iff\<close>)
  ultimately have "inflight_rows_coherent db'"
    using prep db' by (auto simp: inflight_rows_coherent_iff)
  moreover have "time_inv db'" "lease_valid db'" using ti lv db' by (simp_all add: time_inv_def lease_valid_def)
  ultimately show ?thesis using inv db' by (simp add: store_inv_def)
qed

lemma store_inv_step: "store_step db db' \<Longrightarrow> store_inv db \<Longrightarrow> store_inv db'"
  by (induction rule: store_step.induct)
    (blast intro: store_inv_recorded store_inv_frame store_inv_prepare store_inv_resolve store_inv_claim)+


section \<open>What never moves backward\<close>

definition floor_of :: "'r time_db \<Rightarrow> int option" where
  "floor_of db = Option.bind (db_time_state db) ts_expiry_floor"

definition uncertain :: "'r time_db \<Rightarrow> bool" where
  "uncertain db \<longleftrightarrow> map_option ts_confidence (db_time_state db) = Some ''TIME_UNCERTAIN''"

text \<open>The order of the store: the ledger grows, the floor rises, uncertainty stays, receipts stay.\<close>

definition clock_le :: "'r time_db \<Rightarrow> 'r time_db \<Rightarrow> bool" where
  "clock_le db db' \<longleftrightarrow>
     (\<exists>later. db_observations db' = db_observations db @ later) \<and> not_below (floor_of db') (floor_of db) \<and>
     (uncertain db \<longrightarrow> uncertain db') \<and> set (db_preparations db) \<subseteq> set (db_preparations db') \<and>
     set (db_resolutions db) \<subseteq> set (db_resolutions db')"

lemma clock_le_refl: "clock_le db db"
  by (auto simp: clock_le_def not_below_refl)

lemma clock_le_trans: "clock_le a b \<Longrightarrow> clock_le b c \<Longrightarrow> clock_le a c"
  unfolding clock_le_def using not_below_trans by (metis append_assoc subset_trans)

lemma clock_le_step: "store_step db db' \<Longrightarrow> clock_le db db'"
proof (induction rule: store_step.induct)
  case (sampled db old lib sample u)
  then show ?case
    using merge_max_ge(1) [of "ts_expiry_floor old" "merge_max (ts_high_water old) (fst (sample_columns lib sample))"]
    by (simp add: clock_le_def floor_of_def uncertain_def next_confidence_def)
next
  case (frame db db')
  then show ?case by (simp add: clock_le_def same_clock_def floor_of_def uncertain_def not_below_refl)
next
  case (prepare db row db')
  then show ?case
    using insert_preparation_Inr(1) [OF prepare(2)] by (auto simp: clock_le_def floor_of_def uncertain_def not_below_refl)
next
  case (resolve row db db')
  then show ?case
    using insert_resolution_Inr(1) [OF resolve] by (auto simp: clock_le_def floor_of_def uncertain_def not_below_refl)
next
  case (claim owner db)
  then show ?case by (simp add: clock_le_def claim_def floor_of_def uncertain_def not_below_refl)
qed

interpretation clock: run_system store_step store_inv clock_le
  by unfold_locales (blast intro: store_inv_step clock_le_step clock_le_refl clock_le_trans)+

lemmas store_inv_steps = clock.inv_run

text \<open>The floor covers every wall time ever observed.\<close>

lemma high_of_ge: "x \<in> set obs \<Longrightarrow> not_below (high_of obs) x"
proof (induction obs rule: rev_induct)
  case (snoc o' obs)
  then show ?case
    using merge_max_ge [of "high_of obs" o'] not_below_trans by (auto simp: high_of_snoc)
qed simp

lemma floor_covers_observations:
  assumes "store_inv db" and "o' \<in> set (db_observations db)"
  shows "not_below (floor_of db) (ob_observed o')"
proof -
  have "time_inv db" using assms(1) by (simp add: store_inv_def)
  then obtain s where s: "db_time_state db = Some s" "state_of_ledger s (db_observations db)"
    by (rule time_invE)
  then have "floor_of db = high_of (map ob_observed (db_observations db))"
    by (simp add: floor_of_def state_of_ledger_def)
  then show ?thesis using high_of_ge [of "ob_observed o'" "map ob_observed (db_observations db)"] assms(2) by simp
qed


section \<open>Every operation is a sequence of atomic steps\<close>

named_theorems time_ops \<open>each operation of the clock is a sequence of store steps\<close>

lemma apply_sample_Inr:
  assumes "store_inv db" and "apply_sample_with_unresolved lib sample u db = Inr (a, db')"
  obtains old where "db_time_state db = Some old" "db' = recorded lib sample u old db" "store_step db db'"
    "ta_confidence a = next_confidence (ts_confidence old) u (fst (sample_columns lib sample)) (ts_high_water old)"
    "ta_effective_nanos a = merge_max (ts_high_water old) (fst (sample_columns lib sample))"
proof -
  have ti: "time_inv db" using assms(1) by (simp add: store_inv_def)
  then obtain old where old: "db_time_state db = Some old" by (rule time_invE)
  have r: "ts_revision old < i64_max"
    using apply_sample_exhausted [OF old] assms(2) by (metis Inl_Inr_False linorder_not_le)
  note eq = apply_sample_recorded [OF ti old r, of lib sample u]
  show thesis
    by (rule that [OF old]) (use assms(2) eq sampled [OF old r] in auto)
qed

lemma apply_sample_step:
  "store_inv db \<Longrightarrow> apply_sample_with_unresolved lib sample u db = Inr (a, db') \<Longrightarrow> store_steps db db'"
  by (erule (1) apply_sample_Inr) blast

lemma assess_policy_steps [time_ops]:
  assumes "store_inv db"
  shows "store_steps db (snd (assess_sample_with_pending_policy lib sample policy db))"
  using apply_sample_step [OF assms]
  by (auto simp: assess_sample_with_pending_policy_def Let_def split: sum.splits prod.splits)

lemma assess_steps [time_ops]: "store_inv db \<Longrightarrow> store_steps db (snd (assess lib sample db))"
  by (simp add: assess_def assess_policy_steps)

lemma startup_assess_steps [time_ops]: "store_inv db \<Longrightarrow> store_steps db (snd (startup_assess lib sample db))"
  by (simp add: startup_assess_def assess_policy_steps)

lemma protected_now_steps [time_ops]: "store_inv db \<Longrightarrow> store_steps db (snd (protected_now lib sample db))"
  using assess_steps [of db lib sample] by (auto simp: protected_now_def split: sum.splits prod.splits)

lemma deny_steps [time_ops]: "store_inv db \<Longrightarrow> store_steps db (snd (deny_with_sample lib fresh e db))"
  using assess_policy_steps [of db lib "lo_sample fresh" RecordOnly]
  by (auto simp: deny_with_sample_def observation_commit_def assess_sample_def split: sum.splits prod.splits)

lemma commit_context_Inr:
  assumes "store_inv db" and "observation_commit_context_in lib fresh db = Inr (context, db')"
  shows "store_steps db db'"
  using assms apply_sample_step [OF assms(1), of lib "lo_sample fresh" False]
  unfolding observation_commit_context_in_def observation_commit_in_def apply_sample_in_transaction_def
  by (auto simp: and_then_Inr_iff split: option.splits if_splits)

lemma store_steps_frame: "store_steps db db' \<Longrightarrow> same_clock db' db'' \<Longrightarrow> store_steps db db''"
  by (meson frame rtranclp.rtrancl_into_rtrancl)

lemma with_protected_immediate_steps [time_ops]:
  assumes inv: "store_inv db"
    and op: "\<And>d now v d'. operation d now = Inr (v, d') \<Longrightarrow> same_clock d d'"
  shows "store_steps db (snd (with_protected_immediate lib before sample commits operation db))"
proof -
  obtain r d where p: "protected_now lib before db = (r, d)" by force
  have d: "store_steps db d" using protected_now_steps [OF inv, of lib before] p by simp
  have invd: "store_inv d" by (rule store_inv_steps [OF d inv])
  have deny: "store_steps db (snd (deny_with_sample lib fresh e d))" for fresh e
    using deny_steps [OF invd] d by (meson rtranclp_trans)
  have ok: "store_steps db d'" if "and_then (operation d now) (\<lambda>(value, db).
        and_then (observation_commit_in lib fresh db) (\<lambda>(assessment, db).
        and_then (assessment_require_trusted_time lib assessment) (\<lambda>_. Inr (value, db)))) = Inr (v, d')" for now fresh v d'
  proof -
    from that obtain d1 a where o1: "operation d now = Inr (v, d1)"
        and c: "apply_sample_with_unresolved lib (lo_sample fresh) False d1 = Inr (a, d')"
      by (auto simp: and_then_Inr_iff observation_commit_in_def apply_sample_in_transaction_def)
    have "store_steps db d1" using store_steps_frame [OF d op [OF o1]] .
    moreover from this have "store_inv d1" using inv by (rule store_inv_steps)
    ultimately show ?thesis using apply_sample_step [OF _ c] by (meson rtranclp_trans)
  qed
  show ?thesis
    unfolding with_protected_immediate_def p prod.case
    using d deny ok by (simp split: sum.split) fastforce
qed

lemma with_protected_observation_steps [time_ops]:
  assumes inv: "store_inv db"
    and op: "\<And>d context v d'. operation d context = Inr (v, d') \<Longrightarrow> same_clock d d'"
  shows "store_steps db (snd (with_protected_observation lib before sample commits operation db))"
proof -
  obtain r d where p: "protected_now lib before db = (r, d)" by force
  have d: "store_steps db d" using protected_now_steps [OF inv, of lib before] p by simp
  have invd: "store_inv d" by (rule store_inv_steps [OF d inv])
  have deny: "store_steps db (snd (deny_with_sample lib fresh e d))" for fresh e
    using deny_steps [OF invd] d by (meson rtranclp_trans)
  have ok: "store_steps db d'" if "and_then (observation_commit_context_in lib fresh d) (\<lambda>(context, db). operation db context)
      = Inr (v, d')" for fresh v d'
  proof -
    from that obtain ctx d1 where c: "observation_commit_context_in lib fresh d = Inr (ctx, d1)"
        and o1: "operation d1 ctx = Inr (v, d')"
      by (auto simp: and_then_Inr_iff)
    show ?thesis
      using commit_context_Inr [OF invd c] d store_steps_frame [OF _ op [OF o1]] by (meson rtranclp_trans)
  qed
  show ?thesis
    unfolding with_protected_observation_def p prod.case
    using d deny ok by (simp split: sum.split) fastforce
qed

lemma capture_locked_not_pending:
  "capture_locked lib sample db = Inr fresh \<Longrightarrow> db_pending db = []"
  by (auto simp: capture_locked_def capture_locked_with_permit_def permitted_def split: if_splits list.splits)

lemma prepare_in_steps:
  assumes inv: "store_inv db"
    and p: "prepare_in lib sample marker owner_id owner_epoch task_id kind subject_id db = (Inr (permit, db'), l)"
  shows "store_steps db db'"
proof -
  from p obtain fresh a d row where
      f: "capture_locked lib sample db = Inr fresh"
    and c: "apply_sample_with_unresolved lib (lo_sample fresh) False db = Inr (a, d)"
    and i: "insert_preparation row d = Inr db'"
    unfolding prepare_in_def
    by (auto simp: and_then_Inr_iff observation_commit_in_def apply_sample_in_transaction_def split: sum.splits option.splits)
  obtain old where "d = recorded lib (lo_sample fresh) False old db"
    by (rule apply_sample_Inr [OF inv c])
  then have "db_pending d = []" using capture_locked_not_pending [OF f] by simp
  then have "store_step d db'" using i by (rule prepare)
  with apply_sample_step [OF inv c] show ?thesis by (rule rtranclp.rtrancl_into_rtrancl)
qed

lemma prepare_external_effect_steps [time_ops]:
  assumes inv: "store_inv db"
  shows "store_steps db
    (snd (prepare_external_effect lib before sample commits marker owner_id owner_epoch task_id kind subject_id db))"
proof -
  obtain r d where p: "protected_now lib before db = (r, d)" by force
  have d: "store_steps db d" using protected_now_steps [OF inv, of lib before] p by simp
  have invd: "store_inv d" by (rule store_inv_steps [OF d inv])
  have deny: "store_steps db (snd (deny_with_sample lib fresh e d))" for fresh e
    using deny_steps [OF invd] d by (meson rtranclp_trans)
  have ok: "store_steps db d'"
    if "prepare_in lib sample marker owner_id owner_epoch task_id kind subject_id d = (Inr (permit, d'), l)" for permit d' l
    using prepare_in_steps [OF invd that] d by (meson rtranclp_trans)
  show ?thesis
    unfolding prepare_external_effect_def p prod.case
    using d deny ok by (auto split: sum.split option.split prod.split)
qed

lemma entry_context_steps:
  assumes "store_inv db" and "entry_commit_context_in lib entry db = Inr (context, entry', db')"
  shows "store_steps db db'"
  using assms by (auto simp: entry_commit_context_in_def and_then_Inr_iff split: if_splits intro: commit_context_Inr)

lemma resolve_entry_steps:
  assumes inv: "store_inv db" and r: "resolve_external_entry_in_kind lib permit entry kind db = Inr (a, db')"
  shows "store_steps db db'"
proof -
  from r obtain d row where e: "entry_assessment lib entry db = Inr (a, d)"
      and i: "insert_resolution row d = Inr db'"
    unfolding resolve_external_entry_in_kind_def
    by (auto simp: and_then_Inr_iff split: if_splits option.splits)
  have "store_steps db d"
    using e apply_sample_step [OF inv]
    by (auto simp: entry_assessment_def observation_commit_in_def apply_sample_in_transaction_def
        split: option.splits if_splits)
  moreover have "store_step d db'" using i by (rule resolve)
  ultimately show ?thesis by (rule rtranclp.rtrancl_into_rtrancl)
qed

lemma advance_session_frame: "advance_clock_session_in owner epoch time db = Inr db' \<Longrightarrow> same_clock db db'"
  by (auto simp: advance_clock_session_in_def and_then_Inr_iff same_clock_def split: if_splits)

lemma open_session_frame: "open_session owner epoch db time = Inr (v, db') \<Longrightarrow> same_clock db db'"
  by (auto simp: open_session_def insert_clock_session_def and_then_Inr_iff same_clock_def split: if_splits)

lemma initialize_clock_session_steps [time_ops]:
  assumes inv: "store_inv db"
  shows "store_steps db (snd (initialize_clock_session lib startup before sample commits owner epoch db))"
proof -
  obtain r d where p: "startup_assess lib startup db = (r, d)" by force
  have d: "store_steps db d" using startup_assess_steps [OF inv, of lib startup] p by simp
  have invd: "store_inv d" by (rule store_inv_steps [OF d inv])
  have "store_steps d (snd (with_protected_observation lib before sample commits (open_session owner epoch) d))"
    using open_session_frame by (intro with_protected_observation_steps [OF invd]) blast
  with d have "store_steps db (snd (with_protected_observation lib before sample commits (open_session owner epoch) d))"
    by (rule rtranclp_trans)
  moreover obtain r' d' where "with_protected_observation lib before sample commits (open_session owner epoch) d = (r', d')"
    by force
  ultimately show ?thesis
    using d unfolding initialize_clock_session_def p prod.case
    by (simp split: sum.split unit.split)
qed


section \<open>The clock as a state machine\<close>

text \<open>
  One operation of the manager on the store. An external effect is captured and resolved in one
  transaction, with or without the paired evidence for an authority check; what the transaction
  does to other tables is a frame. The value a protected operation returns does not reach the
  store, so the step relation takes operations with a trivial value.
\<close>

inductive time_step :: "'r time_db \<Rightarrow> 'r time_db \<Rightarrow> bool" where
  assessed: "time_step db (snd (assess lib sample db))"
| started: "time_step db (snd (startup_assess lib sample db))"
| protected: "(\<And>d now v d'. operation d now = Inr ((v::unit), d') \<Longrightarrow> same_clock d d')
    \<Longrightarrow> time_step db (snd (with_protected_immediate lib before sample commits operation db))"
| observed: "(\<And>d ctx v d'. operation d ctx = Inr ((v::unit), d') \<Longrightarrow> same_clock d d')
    \<Longrightarrow> time_step db (snd (with_protected_observation lib before sample commits operation db))"
| prepared: "time_step db
    (snd (prepare_external_effect lib before sample commits marker owner_id owner_epoch task_id kind subject_id db))"
| resolved: "capture_external_entry lib sample permit db = Inr entry
    \<Longrightarrow> resolve_external_entry_in_kind lib permit entry kind db = Inr (a, db') \<Longrightarrow> time_step db db'"
| resolved_with_context: "capture_external_entry lib sample permit db = Inr entry
    \<Longrightarrow> entry_commit_context_in lib entry db = Inr (ctx, entry', d)
    \<Longrightarrow> resolve_external_entry_in_kind lib permit entry' kind d = Inr (a, db') \<Longrightarrow> time_step db db'"
| opened: "owner \<noteq> [] \<Longrightarrow> time_step db (claim owner db)"
| session: "time_step db (snd (initialize_clock_session lib startup before sample commits owner epoch db))"
| business: "same_clock db db' \<Longrightarrow> time_step db db'"

inductive_cases time_stepE: "time_step db db'"

abbreviation time_steps :: "'r time_db \<Rightarrow> 'r time_db \<Rightarrow> bool" where
  "time_steps \<equiv> time_step\<^sup>*\<^sup>*"

definition initial_store :: "string list \<Rightarrow> 'r \<Rightarrow> 'r time_db" where
  "initial_store tasks rest =
     \<lparr>db_lease = None, db_tasks = tasks,
      db_time_state = Some \<lparr>ts_confidence = ''UNASSESSED'', ts_high_water = None, ts_expiry_floor = None,
                            ts_reason_code = ''TIME_UNASSESSED'', ts_revision = 0\<rparr>,
      db_observations = [], db_preparations = [], db_resolutions = [], db_pending = [], db_sessions = [],
      db_rest = rest\<rparr>"

lemma store_inv_initial: "store_inv (initial_store tasks rest)"
  by (simp add: initial_store_def store_inv_def time_inv_def state_of_ledger_def ledger_trusted_def
      numbered_def ledger_exact_def ledger_bounded_def high_of_def inflight_rows_coherent_iff lease_valid_def)

lemma time_step_store_steps: "time_step db db' \<Longrightarrow> store_inv db \<Longrightarrow> store_steps db db'"
proof (induction rule: time_step.induct)
  case (resolved_with_context lib sample permit db entry ctx entry' d kind a db')
  have d: "store_steps db d" by (rule entry_context_steps [OF resolved_with_context(4,2)])
  moreover have "store_steps d db'"
    by (rule resolve_entry_steps [OF store_inv_steps [OF d resolved_with_context(4)] resolved_with_context(3)])
  ultimately show ?case by (rule rtranclp_trans)
next
  case (resolved lib sample permit db entry kind a db')
  then show ?case by (blast intro: resolve_entry_steps)
next
  case (opened owner db)
  then show ?case by (blast intro: claim)
next
  case (business db db')
  then show ?case by (blast intro: frame)
qed (rule time_ops; assumption)+

lemma time_steps_store_steps: "time_steps db db' \<Longrightarrow> store_inv db \<Longrightarrow> store_steps db db'"
proof (induction rule: rtranclp_induct)
  case (step d d')
  then have "store_steps db d" by blast
  moreover have "store_inv d" using \<open>store_steps db d\<close> step.prems by (rule store_inv_steps)
  ultimately show ?case using time_step_store_steps [OF step.hyps(2)] by (meson rtranclp_trans)
qed simp

lemma reachable_store_inv: "time_steps (initial_store tasks rest) db \<Longrightarrow> store_inv db"
  by (rule store_inv_steps [OF time_steps_store_steps [OF _ store_inv_initial] store_inv_initial])


section \<open>Trusted answers\<close>

definition trusted :: "'r time_db \<Rightarrow> bool" where
  "trusted db \<longleftrightarrow> map_option ts_confidence (db_time_state db) = Some ''TRUSTED_LOCAL''"

lemma trusted_not_uncertain: "trusted db \<Longrightarrow> \<not> uncertain db"
  by (auto simp: trusted_def uncertain_def)

lemma assessment_trusted_Inr:
  "assessment_require_trusted_time lib a = Inr t \<longleftrightarrow>
     ta_confidence a = ''TRUSTED_LOCAL'' \<and> (\<exists>n. ta_effective_nanos a = Some n \<and> rfc_format lib n = Some t)"
  by (auto simp: assessment_require_trusted_time_def trusted_text_def format_nanos_def split: option.splits)

lemma apply_sample_floor:
  assumes "store_inv db" and "apply_sample_with_unresolved lib sample u db = Inr (a, db')"
  shows "floor_of db' = ta_effective_nanos a" "map_option ts_confidence (db_time_state db') = Some (ta_confidence a)"
proof -
  obtain old where o1: "db_time_state db = Some old" "db' = recorded lib sample u old db"
    "ta_confidence a = next_confidence (ts_confidence old) u (fst (sample_columns lib sample)) (ts_high_water old)"
    "ta_effective_nanos a = merge_max (ts_high_water old) (fst (sample_columns lib sample))"
    by (rule apply_sample_Inr [OF assms])
  moreover have "ts_expiry_floor old = ts_high_water old"
    using assms(1) o1(1) by (auto simp: store_inv_def time_inv_def state_of_ledger_def)
  ultimately show "floor_of db' = ta_effective_nanos a"
    "map_option ts_confidence (db_time_state db') = Some (ta_confidence a)"
    by (simp_all add: floor_of_def merge_max_self)
qed

lemma protected_now_Inr:
  assumes "store_inv db" and "protected_now lib sample db = (Inr t, db')"
  shows "trusted db' \<and> (\<exists>n. floor_of db' = Some n \<and> rfc_format lib n = Some t)"
proof -
  obtain a where ap: "apply_sample_with_unresolved lib sample False db = Inr (a, db')"
      and t: "assessment_require_trusted_time lib a = Inr t"
    using assms(2)
    by (auto simp: protected_now_def assess_def assess_sample_with_pending_policy_def Let_def
        split: sum.splits prod.splits if_splits)
  show ?thesis
    using apply_sample_floor [OF assms(1) ap] t by (auto simp: assessment_trusted_Inr trusted_def)
qed

text \<open>The sample captured under the lock is trusted exactly as the commit will find it.\<close>

lemma capture_trusted:
  assumes inv: "store_inv db" and c: "capture_locked lib sample db = Inr fresh"
    and t: "observation_require_trusted_time lib fresh = Inr now"
  shows "lo_sample fresh = sample"
    "\<exists>n old. lo_effective_nanos fresh = Some n \<and> rfc_format lib n = Some now \<and> db_time_state db = Some old \<and>
       merge_max (ts_high_water old) (fst (sample_columns lib sample)) = Some n \<and>
       next_confidence (ts_confidence old) False (fst (sample_columns lib sample)) (ts_high_water old) = ''TRUSTED_LOCAL''"
proof -
  have "time_inv db" using inv by (simp add: store_inv_def)
  then obtain s where s: "db_time_state db = Some s" "ts_expiry_floor s = ts_high_water s"
    by (auto simp: time_inv_def state_of_ledger_def)
  note c' = c [unfolded capture_locked_def capture_locked_with_permit_def s option.case Let_def]
  show "lo_sample fresh = sample" using c' by (auto split: if_splits)
  have eff: "lo_effective_nanos fresh \<noteq> None"
    using t by (cases "lo_effective_nanos fresh") (simp_all add: observation_require_trusted_time_def trusted_text_def)
  obtain f w where fw: "ts_confidence s = ''TRUSTED_LOCAL''" "ts_high_water s = Some f"
      "Option.bind sample (\<lambda>s. parse_rfc_nanos lib (sc_wall s)) = Some w"
      "saturate (f - ROLLBACK_TOLERANCE_NANOS) \<le> w" "lo_effective_nanos fresh = Some (max f w)"
    using c' eff by (auto split: if_splits option.splits)
  have col: "fst (sample_columns lib sample) = Some w"
    using fw(3) by (auto simp: sample_columns_def Option.bind_eq_Some_conv)
  have "next_confidence (ts_confidence s) False (Some w) (Some f) = ''TRUSTED_LOCAL''"
    using fw(1,4) by (simp add: next_confidence_def rolled_back_def)
  moreover have "rfc_format lib (max f w) = Some now"
    using t fw(5) by (auto simp: observation_require_trusted_time_def trusted_text_def format_nanos_def split: option.splits)
  ultimately show "\<exists>n old. lo_effective_nanos fresh = Some n \<and> rfc_format lib n = Some now \<and> db_time_state db = Some old \<and>
       merge_max (ts_high_water old) (fst (sample_columns lib sample)) = Some n \<and>
       next_confidence (ts_confidence old) False (fst (sample_columns lib sample)) (ts_high_water old) = ''TRUSTED_LOCAL''"
    using s fw(2,5) col by (simp add: merge_max_def)
qed

text \<open>A denial never touches the business tables.\<close>

definition same_business :: "'r time_db \<Rightarrow> 'r time_db \<Rightarrow> bool" where
  "same_business db db' \<longleftrightarrow>
     db_rest db' = db_rest db \<and> db_tasks db' = db_tasks db \<and> db_sessions db' = db_sessions db \<and>
     db_preparations db' = db_preparations db \<and> db_resolutions db' = db_resolutions db \<and>
     db_pending db' = db_pending db \<and> db_lease db' = db_lease db"

lemma same_business_refl [simp]: "same_business db db"
  by (simp add: same_business_def)

lemma same_business_trans: "same_business a b \<Longrightarrow> same_business b c \<Longrightarrow> same_business a c"
  by (simp add: same_business_def)

lemma same_business_assess_policy:
  "store_inv db \<Longrightarrow> same_business db (snd (assess_sample_with_pending_policy lib sample policy db))"
  by (auto simp: assess_sample_with_pending_policy_def Let_def same_business_def split: sum.splits prod.splits
      elim: apply_sample_Inr)

lemma same_business_now:
  assumes "store_inv db"
  shows "same_business db (snd (protected_now lib sample db))"
  using same_business_assess_policy [OF assms, of lib sample PendingDeny]
  by (auto simp: protected_now_def assess_def split: sum.splits prod.splits)

lemma same_business_deny:
  assumes "store_inv db"
  shows "same_business db (snd (deny_with_sample lib fresh e db))"
  using same_business_assess_policy [OF assms, of lib "lo_sample fresh" RecordOnly]
  by (auto simp: deny_with_sample_def observation_commit_def assess_sample_def split: sum.splits prod.splits)

lemma deny_Inl: "\<exists>e'. fst (deny_with_sample lib fresh e db) = Inl e'"
  by (auto simp: deny_with_sample_def split: sum.splits prod.splits)

lemma protected_failure:
  assumes "with_protected_immediate lib before sample commits operation db = (r, db')"
    and "protected_now lib before db = (q, d)" and "r = Inl e"
  shows "db' = d \<or> (\<exists>fresh e. deny_with_sample lib fresh e d = (r, db'))"
proof (cases q)
  case (Inr t)
  note run = assms(1) [unfolded with_protected_immediate_def assms(2) Inr prod.case sum.case]
  show ?thesis
  proof (cases "capture_locked lib sample d")
    case fresh: (Inr fresh)
    note run' = run [unfolded fresh sum.case]
    show ?thesis
    proof (cases "observation_require_trusted_time lib fresh")
      case now: (Inr now)
      obtain x where x: "(case x of
          Inl error \<Rightarrow> deny_with_sample lib fresh error d
        | Inr (value, db') \<Rightarrow>
            if commits then (Inr value, db')
            else deny_with_sample lib fresh (Storage ''commit failed'') d) = (r, db')"
        using run' [unfolded now sum.case] by blast
      show ?thesis
      proof (cases x)
        case (Inl error)
        then show ?thesis using x by auto
      next
        case (Inr y)
        then show ?thesis using x assms(3) by (cases commits) (auto split: prod.splits)
      qed
    qed (use run' in auto)
  qed (use run in auto)
qed (use assms in \<open>simp add: with_protected_immediate_def\<close>)


section \<open>Properties\<close>

text \<open>
  C17: In every store the manager can reach the state row agrees with the whole observation ledger,
  the in-flight tables pass the coherence check of startup, and at most one external effect is in
  flight: an honest store is never quarantined, and none of its triggers ever fires.
\<close>

theorem reachable_store_coherent:
  assumes "time_steps (initial_store tasks rest) db"
  shows "state_matches_audit db \<and> state_matches_audit_tail db \<and> inflight_rows_coherent db \<and> length (db_pending db) \<le> 1"
  using reachable_store_inv [OF assms] time_inv_audit [of db] time_inv_audit_tail [of db] by (simp add: store_inv_def)

text \<open>
  C16: Trusted time never runs backward: a trusted answer is at least every wall time observed so
  far, and at most every trusted answer given later, whatever the clock samples and the operations
  in between.
\<close>

theorem trusted_time_monotone:
  assumes "time_steps (initial_store tasks rest) db"
    and now1: "protected_now lib sample db = (Inr t, db1)" and "time_steps db1 db2"
    and now2: "protected_now lib' sample' db2 = (Inr t', db3)"
  shows "\<exists>n n'. rfc_format lib n = Some t \<and> rfc_format lib' n' = Some t' \<and> n \<le> n' \<and>
    (\<forall>o'\<in>set (db_observations db1). not_below (Some n) (ob_observed o'))"
proof -
  have inv: "store_inv db" by (rule reachable_store_inv [OF assms(1)])
  have st1: "store_steps db db1" using protected_now_steps [OF inv, of lib sample] now1 by simp
  have inv1: "store_inv db1" by (rule store_inv_steps [OF st1 inv])
  have st2: "store_steps db1 db2" by (rule time_steps_store_steps [OF assms(3) inv1])
  have inv2: "store_inv db2" by (rule store_inv_steps [OF st2 inv1])
  have "store_steps db2 db3" using protected_now_steps [OF inv2, of lib' sample'] now2 by simp
  then have "clock_le db1 db3" using st2 inv1 by (meson clock.le_run rtranclp_trans)
  moreover obtain n where "floor_of db1 = Some n" "rfc_format lib n = Some t"
    using protected_now_Inr [OF inv now1] by blast
  moreover obtain n' where "floor_of db3 = Some n'" "rfc_format lib' n' = Some t'"
    using protected_now_Inr [OF inv2 now2] by blast
  ultimately show ?thesis
    using floor_covers_observations [OF inv1] by (auto simp: clock_le_def not_below_def)
qed

text \<open>
  C18: Uncertainty is latched: once the clock is uncertain it is uncertain in every later store, no
  trusted time is given again, and no protected transaction, whether it runs under a time or under a
  recorded observation, succeeds or changes a business table.
\<close>

theorem uncertainty_latched:
  assumes "time_steps (initial_store tasks rest) db" and "uncertain db" and "time_steps db db'"
  shows "uncertain db' \<and> (\<exists>e. fst (protected_now lib sample db') = Inl e) \<and>
    (\<exists>e. fst (with_protected_immediate lib sample sample' commits operation db') = Inl e) \<and>
    same_business db' (snd (with_protected_immediate lib sample sample' commits operation db')) \<and>
    (\<exists>e. fst (with_protected_observation lib sample sample' commits observed_operation db') = Inl e) \<and>
    same_business db' (snd (with_protected_observation lib sample sample' commits observed_operation db'))"
proof -
  have inv: "store_inv db" by (rule reachable_store_inv [OF assms(1)])
  have st: "store_steps db db'" by (rule time_steps_store_steps [OF assms(3) inv])
  have inv': "store_inv db'" by (rule store_inv_steps [OF st inv])
  have u: "uncertain db'" using clock.le_run [OF st inv] assms(2) by (simp add: clock_le_def)
  obtain r d where p: "protected_now lib sample db' = (r, d)" by force
  have "uncertain d" using clock.le_run [OF protected_now_steps [OF inv', of lib sample] inv'] u p by (simp add: clock_le_def)
  then obtain e where r: "r = Inl e"
    using protected_now_Inr [OF inv', of lib sample] p trusted_not_uncertain by (cases r) blast+
  have "same_business db' d" using same_business_now [OF inv', of lib sample] p by simp
  then show ?thesis using u p r by (simp add: with_protected_immediate_def with_protected_observation_def)
qed

text \<open>
  C15: A protected transaction is atomic with its clock sample. If it succeeds, its operation ran
  once, on the business tables of the start, under the trusted time that is now the durable expiry
  floor, and its changes are in the store; if it fails, for whatever reason, no table but the
  clock's own changed.
\<close>

theorem protected_transaction_atomic:
  assumes "time_steps (initial_store tasks rest) db"
    and op: "\<And>d now v d'. operation d now = Inr (v, d') \<Longrightarrow> same_clock d d'"
    and run: "with_protected_immediate lib before sample commits operation db = (r, db')"
  shows "case r of
      Inl e \<Rightarrow> same_business db db'
    | Inr v \<Rightarrow> \<exists>d now n d1. operation d now = Inr (v, d1) \<and> same_business db d \<and> rfc_format lib n = Some now \<and>
        floor_of db' = Some n \<and> trusted db' \<and> db_rest db' = db_rest d1 \<and> db_sessions db' = db_sessions d1"
proof -
  have inv: "store_inv db" by (rule reachable_store_inv [OF assms(1)])
  obtain r0 d where p: "protected_now lib before db = (r0, d)" by force
  have st: "store_steps db d" using protected_now_steps [OF inv, of lib before] p by simp
  have invd: "store_inv d" by (rule store_inv_steps [OF st inv])
  have b: "same_business db d" using same_business_now [OF inv, of lib before] p by simp
  show ?thesis
  proof (cases "\<exists>v. r = Inr v")
    case False
    then obtain e where e: "r = Inl e" by (cases r) auto
    have "db' = d \<or> (\<exists>fresh e. deny_with_sample lib fresh e d = (r, db'))"
      by (rule protected_failure [OF run p e])
    then have "same_business db db'"
      using b same_business_deny [OF invd, of lib] by (metis same_business_trans snd_conv)
    then show ?thesis using e by simp
  next
    case True
    then obtain v where v: "r = Inr v" by blast
    have no: "deny_with_sample lib fresh e d \<noteq> (Inr v, db')" for fresh e
      using deny_Inl [of lib fresh e d] by (metis Inl_Inr_False fst_conv)
    obtain fresh now d1 a where c: "capture_locked lib sample d = Inr fresh"
        and t: "observation_require_trusted_time lib fresh = Inr now" and o1: "operation d now = Inr (v, d1)"
        and ap: "apply_sample_with_unresolved lib (lo_sample fresh) False d1 = Inr (a, db')"
      using run v no unfolding with_protected_immediate_def p prod.case
      by (auto simp: and_then_Inr_iff observation_commit_in_def apply_sample_in_transaction_def
          split: sum.splits if_splits)
    have sc: "same_clock d d1" by (rule op [OF o1])
    have inv1: "store_inv d1" by (rule store_inv_frame [OF invd sc])
    obtain n old where n: "rfc_format lib n = Some now" "db_time_state d = Some old" "lo_sample fresh = sample"
        "merge_max (ts_high_water old) (fst (sample_columns lib sample)) = Some n"
        "next_confidence (ts_confidence old) False (fst (sample_columns lib sample)) (ts_high_water old) = ''TRUSTED_LOCAL''"
      using capture_trusted [OF invd c t] by blast
    obtain old' where o2: "db_time_state d1 = Some old'" "db' = recorded lib (lo_sample fresh) False old' d1"
      "ta_confidence a = next_confidence (ts_confidence old') False (fst (sample_columns lib (lo_sample fresh))) (ts_high_water old')"
      "ta_effective_nanos a = merge_max (ts_high_water old') (fst (sample_columns lib (lo_sample fresh)))"
      by (rule apply_sample_Inr [OF inv1 ap])
    have "old' = old" using o2(1) n(2) sc by (simp add: same_clock_def)
    then have "floor_of db' = Some n" "trusted db'"
      using apply_sample_floor [OF inv1 ap] o2(3,4) n(3,4,5) by (auto simp: trusted_def)
    with o1 b n(1) o2(2) v show ?thesis by auto
  qed
qed

text \<open>
  C19: A crash with an effect in flight is detected: the first assessment of the next start returns
  and latches uncertainty, and no clock session is opened, so no authority can be issued.
\<close>

theorem crash_in_flight_detected:
  assumes "time_steps (initial_store tasks rest) db" and "db_pending db \<noteq> []"
    and "db_time_state db = Some old" and "ts_revision old < i64_max"
  shows "\<exists>a db'. startup_assess lib sample db = (Inr a, db') \<and> uncertain db' \<and>
    initialize_clock_session lib sample before sample' commits owner epoch db = (Inr (), db') \<and>
    db_sessions db' = db_sessions db"
proof -
  have inv: "store_inv db" by (rule reachable_store_inv [OF assms(1)])
  then have ti: "time_inv db" by (simp add: store_inv_def)
  let ?a = "\<lparr>ta_confidence = ''TIME_UNCERTAIN'',
      ta_effective_nanos = merge_max (ts_high_water old) (fst (sample_columns lib sample))\<rparr>"
  have c: "next_confidence (ts_confidence old) True ob h = ''TIME_UNCERTAIN''" for ob h
    by (simp add: next_confidence_def)
  have s: "startup_assess lib sample db = (Inr ?a, recorded lib sample True old db)"
    using apply_sample_recorded [OF ti assms(3,4), of lib sample True] assms(2)
    by (simp add: startup_assess_def assess_sample_with_pending_policy_def pending_marker_exists_def c)
  moreover have "initialize_clock_session lib sample before sample' commits owner epoch db =
      (Inr (), recorded lib sample True old db)"
    by (simp add: initialize_clock_session_def s assessment_require_trusted_time_def)
  ultimately show ?thesis by (simp add: uncertain_def c)
qed

text \<open>
  C20: A permit is used at most once: when its effect has been resolved, no later store admits
  another entry or another resolution under it.
\<close>

theorem permit_resolved_once:
  assumes "time_steps (initial_store tasks rest) db"
    and res: "resolve_external_entry_in_kind lib permit entry kind db = Inr (a, db1)" and "time_steps db1 db2"
  shows "db_pending db1 = [] \<and> (\<exists>e. capture_external_entry lib' sample permit db2 = Inl e) \<and>
    (\<exists>e. resolve_external_entry_in_kind lib' permit entry' kind' db2 = Inl e)"
proof -
  have inv: "store_inv db" by (rule reachable_store_inv [OF assms(1)])
  have inv1: "store_inv db1" by (rule store_inv_steps [OF resolve_entry_steps [OF inv res] inv])
  obtain row d where ins: "insert_resolution row d = Inr db1" and row: "re_marker_id row = pm_marker_id permit"
    using res unfolding resolve_external_entry_in_kind_def by (auto simp: and_then_Inr_iff split: if_splits option.splits)
  have d: "db1 = d\<lparr>db_resolutions := db_resolutions d @ [row],
                  db_pending := filter (\<lambda>m. m \<noteq> re_marker_id row) (db_pending d)\<rparr>"
    and ex: "resolution_exact row d" using insert_resolution_Inr [OF ins] by blast+
  have "db_pending d = [re_marker_id row]" by (rule resolution_exactD [OF ex])
  then have "db_pending db1 = []" using d by simp
  moreover have "set (db_resolutions db1) \<subseteq> set (db_resolutions db2)"
    using clock.le_run [OF time_steps_store_steps [OF assms(3) inv1] inv1] by (simp add: clock_le_def)
  then have "row \<in> set (db_resolutions db2)" using d by auto
  then have "pm_marker_id permit \<in> set (map re_marker_id (db_resolutions db2))" using row by force
  then have "\<exists>e. permit_matches_locked permit db2 = Inl e"
    by (cases "assert_manager_lease db2 (pm_owner_id permit) (pm_owner_epoch permit)")
      (auto simp: permit_matches_locked_def ensure_def)
  ultimately show ?thesis
    by (auto simp: capture_external_entry_def resolve_external_entry_in_kind_def)
qed

text \<open>
  C21: A trusted clock has a clean history: every observation behind a trusted state carries a wall
  time, and none lies more than two seconds below any wall time observed before it.
\<close>

theorem trusted_history_clean:
  assumes "time_steps (initial_store tasks rest) db" and "trusted db"
    and "i < j" and "j < length (db_observations db)"
  shows "\<exists>earlier later. ob_observed (db_observations db ! i) = Some earlier \<and>
    ob_observed (db_observations db ! j) = Some later \<and> earlier - 2000000000 \<le> later"
proof -
  let ?obs = "db_observations db"
  have "time_inv db" using reachable_store_inv [OF assms(1)] by (simp add: store_inv_def)
  then obtain s where s: "db_time_state db = Some s" "ledger_trusted (ts_confidence s) ?obs" "ledger_bounded ?obs"
    by (rule time_invE)
  have "ts_confidence s = ''TRUSTED_LOCAL''" using assms(2) s(1) by (simp add: trusted_def)
  with s(2) have obs: "\<And>o'. o' \<in> set ?obs \<Longrightarrow> ob_observed o' \<noteq> None"
    and nr: "\<not> rolled_back (ob_observed (?obs ! j)) (high_of (map ob_observed (take j ?obs)))"
    using assms(4) unfolding ledger_trusted_def by blast+
  obtain e l where e: "ob_observed (?obs ! i) = Some e" and l: "ob_observed (?obs ! j) = Some l"
    using obs [OF nth_mem, of i] obs [OF nth_mem, of j] assms(3,4) by auto
  have "?obs ! i \<in> set (take j ?obs)" using assms(3,4) by (auto simp: in_set_conv_nth intro!: exI [of _ i])
  then have "not_below (high_of (map ob_observed (take j ?obs))) (Some e)"
    using high_of_ge [of "Some e" "map ob_observed (take j ?obs)"] e by (metis imageI image_set)
  then obtain h where h: "high_of (map ob_observed (take j ?obs)) = Some h" "e \<le> h"
    by (auto simp: not_below_def split: option.splits)
  have "?obs ! i \<in> set ?obs" using assms(3,4) by simp
  from s(3) [unfolded ledger_bounded_def, rule_format, OF this] have "e \<le> i64_max" using e by simp
  with nr l h have "e - 2000000000 \<le> l"
    by (auto simp: rolled_back_def saturate_def ROLLBACK_TOLERANCE_NANOS_def i64_max_def)
  then show ?thesis using e l by blast
qed


section \<open>A concrete run\<close>

text \<open>
  The parameter instantiated: nanoseconds since the epoch written in decimal. One manager opens
  the store, assesses the clock and prepares an effect.
\<close>

definition decimal_rfc :: rfc3339 where
  "decimal_rfc =
     \<lparr>rfc_parse = (\<lambda>s. if canonical_digits s then Some (int (digits_value s)) else None),
      rfc_format = (\<lambda>n. if 0 \<le> n then Some (show_nat (nat n)) else None)\<rparr>"

lemma decimal_rfc_exact: "rfc_exact decimal_rfc"
  by (simp add: rfc_exact_def decimal_rfc_def canonical_show_nat)

definition tick :: "string \<Rightarrow> nat \<Rightarrow> security_clock_sample option" where
  "tick wall ticks = Some \<lparr>sc_wall = wall, sc_monotonic_nanos = ticks, sc_source = InjectedClock\<rparr>"

definition sample_marker :: string where
  "sample_marker = ''0123456789abcdef0123456789abcdef''"

definition opened_store :: "unit time_db" where
  "opened_store = claim ''owner'' (initial_store [''task''] ())"

definition in_flight_store :: "unit time_db" where
  "in_flight_store = snd (prepare_external_effect decimal_rfc (tick ''100'' 1) (tick ''101'' 2) True
     sample_marker ''owner'' 1 ''task'' EffectRead ''subject'' opened_store)"

lemma opened_reachable: "time_steps (initial_store [''task''] ()) opened_store"
  unfolding opened_store_def by (intro r_into_rtranclp opened) simp

lemma in_flight_reachable: "time_steps (initial_store [''task''] ()) in_flight_store"
  unfolding in_flight_store_def using opened_reachable prepared by (rule rtranclp.rtrancl_into_rtrancl)

lemma in_flight_run: "db_pending in_flight_store = [sample_marker] \<and> floor_of in_flight_store = Some 101"
  by code_simp

theorem reachable_store_coherent_witness:
  "length (db_pending in_flight_store) = 1 \<and> inflight_rows_coherent in_flight_store \<and> state_matches_audit in_flight_store"
  using reachable_store_coherent [OF in_flight_reachable] in_flight_run by simp

theorem trusted_time_monotone_witness:
  "\<exists>n n'. rfc_format decimal_rfc n = Some ''100'' \<and> rfc_format decimal_rfc n' = Some ''105'' \<and> n \<le> n'"
proof -
  let ?d = "snd (protected_now decimal_rfc (tick ''100'' 1) opened_store)"
  have a: "protected_now decimal_rfc (tick ''100'' 1) opened_store = (Inr ''100'', ?d)"
    by (rule prod_eqI) (simp_all, code_simp)
  have b: "protected_now decimal_rfc (tick ''105'' 3) ?d = (Inr ''105'', snd (protected_now decimal_rfc (tick ''105'' 3) ?d))"
    by (rule prod_eqI) (simp_all, code_simp)
  show ?thesis using trusted_time_monotone [OF opened_reachable a rtranclp.rtrancl_refl b] by blast
qed

definition uncertain_store :: "unit time_db" where
  "uncertain_store = snd (startup_assess decimal_rfc (tick ''102'' 1) in_flight_store)"

lemma uncertain_reachable: "time_steps (initial_store [''task''] ()) uncertain_store"
  unfolding uncertain_store_def using in_flight_reachable started by (rule rtranclp.rtrancl_into_rtrancl)

theorem uncertainty_latched_witness:
  "uncertain uncertain_store \<and> (\<exists>e. fst (protected_now decimal_rfc (tick ''200'' 9) uncertain_store) = Inl e)"
proof -
  have u: "uncertain uncertain_store" unfolding uncertain_def by code_simp
  show ?thesis using uncertainty_latched [OF uncertain_reachable u rtranclp.rtrancl_refl] u by blast
qed

definition note_operation :: "string time_db \<Rightarrow> string \<Rightarrow> (unit \<times> string time_db) tm_result" where
  "note_operation db now = Inr ((), db\<lparr>db_rest := now\<rparr>)"

theorem protected_transaction_atomic_witness:
  "\<exists>n. floor_of (snd (with_protected_immediate decimal_rfc (tick ''100'' 1) (tick ''103'' 2) True note_operation
          (initial_store [''task''] []))) = Some n \<and>
       db_rest (snd (with_protected_immediate decimal_rfc (tick ''100'' 1) (tick ''103'' 2) True note_operation
          (initial_store [''task''] []))) = ''103''"
proof -
  let ?run = "with_protected_immediate decimal_rfc (tick ''100'' 1) (tick ''103'' 2) True note_operation (initial_store [''task''] [])"
  have op: "note_operation d now = Inr (v, d') \<Longrightarrow> same_clock d d'" for d now v d'
    by (auto simp: note_operation_def same_clock_def)
  have r: "?run = (Inr (), snd ?run)" by (rule prod_eqI) (simp_all, code_simp)
  have "db_rest (snd ?run) = ''103''" by code_simp
  moreover have "\<exists>n. floor_of (snd ?run) = Some n"
    using protected_transaction_atomic [OF rtranclp.rtrancl_refl _ r] op unfolding sum.case by metis
  ultimately show ?thesis by blast
qed

theorem crash_in_flight_detected_witness:
  "\<exists>a db'. startup_assess decimal_rfc (tick ''102'' 1) in_flight_store = (Inr a, db') \<and> uncertain db'"
proof -
  obtain old where o1: "db_time_state in_flight_store = Some old"
    using reachable_store_inv [OF in_flight_reachable] by (auto simp: store_inv_def time_inv_def)
  moreover have "map_option ts_revision (db_time_state in_flight_store) = Some 2" by code_simp
  ultimately have "ts_revision old < i64_max" by (simp add: i64_max_def)
  moreover have "db_pending in_flight_store \<noteq> []" using in_flight_run by simp
  ultimately show ?thesis using crash_in_flight_detected [OF in_flight_reachable _ o1] by blast
qed

definition sample_permit :: external_time_permit where
  "sample_permit = \<lparr>pm_marker_id = sample_marker, pm_task_id = ''task'', pm_subject_kind = EffectRead,
     pm_subject_id = ''subject'', pm_owner_id = ''owner'', pm_owner_epoch = 1, pm_prepared_state_revision = 2\<rparr>"

definition sample_entry :: external_entry_sample where
  "sample_entry = \<lparr>es_marker_id = sample_marker,
     es_observation = \<lparr>lo_sample = tick ''104'' 3, lo_effective_nanos = Some 104\<rparr>, es_committed_state_revision = None\<rparr>"

lemma sample_entry_captured:
  "capture_external_entry decimal_rfc (tick ''104'' 3) sample_permit in_flight_store = Inr sample_entry"
  by code_simp

theorem permit_resolved_once_witness:
  "\<exists>a db1. resolve_external_entry_in_kind decimal_rfc sample_permit sample_entry EffectInvoked in_flight_store = Inr (a, db1)
     \<and> db_pending db1 = []"
proof -
  let ?r = "resolve_external_entry_in_kind decimal_rfc sample_permit sample_entry EffectInvoked in_flight_store"
  have "is_ok ?r" by code_simp
  then obtain a db1 where r: "?r = Inr (a, db1)" by (auto simp: is_ok_def)
  show ?thesis using permit_resolved_once [OF in_flight_reachable r rtranclp.rtrancl_refl] r by blast
qed

theorem trusted_history_clean_witness:
  "\<exists>earlier later. ob_observed (db_observations in_flight_store ! 0) = Some earlier \<and>
     ob_observed (db_observations in_flight_store ! 1) = Some later \<and> earlier - 2000000000 \<le> later"
proof -
  have "trusted in_flight_store" unfolding trusted_def by code_simp
  moreover have "length (db_observations in_flight_store) = 2" by code_simp
  ultimately show ?thesis using trusted_history_clean [OF in_flight_reachable, of 0 1] by simp
qed

end
