(* ===== verification/Aios_Deadline.thy ===== *)
theory Aios_Deadline
  imports Aios_Time_Safety
begin

text \<open>
  Session-local expiry of authority grants (\<open>crates/aios-task-manager/src/authority_deadline.rs\<close>,
  with the tables of \<open>specs/persistence-v0.1-0021-authority-grant-deadlines.sql\<close>). The authority
  tables are the part of the store the clock does not own. A query that joins several tables on
  columns of one row is a search for that row; a joined row that only restricts the result is an
  existence test. The lemmas show that a prepared deadline is exact and bounded, that a valid grant
  is before every one of its caps on both clocks, and, with the guarantees of the trusted clock,
  that an expired grant is never valid again.
\<close>

section \<open>Tables\<close>

record grant_key =
  gk_grant_id :: string
  gk_token_id :: string
  gk_task_id :: string
  gk_execution_binding_id :: string
  gk_attempt_id :: string
  gk_policy_decision_id :: string
  gk_issued_at :: string

record grant_row =
  gr_key :: grant_key
  gr_expires_at :: string
  gr_approval_id :: "string option"

record receipt_row =
  rc_key :: grant_key
  rc_issuance_profile :: string

record approval_row =
  ar_approval_id :: string
  ar_status :: string
  ar_expires_at :: "string option"

record decision_row =
  dr_decision_id :: string
  dr_approval_id :: string
  dr_decision :: string
  dr_approved_until :: "string option"

record deadline_row =
  dl_key :: grant_key
  dl_grant_expires_at :: string
  dl_grant_expiry :: int
  dl_approval_id :: "string option"
  dl_request_expires_at :: "string option"
  dl_request_expiry :: "int option"
  dl_decision_id :: "string option"
  dl_approved_until :: "string option"
  dl_approved_expiry :: "int option"
  dl_session_id :: string
  dl_owner_id :: string
  dl_owner_epoch :: int
  dl_issued_revision :: int
  dl_issued_monotonic :: int
  dl_deadline_monotonic :: int
  dl_issued_observed :: int
  dl_issued_effective :: int
  dl_effective_expiry :: int

record latch_row =
  la_grant_id :: string
  la_session_id :: string
  la_owner_id :: string
  la_owner_epoch :: int
  la_revision :: int
  la_monotonic :: int
  la_observed :: int
  la_effective :: int
  la_reason :: string

record authority_tables =
  at_grants :: "grant_row list"
  at_receipts :: "receipt_row list"
  at_approvals :: "approval_row list"
  at_decisions :: "decision_row list"
  at_deadlines :: "deadline_row list"
  at_latches :: "latch_row list"

type_synonym authority_db = "authority_tables time_db"

abbreviation deadlines :: "authority_db \<Rightarrow> deadline_row list" where
  "deadlines db \<equiv> at_deadlines (db_rest db)"

abbreviation dl_grant_id :: "deadline_row \<Rightarrow> string" where
  "dl_grant_id d \<equiv> gk_grant_id (dl_key d)"


section \<open>Preparing a deadline\<close>

definition LOCAL_ARTIFACT_GRANT_NANOS :: int where
  "LOCAL_ARTIFACT_GRANT_NANOS = 300000000000"

definition reject :: task_manager_error where
  "reject = InvalidRecord ''authority grant deadline is not admissible''"

record approval_expiry_sources =
  ax_request_expires_at :: string
  ax_approved_until :: string

record prepared_grant_deadline =
  pd_grant_expires_at :: string
  pd_grant_expiry :: int
  pd_request_expiry :: "int option"
  pd_approved_until :: "int option"
  pd_effective_expiry :: int
  pd_deadline_monotonic :: int

definition some_or_reject :: "'a option \<Rightarrow> 'a tm_result" where
  "some_or_reject x = (case x of None \<Rightarrow> Inl reject | Some v \<Rightarrow> Inr v)"

definition parse_nanos :: "rfc3339 \<Rightarrow> string \<Rightarrow> int tm_result" where
  "parse_nanos lib raw = some_or_reject (parse_rfc_nanos lib raw)"

definition approval_caps ::
  "rfc3339 \<Rightarrow> approval_expiry_sources option \<Rightarrow> (int option \<times> int option) tm_result" where
  "approval_caps lib approval =
     (case approval of
        None \<Rightarrow> Inr (None, None)
      | Some sources \<Rightarrow>
          and_then (parse_nanos lib (ax_request_expires_at sources)) (\<lambda>request.
          and_then (parse_nanos lib (ax_approved_until sources)) (\<lambda>approved.
          Inr (Some request, Some approved))))"

definition cap :: "int option \<Rightarrow> int \<Rightarrow> int" where
  "cap c e = (case c of None \<Rightarrow> e | Some x \<Rightarrow> min e x)"

definition derive ::
  "rfc3339 \<Rightarrow> int \<Rightarrow> int \<Rightarrow> approval_expiry_sources option \<Rightarrow> prepared_grant_deadline tm_result" where
  "derive lib effective_now monotonic_now approval =
     (if effective_now < 0 \<or> monotonic_now < 0 then Inl reject
      else
        and_then (some_or_reject (i64_checked (effective_now + LOCAL_ARTIFACT_GRANT_NANOS))) (\<lambda>grant_cap.
        and_then (approval_caps lib approval) (\<lambda>(request_cap, approved_cap).
        let effective_expiry = cap approved_cap (cap request_cap grant_cap)
        in and_then (some_or_reject (rfc_format lib effective_expiry)) (\<lambda>grant_expires_at.
           and_then (some_or_reject (Option.bind (i64_checked (effective_expiry - effective_now))
             (\<lambda>ttl. if 0 < ttl then Some ttl else None))) (\<lambda>ttl.
           and_then (some_or_reject (i64_checked (monotonic_now + ttl))) (\<lambda>deadline.
           Inr \<lparr>pd_grant_expires_at = grant_expires_at, pd_grant_expiry = effective_expiry,
                pd_request_expiry = request_cap, pd_approved_until = approved_cap,
                pd_effective_expiry = effective_expiry, pd_deadline_monotonic = deadline\<rparr>))))))"

definition prepare_local_artifact_deadline ::
  "rfc3339 \<Rightarrow> protected_time_context \<Rightarrow> approval_expiry_sources option \<Rightarrow> prepared_grant_deadline tm_result" where
  "prepare_local_artifact_deadline lib time approval =
     derive lib (pc_effective_unix_nanos time) (pc_monotonic_nanos time) approval"


section \<open>Checking a grant\<close>

datatype grant_deadline_status = Valid | ExpiredMonotonic | ExpiredWall | InvalidOrIncomplete

definition issued_exactly :: "authority_db \<Rightarrow> deadline_row \<Rightarrow> bool" where
  "issued_exactly db d =
     (list_ex (\<lambda>g. gr_key g = dl_key d \<and> gr_expires_at g = dl_grant_expires_at d \<and> gr_approval_id g = dl_approval_id d)
        (at_grants (db_rest db)) \<and>
      list_ex (\<lambda>r. rc_key r = dl_key d \<and> rc_issuance_profile r = ''coordinator-issued-v0.1'')
        (at_receipts (db_rest db)) \<and>
      list_ex (\<lambda>o'. ob_state_revision o' = dl_issued_revision d \<and> ob_confidence o' = ''TRUSTED_LOCAL'' \<and>
                   ob_monotonic o' = Some (dl_issued_monotonic d) \<and> ob_observed o' = Some (dl_issued_observed d) \<and>
                   ob_expiry_floor o' = Some (dl_issued_effective d)) (db_observations db))"

definition session_current :: "authority_db \<Rightarrow> deadline_row \<Rightarrow> protected_time_context \<Rightarrow> bool" where
  "session_current db d time =
     (db_lease db = Some (dl_owner_id d, dl_owner_epoch d) \<and>
      list_ex (\<lambda>c. cs_session_id c = dl_session_id d \<and> cs_owner_id c = dl_owner_id d \<and>
                   cs_owner_epoch c = dl_owner_epoch d \<and> cs_high_water_revision c = pc_state_revision time \<and>
                   cs_high_water_monotonic c = pc_monotonic_nanos time \<and>
                   cs_high_water_observed c = pc_observed_unix_nanos time) (db_sessions db))"

definition time_current :: "authority_db \<Rightarrow> protected_time_context \<Rightarrow> bool" where
  "time_current db time =
     ((case db_time_state db of
         None \<Rightarrow> False
       | Some s \<Rightarrow> ts_confidence s = ''TRUSTED_LOCAL'' \<and> ts_revision s = pc_state_revision time \<and>
                   ts_expiry_floor s = Some (pc_effective_unix_nanos time)) \<and>
      list_ex (\<lambda>o'. ob_state_revision o' = pc_state_revision time \<and> ob_confidence o' = ''TRUSTED_LOCAL'' \<and>
                   ob_monotonic o' = Some (pc_monotonic_nanos time) \<and>
                   ob_observed o' = Some (pc_observed_unix_nanos time) \<and>
                   ob_expiry_floor o' = Some (pc_effective_unix_nanos time)) (db_observations db))"

definition approval_evidence :: "authority_db \<Rightarrow> deadline_row \<Rightarrow> bool" where
  "approval_evidence db d =
     (case dl_approval_id d of
        None \<Rightarrow> dl_request_expires_at d = None \<and> dl_request_expiry d = None \<and> dl_decision_id d = None \<and>
                dl_approved_until d = None \<and> dl_approved_expiry d = None
      | Some approval \<Rightarrow>
          list_ex (\<lambda>a. ar_approval_id a = approval \<and> ar_status a = ''APPROVED'' \<and> ar_expires_at a \<noteq> None \<and>
                       ar_expires_at a = dl_request_expires_at d) (at_approvals (db_rest db)) \<and>
          list_ex (\<lambda>ad. Some (dr_decision_id ad) = dl_decision_id d \<and> dr_approval_id ad = approval \<and>
                        dr_decision ad = ''APPROVE'' \<and> dr_approved_until ad \<noteq> None \<and>
                        dr_approved_until ad = dl_approved_until d) (at_decisions (db_rest db)) \<and>
          dl_request_expiry d \<noteq> None \<and> dl_approved_expiry d \<noteq> None)"

definition not_latched :: "authority_db \<Rightarrow> string \<Rightarrow> bool" where
  "not_latched db grant = (\<not> list_ex (\<lambda>x. la_grant_id x = grant) (at_latches (db_rest db)))"

text \<open>No trusted observation since issuance may be ahead of the sample on the monotonic clock.\<close>

definition no_prior_ahead :: "authority_db \<Rightarrow> deadline_row \<Rightarrow> protected_time_context \<Rightarrow> bool" where
  "no_prior_ahead db d time =
     (\<not> list_ex (\<lambda>o'. dl_issued_revision d \<le> ob_state_revision o' \<and> ob_state_revision o' < pc_state_revision time \<and>
                     ob_confidence o' = ''TRUSTED_LOCAL'' \<and>
                     (case ob_monotonic o' of None \<Rightarrow> True | Some m \<Rightarrow> pc_monotonic_nanos time < m))
         (db_observations db))"

definition evidence ::
  "authority_db \<Rightarrow> string \<Rightarrow> string \<Rightarrow> int \<Rightarrow> protected_time_context \<Rightarrow> deadline_row \<Rightarrow> bool" where
  "evidence db grant owner epoch time d =
     (dl_grant_id d = grant \<and> dl_owner_id d = owner \<and> dl_owner_epoch d = epoch \<and>
      issued_exactly db d \<and> session_current db d time \<and> time_current db time \<and>
      dl_issued_revision d \<le> pc_state_revision time \<and> dl_issued_monotonic d \<le> pc_monotonic_nanos time \<and>
      dl_issued_effective d \<le> pc_effective_unix_nanos time \<and>
      0 \<le> dl_issued_monotonic d \<and> 0 \<le> dl_issued_effective d \<and>
      approval_evidence db d \<and> not_latched db grant \<and> no_prior_ahead db d time)"

text \<open>The stored nanoseconds are those of the stored texts.\<close>

definition caps_match :: "rfc3339 \<Rightarrow> deadline_row \<Rightarrow> bool" where
  "caps_match lib d =
     (parse_rfc_nanos lib (dl_grant_expires_at d) = Some (dl_grant_expiry d) \<and>
      Option.bind (dl_request_expires_at d) (parse_rfc_nanos lib) = dl_request_expiry d \<and>
      Option.bind (dl_approved_until d) (parse_rfc_nanos lib) = dl_approved_expiry d)"

definition duration_matches :: "deadline_row \<Rightarrow> bool" where
  "duration_matches d =
     (Option.bind (Option.bind (i64_checked (dl_effective_expiry d - dl_issued_effective d))
        (\<lambda>duration. if 0 < duration then Some duration else None))
        (\<lambda>duration. i64_checked (dl_issued_monotonic d + duration)) = Some (dl_deadline_monotonic d))"

definition shortest_cap :: "deadline_row \<Rightarrow> int" where
  "shortest_cap d =
     min (min (dl_grant_expiry d) (case dl_request_expiry d of None \<Rightarrow> i64_max | Some x \<Rightarrow> x))
         (case dl_approved_expiry d of None \<Rightarrow> i64_max | Some x \<Rightarrow> x)"

definition check_grant_deadline ::
  "rfc3339 \<Rightarrow> authority_db \<Rightarrow> string \<Rightarrow> string \<Rightarrow> int \<Rightarrow> protected_time_context \<Rightarrow> grant_deadline_status" where
  "check_grant_deadline lib db grant owner epoch time =
     (case find (evidence db grant owner epoch time) (deadlines db) of
        None \<Rightarrow> InvalidOrIncomplete
      | Some d \<Rightarrow>
          if \<not> caps_match lib d \<or> \<not> duration_matches d \<or> dl_effective_expiry d \<noteq> shortest_cap d
          then InvalidOrIncomplete
          else if dl_deadline_monotonic d \<le> pc_monotonic_nanos time then ExpiredMonotonic
          else if dl_effective_expiry d \<le> pc_effective_unix_nanos time then ExpiredWall
          else Valid)"


section \<open>Latching an expiry\<close>

definition latch_exact :: "authority_db \<Rightarrow> deadline_row \<Rightarrow> latch_row \<Rightarrow> bool" where
  "latch_exact db d x =
     (\<not> list_ex (\<lambda>y. la_grant_id y = la_grant_id x) (at_latches (db_rest db)) \<and>
      dl_grant_id d = la_grant_id x \<and> dl_session_id d = la_session_id x \<and>
      dl_owner_id d = la_owner_id x \<and> dl_owner_epoch d = la_owner_epoch x \<and>
      db_lease db = Some (dl_owner_id d, dl_owner_epoch d) \<and>
      list_ex (\<lambda>c. cs_session_id c = dl_session_id d \<and> cs_owner_id c = dl_owner_id d \<and>
                   cs_owner_epoch c = dl_owner_epoch d \<and> la_monotonic x \<le> cs_high_water_monotonic c) (db_sessions db) \<and>
      (case current_observation db of
         None \<Rightarrow> False
       | Some (s, o') \<Rightarrow>
           ts_confidence s = ''TRUSTED_LOCAL'' \<and> ts_revision s = la_revision x \<and> ob_confidence o' = ''TRUSTED_LOCAL'' \<and>
           ob_monotonic o' = Some (la_monotonic x) \<and> ob_observed o' = Some (la_observed x) \<and>
           ob_expiry_floor o' = Some (la_effective x)) \<and>
      ((la_reason x = ''MONOTONIC_DEADLINE'' \<and> dl_deadline_monotonic d \<le> la_monotonic x) \<or>
       (la_reason x = ''WALL_EXPIRY'' \<and> dl_effective_expiry d \<le> la_effective x)))"

definition latch_of :: "deadline_row \<Rightarrow> protected_time_context \<Rightarrow> string \<Rightarrow> latch_row" where
  "latch_of d time reason =
     \<lparr>la_grant_id = dl_grant_id d, la_session_id = dl_session_id d, la_owner_id = dl_owner_id d,
      la_owner_epoch = dl_owner_epoch d, la_revision = pc_state_revision time,
      la_monotonic = pc_monotonic_nanos time, la_observed = pc_observed_unix_nanos time,
      la_effective = pc_effective_unix_nanos time, la_reason = reason\<rparr>"

text \<open>The \<open>CHECK\<close> constraints of the latch table; its foreign keys are among the conditions of the trigger.\<close>

definition latch_checks :: "latch_row \<Rightarrow> bool" where
  "latch_checks x =
     (1 \<le> la_owner_epoch x \<and> 0 \<le> la_monotonic x \<and> la_observed x \<le> la_effective x \<and>
      la_reason x \<in> {''MONOTONIC_DEADLINE'', ''WALL_EXPIRY''})"

definition latch_grant ::
  "string \<Rightarrow> string \<Rightarrow> int \<Rightarrow> protected_time_context \<Rightarrow> string \<Rightarrow> authority_db \<Rightarrow> authority_db tm_result" where
  "latch_grant grant owner epoch time reason db =
     (case filter (\<lambda>d. dl_grant_id d = grant \<and> dl_owner_id d = owner \<and> dl_owner_epoch d = epoch) (deadlines db) of
        [d] \<Rightarrow>
          if \<not> latch_exact db d (latch_of d time reason)
          then Inl (Storage ''grant expiry lacks exact session time or deadline'')
          else if \<not> latch_checks (latch_of d time reason) then Inl (Storage ''CHECK constraint failed'')
          else Inr (db\<lparr>db_rest := (db_rest db)\<lparr>at_latches := at_latches (db_rest db) @ [latch_of d time reason]\<rparr>\<rparr>)
      | _ \<Rightarrow> Inl (InvalidRecord ''AUTHORITY_EXPIRY_LATCH_FAILED''))"

definition check_and_latch_grant_deadline ::
  "rfc3339 \<Rightarrow> string \<Rightarrow> string \<Rightarrow> int \<Rightarrow> protected_time_context \<Rightarrow> authority_db \<Rightarrow> (bool \<times> authority_db) tm_result" where
  "check_and_latch_grant_deadline lib grant owner epoch time db =
     (case check_grant_deadline lib db grant owner epoch time of
        Valid \<Rightarrow> Inr (True, db)
      | ExpiredMonotonic \<Rightarrow> and_then (latch_grant grant owner epoch time ''MONOTONIC_DEADLINE'' db) (\<lambda>db. Inr (False, db))
      | ExpiredWall \<Rightarrow> and_then (latch_grant grant owner epoch time ''WALL_EXPIRY'' db) (\<lambda>db. Inr (False, db))
      | InvalidOrIncomplete \<Rightarrow> Inr (False, db))"

definition authenticated_expiry_latch :: "authority_db \<Rightarrow> string \<Rightarrow> string \<Rightarrow> int \<Rightarrow> bool" where
  "authenticated_expiry_latch db grant owner epoch =
     list_ex (\<lambda>x. la_grant_id x = grant \<and> la_owner_id x = owner \<and> la_owner_epoch x = epoch \<and>
       list_ex (\<lambda>d. dl_grant_id d = la_grant_id x \<and> dl_session_id d = la_session_id x \<and>
                    dl_owner_id d = la_owner_id x \<and> dl_owner_epoch d = la_owner_epoch x \<and>
                    list_ex (\<lambda>g. gr_key g = dl_key d \<and> gr_expires_at g = dl_grant_expires_at d) (at_grants (db_rest db)) \<and>
                    list_ex (\<lambda>r. rc_key r = dl_key d \<and> rc_issuance_profile r = ''coordinator-issued-v0.1'')
                      (at_receipts (db_rest db)) \<and>
                    list_ex (\<lambda>c. cs_session_id c = dl_session_id d \<and> cs_owner_id c = dl_owner_id d \<and>
                                 cs_owner_epoch c = dl_owner_epoch d \<and> la_revision x \<le> cs_high_water_revision c \<and>
                                 la_monotonic x \<le> cs_high_water_monotonic c) (db_sessions db) \<and>
                    ((la_reason x = ''MONOTONIC_DEADLINE'' \<and> dl_deadline_monotonic d \<le> la_monotonic x) \<or>
                     (la_reason x = ''WALL_EXPIRY'' \<and> dl_effective_expiry d \<le> la_effective x)))
         (deadlines db) \<and>
       list_ex (\<lambda>o'. ob_state_revision o' = la_revision x \<and> ob_confidence o' = ''TRUSTED_LOCAL'' \<and>
                    ob_monotonic o' = Some (la_monotonic x) \<and> ob_observed o' = Some (la_observed x) \<and>
                    ob_expiry_floor o' = Some (la_effective x)) (db_observations db))
       (at_latches (db_rest db))"


section \<open>Deadlines are exact\<close>

lemma some_or_reject_Inr: "some_or_reject x = Inr v \<longleftrightarrow> x = Some v"
  by (auto simp: some_or_reject_def split: option.splits)

lemma approval_caps_Inr:
  "approval_caps lib approval = Inr (request, approved) \<longleftrightarrow>
     (case approval of
        None \<Rightarrow> request = None \<and> approved = None
      | Some sources \<Rightarrow> (\<exists>r a. request = Some r \<and> approved = Some a \<and>
          parse_rfc_nanos lib (ax_request_expires_at sources) = Some r \<and>
          parse_rfc_nanos lib (ax_approved_until sources) = Some a))"
  by (auto simp: approval_caps_def parse_nanos_def and_then_Inr_iff some_or_reject_Inr split: option.splits)

lemma cap_le: "cap c e \<le> e"
  by (simp add: cap_def split: option.splits)

lemma derive_Inr_iff:
  "derive lib now ticks approval = Inr p \<longleftrightarrow>
     0 \<le> now \<and> 0 \<le> ticks \<and> now + LOCAL_ARTIFACT_GRANT_NANOS \<le> i64_max \<and>
     (\<exists>request approved expiry text.
        approval_caps lib approval = Inr (request, approved) \<and>
        expiry = cap approved (cap request (now + LOCAL_ARTIFACT_GRANT_NANOS)) \<and>
        rfc_format lib expiry = Some text \<and> now < expiry \<and> ticks + (expiry - now) \<le> i64_max \<and>
        p = \<lparr>pd_grant_expires_at = text, pd_grant_expiry = expiry, pd_request_expiry = request,
             pd_approved_until = approved, pd_effective_expiry = expiry,
             pd_deadline_monotonic = ticks + (expiry - now)\<rparr>)"
proof (cases "0 \<le> now \<and> 0 \<le> ticks")
  case True
  have ttl: "Option.bind (i64_checked (x - now)) (\<lambda>ttl. if 0 < ttl then Some ttl else None) = Some t \<longleftrightarrow>
      t = x - now \<and> now < x" if "x \<le> i64_max" for x t
    using True that by (auto simp: Option.bind_eq_Some_conv i64_checked_Some_iff i64_max_def)
  have dead: "i64_checked (ticks + t) = Some m \<longleftrightarrow> m = ticks + t \<and> ticks + t \<le> i64_max" if "0 < t" for t m
    using True that by (auto simp: i64_checked_Some_iff i64_max_def)
  have grant: "i64_checked (now + LOCAL_ARTIFACT_GRANT_NANOS) = Some g \<longleftrightarrow>
      g = now + LOCAL_ARTIFACT_GRANT_NANOS \<and> now + LOCAL_ARTIFACT_GRANT_NANOS \<le> i64_max" for g
    using True by (auto simp: i64_checked_Some_iff LOCAL_ARTIFACT_GRANT_NANOS_def i64_max_def)
  have le: "cap a (cap r g) \<le> i64_max" if "g \<le> i64_max" for a r g
    using cap_le [of a "cap r g"] cap_le [of r g] that by linarith
  show ?thesis
    using True unfolding derive_def Let_def
    by (auto simp: and_then_Inr_iff some_or_reject_Inr grant ttl le dead)
next
  case False
  then have "derive lib now ticks approval = Inl reject" by (auto simp: derive_def)
  with False show ?thesis by auto
qed

text \<open>
  C26: Preparing a grant deadline succeeds exactly when both clocks are nonnegative, nothing
  overflows, the approval's caps parse, and the earliest cap lies in the future and can be printed;
  the expiry is then the earliest of five minutes and the caps, and the monotonic deadline is the
  same distance ahead.
\<close>

theorem derive_exact:
  "derive lib now ticks approval = Inr p \<longleftrightarrow>
     0 \<le> now \<and> 0 \<le> ticks \<and> now + 300000000000 \<le> i64_max \<and>
     (\<exists>request approved expiry text.
        approval_caps lib approval = Inr (request, approved) \<and>
        expiry = Min ({now + 300000000000} \<union> set_option request \<union> set_option approved) \<and>
        rfc_format lib expiry = Some text \<and> now < expiry \<and> ticks + (expiry - now) \<le> i64_max \<and>
        p = \<lparr>pd_grant_expires_at = text, pd_grant_expiry = expiry, pd_request_expiry = request,
             pd_approved_until = approved, pd_effective_expiry = expiry,
             pd_deadline_monotonic = ticks + (expiry - now)\<rparr>)"
proof -
  have "cap approved (cap request g) = Min ({g} \<union> set_option request \<union> set_option approved)" for approved request g
    by (cases request; cases approved) (auto simp: cap_def min.commute min.left_commute)
  then show ?thesis unfolding derive_Inr_iff LOCAL_ARTIFACT_GRANT_NANOS_def by simp
qed

lemma find_evidence:
  assumes "find (evidence db grant owner epoch time) (deadlines db) = Some d"
  shows "d \<in> set (deadlines db)" "evidence db grant owner epoch time d"
  using assms by (auto simp: find_Some_iff)

lemma check_cases:
  assumes "check_grant_deadline lib db grant owner epoch time = status" and "status \<noteq> InvalidOrIncomplete"
  obtains d where "d \<in> set (deadlines db)" "evidence db grant owner epoch time d" "caps_match lib d"
    "duration_matches d" "dl_effective_expiry d = shortest_cap d"
    "status = (if dl_deadline_monotonic d \<le> pc_monotonic_nanos time then ExpiredMonotonic
               else if dl_effective_expiry d \<le> pc_effective_unix_nanos time then ExpiredWall else Valid)"
proof (cases "find (evidence db grant owner epoch time) (deadlines db)")
  case None
  then show thesis using assms by (simp add: check_grant_deadline_def)
next
  case (Some d)
  then show thesis
    using assms find_evidence [OF Some] by (intro that [of d]) (auto simp: check_grant_deadline_def split: if_splits)
qed

lemma duration_matchesD:
  "duration_matches d \<Longrightarrow> dl_deadline_monotonic d - dl_issued_monotonic d = dl_effective_expiry d - dl_issued_effective d
     \<and> dl_issued_effective d < dl_effective_expiry d"
  by (auto simp: duration_matches_def Option.bind_eq_Some_conv i64_checked_Some_iff split: if_splits)

lemma shortest_cap_le:
  "shortest_cap d \<le> dl_grant_expiry d" "dl_request_expiry d = Some x \<Longrightarrow> shortest_cap d \<le> x"
  "dl_approved_expiry d = Some y \<Longrightarrow> shortest_cap d \<le> y"
  by (auto simp: shortest_cap_def)

text \<open>
  C23: A grant that checks as valid is before every one of its caps on both clocks: the trusted wall
  time is before the grant's own expiry, the request's and the approval's, the monotonic time
  before the deadline, the deadline is as far from issuance as the expiry, and no expiry was latched.
\<close>

theorem valid_grant_before_caps:
  assumes "check_grant_deadline lib db grant owner epoch time = Valid"
  shows "\<exists>d\<in>set (deadlines db). dl_grant_id d = grant \<and>
    db_lease db = Some (owner, epoch) \<and>
    parse_rfc_nanos lib (dl_grant_expires_at d) = Some (dl_grant_expiry d) \<and>
    pc_effective_unix_nanos time < dl_grant_expiry d \<and>
    (case dl_request_expiry d of None \<Rightarrow> True | Some x \<Rightarrow> pc_effective_unix_nanos time < x) \<and>
    (case dl_approved_expiry d of None \<Rightarrow> True | Some x \<Rightarrow> pc_effective_unix_nanos time < x) \<and>
    pc_monotonic_nanos time < dl_deadline_monotonic d \<and>
    dl_deadline_monotonic d - dl_issued_monotonic d = dl_effective_expiry d - dl_issued_effective d \<and>
    not_latched db grant"
proof -
  obtain d where d: "d \<in> set (deadlines db)" "evidence db grant owner epoch time d" "caps_match lib d"
      "duration_matches d" "dl_effective_expiry d = shortest_cap d"
      "Valid = (if dl_deadline_monotonic d \<le> pc_monotonic_nanos time then ExpiredMonotonic
                else if dl_effective_expiry d \<le> pc_effective_unix_nanos time then ExpiredWall else Valid)"
    using assms by (rule check_cases) simp
  have t: "pc_monotonic_nanos time < dl_deadline_monotonic d" "pc_effective_unix_nanos time < shortest_cap d"
    using d(5,6) by (auto split: if_splits)
  have "dl_grant_id d = grant" "db_lease db = Some (owner, epoch)" "not_latched db grant"
    using d(2) by (auto simp: evidence_def session_current_def)
  moreover have "parse_rfc_nanos lib (dl_grant_expires_at d) = Some (dl_grant_expiry d)"
    using d(3) by (simp add: caps_match_def)
  ultimately show ?thesis
    using d(1) t duration_matchesD [OF d(4)] shortest_cap_le [of d]
    by (intro bexI [of _ d]) (auto split: option.splits intro: less_le_trans)
qed



section \<open>From issuance to check\<close>

text \<open>The row the coordinator stores with a grant, from the prepared deadline and its time context.\<close>

definition deadline_from ::
  "grant_key \<Rightarrow> prepared_grant_deadline \<Rightarrow> approval_expiry_sources option \<Rightarrow> string option \<Rightarrow> string option
   \<Rightarrow> string \<Rightarrow> string \<Rightarrow> int \<Rightarrow> protected_time_context \<Rightarrow> deadline_row" where
  "deadline_from key p approval approval_id decision_id session owner epoch time =
     \<lparr>dl_key = key, dl_grant_expires_at = pd_grant_expires_at p, dl_grant_expiry = pd_grant_expiry p,
      dl_approval_id = approval_id, dl_request_expires_at = map_option ax_request_expires_at approval,
      dl_request_expiry = pd_request_expiry p, dl_decision_id = decision_id,
      dl_approved_until = map_option ax_approved_until approval, dl_approved_expiry = pd_approved_until p,
      dl_session_id = session, dl_owner_id = owner, dl_owner_epoch = epoch,
      dl_issued_revision = pc_state_revision time, dl_issued_monotonic = pc_monotonic_nanos time,
      dl_deadline_monotonic = pd_deadline_monotonic p, dl_issued_observed = pc_observed_unix_nanos time,
      dl_issued_effective = pc_effective_unix_nanos time, dl_effective_expiry = pd_effective_expiry p\<rparr>"

lemma derived_row_consistent:
  assumes lib: "rfc_exact lib" and prep: "prepare_local_artifact_deadline lib time approval = Inr p"
    and d_def: "d = deadline_from key p approval approval_id decision_id session owner epoch time"
  shows "caps_match lib d" "duration_matches d" "dl_effective_expiry d = shortest_cap d"
    "pc_monotonic_nanos time < dl_deadline_monotonic d" "pc_effective_unix_nanos time < dl_effective_expiry d"
proof -
  let ?now = "pc_effective_unix_nanos time" and ?ticks = "pc_monotonic_nanos time"
  obtain request approved expiry printed where
      now: "0 \<le> ?now" "0 \<le> ?ticks" "?now + LOCAL_ARTIFACT_GRANT_NANOS \<le> i64_max"
    and caps: "approval_caps lib approval = Inr (request, approved)"
    and e: "expiry = cap approved (cap request (?now + LOCAL_ARTIFACT_GRANT_NANOS))"
    and printed: "rfc_format lib expiry = Some printed" and lt: "?now < expiry" and dl: "?ticks + (expiry - ?now) \<le> i64_max"
    and p: "p = \<lparr>pd_grant_expires_at = printed, pd_grant_expiry = expiry, pd_request_expiry = request,
             pd_approved_until = approved, pd_effective_expiry = expiry,
             pd_deadline_monotonic = ?ticks + (expiry - ?now)\<rparr>"
    using prep unfolding prepare_local_artifact_deadline_def derive_Inr_iff by blast
  have le: "expiry \<le> i64_max"
    using e now(3) cap_le [of approved "cap request (?now + LOCAL_ARTIFACT_GRANT_NANOS)"]
      cap_le [of request "?now + LOCAL_ARTIFACT_GRANT_NANOS"] by linarith
  have "parse_rfc_nanos lib printed = Some expiry"
    using lib printed now(1) lt le by (auto simp: rfc_exact_def parse_rfc_nanos_def i64_checked_def i64_max_def)
  moreover have "Option.bind (map_option ax_request_expires_at approval) (parse_rfc_nanos lib) = request"
    "Option.bind (map_option ax_approved_until approval) (parse_rfc_nanos lib) = approved"
    using caps by (cases approval; auto simp: approval_caps_Inr)+
  ultimately show "caps_match lib d" by (simp add: caps_match_def d_def deadline_from_def p)
  show "duration_matches d"
    using now lt dl le
    by (simp add: duration_matches_def d_def deadline_from_def p i64_checked_def i64_max_def)
  have "expiry \<le> x" if "request = Some x" for x
    using e that cap_le [of approved "cap request (?now + LOCAL_ARTIFACT_GRANT_NANOS)"] by (auto simp: cap_def)
  moreover have "expiry \<le> y" if "approved = Some y" for y using e that by (auto simp: cap_def)
  ultimately show "dl_effective_expiry d = shortest_cap d"
    using le by (auto simp: shortest_cap_def d_def deadline_from_def p min_def split: option.splits)
  show "pc_monotonic_nanos time < dl_deadline_monotonic d" "pc_effective_unix_nanos time < dl_effective_expiry d"
    using lt by (simp_all add: d_def deadline_from_def p)
qed

text \<open>
  C25: A freshly issued grant is valid: when the prepared deadline is stored with the grant and its
  evidence, the check at the time of issuance answers valid.
\<close>

theorem issued_grant_valid:
  assumes "rfc_exact lib" and "prepare_local_artifact_deadline lib time approval = Inr p"
    and "find (evidence db grant owner epoch time) (deadlines db) =
      Some (deadline_from key p approval approval_id decision_id session owner epoch time)"
  shows "check_grant_deadline lib db grant owner epoch time = Valid"
  using derived_row_consistent [OF assms(1,2) refl] assms(3) by (simp add: check_grant_deadline_def not_le)


section \<open>Expiry is final\<close>

definition authority_inv :: "authority_db \<Rightarrow> bool" where
  "authority_inv db \<longleftrightarrow> store_inv db \<and> distinct (map (\<lambda>d. dl_grant_id d) (deadlines db))"

definition authority_le :: "authority_db \<Rightarrow> authority_db \<Rightarrow> bool" where
  "authority_le db db' \<longleftrightarrow>
     clock_le db db' \<and> set (deadlines db) \<subseteq> set (deadlines db') \<and>
     set (at_latches (db_rest db)) \<subseteq> set (at_latches (db_rest db'))"

definition insert_deadline :: "deadline_row \<Rightarrow> authority_db \<Rightarrow> authority_db tm_result" where
  "insert_deadline d db =
     (if dl_grant_id d \<in> set (map (\<lambda>d. dl_grant_id d) (deadlines db))
      then Inl (Storage ''grant deadline lacks exact grant, receipt, session and paired time'')
      else Inr (db\<lparr>db_rest := (db_rest db)\<lparr>at_deadlines := deadlines db @ [d]\<rparr>\<rparr>))"

text \<open>
  The steps of the store seen by the grants: an operation of the clock, the issuance of a deadline, a check
  that may latch, and any other operation; triggers keep the other operations from changing
  deadlines and latches. Of the trigger on new deadlines only the uniqueness of the grant is kept,
  which admits more stores than the schema does.
\<close>

inductive authority_step :: "authority_db \<Rightarrow> authority_db \<Rightarrow> bool" where
  clock_moves: "time_step db db' \<Longrightarrow> db_rest db' = db_rest db \<Longrightarrow> authority_step db db'"
| issued: "insert_deadline d db = Inr db' \<Longrightarrow> authority_step db db'"
| checked: "check_and_latch_grant_deadline lib grant owner epoch time db = Inr (ok, db') \<Longrightarrow> authority_step db db'"
| other: "same_clock db db' \<Longrightarrow> deadlines db' = deadlines db
    \<Longrightarrow> at_latches (db_rest db') = at_latches (db_rest db) \<Longrightarrow> authority_step db db'"

lemma latch_grant_Inr:
  assumes "latch_grant grant owner epoch time reason db = Inr db'"
  shows "same_clock db db' \<and> deadlines db' = deadlines db \<and>
    set (at_latches (db_rest db)) \<subseteq> set (at_latches (db_rest db'))"
  using assms by (auto simp: latch_grant_def same_clock_def split: list.splits if_splits)

lemma check_and_latch_Inr:
  assumes "check_and_latch_grant_deadline lib grant owner epoch time db = Inr (ok, db')"
  shows "same_clock db db' \<and> deadlines db' = deadlines db \<and>
    set (at_latches (db_rest db)) \<subseteq> set (at_latches (db_rest db'))"
  using assms latch_grant_Inr
  by (fastforce simp: check_and_latch_grant_deadline_def and_then_Inr_iff same_clock_def
      split: grant_deadline_status.splits)

lemma clock_le_frame: "same_clock db db' \<Longrightarrow> clock_le db db'"
  by (rule clock_le_step [OF frame])

lemma insert_deadline_Inr:
  "insert_deadline d db = Inr db' \<Longrightarrow>
     same_clock db db' \<and> deadlines db' = deadlines db @ [d] \<and> at_latches (db_rest db') = at_latches (db_rest db) \<and>
     dl_grant_id d \<notin> set (map (\<lambda>d. dl_grant_id d) (deadlines db))"
  by (auto simp: insert_deadline_def same_clock_def split: if_splits)

lemma authority_step_inv: "authority_step db db' \<Longrightarrow> authority_inv db \<Longrightarrow> authority_inv db'"
proof (induction rule: authority_step.induct)
  case (clock_moves db db')
  then show ?case using time_step_store_steps [of db db'] store_inv_steps [of db db'] by (simp add: authority_inv_def)
next
  case (issued d db db')
  then show ?case using insert_deadline_Inr [OF issued(1)] store_inv_frame by (auto simp: authority_inv_def)
qed (auto simp: authority_inv_def dest: store_inv_frame check_and_latch_Inr)

lemma authority_step_le: "authority_step db db' \<Longrightarrow> authority_inv db \<Longrightarrow> authority_le db db'"
proof (induction rule: authority_step.induct)
  case (clock_moves db db')
  then show ?case
    using time_step_store_steps [of db db'] clock.le_run [of db db'] by (simp add: authority_inv_def authority_le_def)
next
  case (issued d db db')
  then show ?case using insert_deadline_Inr [OF issued(1)] by (auto simp: authority_le_def intro: clock_le_frame)
qed (auto simp: authority_le_def intro: clock_le_frame dest: check_and_latch_Inr)

lemma authority_le_trans: "authority_le a b \<Longrightarrow> authority_le b c \<Longrightarrow> authority_le a c"
  by (auto simp: authority_le_def intro: clock_le_trans)

interpretation grants: run_system authority_step authority_inv authority_le
proof
  show "authority_le db db" for db by (simp add: authority_le_def clock_le_refl)
qed (fact authority_step_inv authority_step_le authority_le_trans)+

definition empty_authority :: authority_tables where
  "empty_authority = \<lparr>at_grants = [], at_receipts = [], at_approvals = [], at_decisions = [], at_deadlines = [], at_latches = []\<rparr>"

lemma authority_inv_initial: "authority_inv (initial_store tasks empty_authority)"
  by (simp add: authority_inv_def store_inv_initial) (simp add: initial_store_def empty_authority_def)

lemma observation_unique:
  assumes "store_inv db" and "o1 \<in> set (db_observations db)" and "o2 \<in> set (db_observations db)"
    and "ob_state_revision o1 = ob_state_revision o2"
  shows "o1 = o2"
proof -
  have n: "numbered (db_observations db)" using assms(1) by (auto simp: store_inv_def time_inv_def)
  obtain i j where "i < length (db_observations db)" "j < length (db_observations db)"
      "o1 = db_observations db ! i" "o2 = db_observations db ! j"
    using assms(2,3) by (auto simp: in_set_conv_nth)
  with assms(4) numbered_nth [OF n] show ?thesis by auto
qed

lemma time_currentD:
  assumes "store_inv db" and "time_current db time"
  obtains s o' where "db_time_state db = Some s" "ts_revision s = pc_state_revision time"
    "ts_confidence s = ''TRUSTED_LOCAL''" "floor_of db = Some (pc_effective_unix_nanos time)"
    "o' \<in> set (db_observations db)" "ob_state_revision o' = pc_state_revision time"
    "ob_confidence o' = ''TRUSTED_LOCAL''" "ob_monotonic o' = Some (pc_monotonic_nanos time)"
    "ob_observed o' = Some (pc_observed_unix_nanos time)" "ob_expiry_floor o' = Some (pc_effective_unix_nanos time)"
    "current_observation db = Some (s, o')"
proof -
  obtain s where s: "db_time_state db = Some s" using assms(2) by (auto simp: time_current_def split: option.splits)
  note t = assms(2) [unfolded time_current_def s option.case list_ex_iff]
  obtain o' where o': "o' \<in> set (db_observations db)" "ob_state_revision o' = pc_state_revision time"
      "ob_confidence o' = ''TRUSTED_LOCAL''" "ob_monotonic o' = Some (pc_monotonic_nanos time)"
      "ob_observed o' = Some (pc_observed_unix_nanos time)" "ob_expiry_floor o' = Some (pc_effective_unix_nanos time)"
    using t by blast
  have "observation_at (db_observations db) (pc_state_revision time) = Some o'"
  proof (cases "observation_at (db_observations db) (pc_state_revision time)")
    case None
    then show ?thesis using o'(1,2) by (auto simp: observation_at_def find_None_iff)
  next
    case (Some x)
    then have "x \<in> set (db_observations db)" "ob_state_revision x = ob_state_revision o'"
      using o'(2) by (auto simp: observation_at_def find_Some_iff)
    then show ?thesis using observation_unique [OF assms(1) _ o'(1)] Some by blast
  qed
  then have "current_observation db = Some (s, o')" using s t by (simp add: current_observation_Some)
  moreover have "floor_of db = Some (pc_effective_unix_nanos time)" using s t by (simp add: floor_of_def)
  ultimately show thesis using that [OF s _ _ _ o'] t by blast
qed

lemma same_deadline:
  assumes "authority_inv db" and "d \<in> set (deadlines db)" and "d' \<in> set (deadlines db)"
    and "dl_grant_id d = dl_grant_id d'"
  shows "d = d'"
  using assms by (auto simp: authority_inv_def distinct_map dest: inj_onD)

lemma expired_never_valid_aux:
  assumes inv: "authority_inv db" and inv': "authority_inv db'" and le: "authority_le db db'"
    and ex: "check_grant_deadline lib db grant owner epoch time \<in> {ExpiredMonotonic, ExpiredWall}"
  shows "check_grant_deadline lib' db' grant owner' epoch' time' \<noteq> Valid"
proof
  assume v: "check_grant_deadline lib' db' grant owner' epoch' time' = Valid"
  obtain d where d: "d \<in> set (deadlines db)" "evidence db grant owner epoch time d"
      "dl_deadline_monotonic d \<le> pc_monotonic_nanos time \<or> dl_effective_expiry d \<le> pc_effective_unix_nanos time"
    by (rule check_cases [OF refl, of lib db grant owner epoch time]) (use ex in \<open>auto split: if_splits\<close>)
  obtain d' where d': "d' \<in> set (deadlines db')" "evidence db' grant owner' epoch' time' d'"
      "\<not> dl_deadline_monotonic d' \<le> pc_monotonic_nanos time'" "\<not> dl_effective_expiry d' \<le> pc_effective_unix_nanos time'"
    by (rule check_cases [OF v]) (auto split: if_splits)
  have "d' = d"
    using same_deadline [OF inv' _ d'(1), of d] d(1,2) d'(2) le by (auto simp: evidence_def authority_le_def)
  have si: "store_inv db" "store_inv db'" using inv inv' by (simp_all add: authority_inv_def)
  have cl: "clock_le db db'" using le by (simp add: authority_le_def)
  have tc: "time_current db time" "time_current db' time'" using d(2) d'(2) by (simp_all add: evidence_def)
  obtain o1 where o1: "o1 \<in> set (db_observations db)" "ob_state_revision o1 = pc_state_revision time"
      "ob_confidence o1 = ''TRUSTED_LOCAL''" "ob_monotonic o1 = Some (pc_monotonic_nanos time)"
      and f1: "floor_of db = Some (pc_effective_unix_nanos time)"
    by (rule time_currentD [OF si(1) tc(1)])
  obtain s2 o2 where o2: "o2 \<in> set (db_observations db')" "ob_state_revision o2 = pc_state_revision time'"
      "ob_monotonic o2 = Some (pc_monotonic_nanos time')" and f2: "floor_of db' = Some (pc_effective_unix_nanos time')"
      and s2: "db_time_state db' = Some s2" "ts_revision s2 = pc_state_revision time'"
    by (rule time_currentD [OF si(2) tc(2)])
  have "pc_effective_unix_nanos time \<le> pc_effective_unix_nanos time'"
    using cl f1 f2 by (simp add: clock_le_def not_below_def)
  then have mono_expired: "dl_deadline_monotonic d \<le> pc_monotonic_nanos time" using d(3) d'(4) \<open>d' = d\<close> by auto
  have o1': "o1 \<in> set (db_observations db')" using o1(1) cl by (auto simp: clock_le_def)
  have "pc_state_revision time \<le> pc_state_revision time'"
    using numbered_revision [of "db_observations db'" o1] o1' o1(2) s2 si(2)
    by (auto simp: store_inv_def time_inv_def state_of_ledger_def)
  moreover have "pc_monotonic_nanos time \<le> pc_monotonic_nanos time'"
    if "pc_state_revision time < pc_state_revision time'"
  proof -
    have "dl_issued_revision d \<le> ob_state_revision o1" using d(2) o1(2) by (simp add: evidence_def)
    moreover have "no_prior_ahead db' d time'" using d'(2) \<open>d' = d\<close> by (simp add: evidence_def)
    ultimately have "\<not> pc_monotonic_nanos time' < pc_monotonic_nanos time"
      using o1 o1' that by (auto simp: no_prior_ahead_def list_ex_iff)
    then show ?thesis by simp
  qed
  moreover have "pc_monotonic_nanos time = pc_monotonic_nanos time'"
    if "pc_state_revision time = pc_state_revision time'"
    using observation_unique [OF si(2) o1' o2(1)] o1 o2 that by simp
  ultimately have "pc_monotonic_nanos time \<le> pc_monotonic_nanos time'" by fastforce
  then show False using mono_expired d'(3) \<open>d' = d\<close> by simp
qed

text \<open>
  C22: Expiry is final. If a grant was ever found expired, on the wall clock or on the monotonic
  clock, then no later check finds it valid: not after clock samples that fall back, not for another
  owner or epoch, and not when the latch was never written.
\<close>

theorem expired_never_valid:
  assumes "authority_step\<^sup>*\<^sup>* (initial_store tasks empty_authority) db"
    and "check_grant_deadline lib db grant owner epoch time \<in> {ExpiredMonotonic, ExpiredWall}"
    and "authority_step\<^sup>*\<^sup>* db db'"
  shows "check_grant_deadline lib' db' grant owner' epoch' time' \<noteq> Valid"
proof -
  have inv: "authority_inv db" by (rule grants.inv_run [OF assms(1) authority_inv_initial])
  show ?thesis
    by (rule expired_never_valid_aux [OF inv grants.inv_run [OF assms(3) inv] grants.le_run [OF assms(3) inv] assms(2)])
qed

lemma filter_unique:
  assumes "distinct (map f xs)" and "x \<in> set xs" and "P x" and "\<And>y. P y \<Longrightarrow> f y = f x"
  shows "filter P xs = [x]"
  using assms
proof (induction xs)
  case (Cons y ys)
  show ?case
  proof (cases "x = y")
    case True
    then have "f x \<notin> f ` set ys" using Cons.prems(1) by simp
    then have "\<not> P z" if "z \<in> set ys" for z using Cons.prems(4) [of z] that by (metis imageI)
    then show ?thesis using True Cons.prems(3) by (simp add: filter_empty_conv)
  next
    case False
    then have "x \<in> set ys" using Cons.prems(2) by simp
    moreover have "\<not> P y" using Cons.prems(1) Cons.prems(4) [of y] \<open>x \<in> set ys\<close> by auto
    ultimately show ?thesis using Cons.IH [OF _ _ Cons.prems(3,4)] Cons.prems(1) by simp
  qed
qed simp

lemma latch_grant_succeeds:
  assumes inv: "authority_inv db" and d: "d \<in> set (deadlines db)" "evidence db grant owner epoch time d"
    and r: "reason = ''MONOTONIC_DEADLINE'' \<and> dl_deadline_monotonic d \<le> pc_monotonic_nanos time \<or>
      reason = ''WALL_EXPIRY'' \<and> dl_effective_expiry d \<le> pc_effective_unix_nanos time"
  shows "latch_grant grant owner epoch time reason db =
    Inr (db\<lparr>db_rest := (db_rest db)\<lparr>at_latches := at_latches (db_rest db) @ [latch_of d time reason]\<rparr>\<rparr>)"
proof -
  have si: "store_inv db" and di: "distinct (map (\<lambda>d. dl_grant_id d) (deadlines db))"
    using inv by (simp_all add: authority_inv_def)
  note e = d(2) [unfolded evidence_def]
  have flt: "filter (\<lambda>d. dl_grant_id d = grant \<and> dl_owner_id d = owner \<and> dl_owner_epoch d = epoch) (deadlines db) = [d]"
    using di d(1) e by (intro filter_unique [of "\<lambda>d. dl_grant_id d"]) auto
  obtain s o' where t: "ts_revision s = pc_state_revision time" "ts_confidence s = ''TRUSTED_LOCAL''"
      "ob_confidence o' = ''TRUSTED_LOCAL''" "ob_monotonic o' = Some (pc_monotonic_nanos time)"
      "ob_observed o' = Some (pc_observed_unix_nanos time)" "ob_expiry_floor o' = Some (pc_effective_unix_nanos time)"
      "current_observation db = Some (s, o')"
      and floor: "floor_of db = Some (pc_effective_unix_nanos time)" "o' \<in> set (db_observations db)"
    using e by (elim conjE time_currentD [OF si])
  have "pc_observed_unix_nanos time \<le> pc_effective_unix_nanos time"
    using floor_covers_observations [OF si floor(2)] floor(1) t(5) by (simp add: not_below_def)
  moreover have "1 \<le> dl_owner_epoch d"
    using e si by (auto simp: session_current_def store_inv_def lease_valid_def)
  ultimately have "latch_checks (latch_of d time reason)" using e r by (auto simp: latch_checks_def latch_of_def)
  moreover have "latch_exact db d (latch_of d time reason)"
    unfolding latch_exact_def t(7) option.case prod.case using e t(1-6) r
    by (auto simp: latch_of_def not_latched_def session_current_def list_ex_iff)
  ultimately show ?thesis by (simp add: latch_grant_def flt)
qed

text \<open>
  C24: Latching never fails: whenever a check finds a grant expired, the checking operation returns
  false (its insert passes every trigger and constraint) and leaves a latch that authenticates as expiry evidence.
\<close>

theorem expiry_is_latched:
  assumes "authority_step\<^sup>*\<^sup>* (initial_store tasks empty_authority) db"
    and "check_grant_deadline lib db grant owner epoch time \<in> {ExpiredMonotonic, ExpiredWall}"
  shows "\<exists>db'. check_and_latch_grant_deadline lib grant owner epoch time db = Inr (False, db') \<and>
    \<not> not_latched db' grant \<and> authenticated_expiry_latch db' grant owner epoch"
proof -
  have inv: "authority_inv db" by (rule grants.inv_run [OF assms(1) authority_inv_initial])
  then have si: "store_inv db" by (simp add: authority_inv_def)
  obtain status where st: "check_grant_deadline lib db grant owner epoch time = status" "status \<noteq> InvalidOrIncomplete"
      "status \<in> {ExpiredMonotonic, ExpiredWall}" using assms(2) by auto
  obtain d where d: "d \<in> set (deadlines db)" "evidence db grant owner epoch time d"
      "status = (if dl_deadline_monotonic d \<le> pc_monotonic_nanos time then ExpiredMonotonic
               else if dl_effective_expiry d \<le> pc_effective_unix_nanos time then ExpiredWall else Valid)"
    by (rule check_cases [OF st(1,2)])
  define reason where "reason = (if status = ExpiredMonotonic then ''MONOTONIC_DEADLINE'' else ''WALL_EXPIRY'')"
  let ?db = "db\<lparr>db_rest := (db_rest db)\<lparr>at_latches := at_latches (db_rest db) @ [latch_of d time reason]\<rparr>\<rparr>"
  have r: "reason = ''MONOTONIC_DEADLINE'' \<and> dl_deadline_monotonic d \<le> pc_monotonic_nanos time \<or>
      reason = ''WALL_EXPIRY'' \<and> dl_effective_expiry d \<le> pc_effective_unix_nanos time"
    using st(3) d(3) by (auto simp: reason_def split: if_splits)
  have "check_and_latch_grant_deadline lib grant owner epoch time db =
      and_then (latch_grant grant owner epoch time reason db) (\<lambda>db. Inr (False, db))"
    using st by (auto simp: check_and_latch_grant_deadline_def reason_def)
  then have run: "check_and_latch_grant_deadline lib grant owner epoch time db = Inr (False, ?db)"
    using latch_grant_succeeds [OF inv d(1,2) r] by simp
  note e = d(2) [unfolded evidence_def]
  obtain o' where o': "o' \<in> set (db_observations db)" "ob_state_revision o' = pc_state_revision time"
      "ob_confidence o' = ''TRUSTED_LOCAL''" "ob_monotonic o' = Some (pc_monotonic_nanos time)"
      "ob_observed o' = Some (pc_observed_unix_nanos time)" "ob_expiry_floor o' = Some (pc_effective_unix_nanos time)"
    using e by (elim conjE time_currentD [OF si])
  have "authenticated_expiry_latch ?db grant owner epoch"
    unfolding authenticated_expiry_latch_def list_ex_iff
    by (rule bexI [of _ "latch_of d time reason"])
      (use e d(1) o' r in \<open>auto simp: latch_of_def issued_exactly_def session_current_def list_ex_iff intro!: bexI [of _ d] bexI [of _ o']\<close>)
  moreover have "\<not> not_latched ?db grant" using e by (simp add: not_latched_def latch_of_def)
  ultimately show ?thesis using run by blast
qed



section \<open>A concrete grant\<close>

text \<open>
  A manager opens the store and its clock session, a grant is issued under an approval that ends
  before the five minutes, and is checked at issuance and after its expiry.
\<close>

definition manager_id :: string where
  "manager_id = ''00000000000000000000000000000001''"

definition session_store :: authority_db where
  "session_store = snd (initialize_clock_session decimal_rfc (tick ''100'' 1) (tick ''101'' 2) (tick ''102'' 3) True
     manager_id 1 (claim manager_id (initial_store [''task''] empty_authority)))"

definition issue_time :: protected_time_context where
  "issue_time = \<lparr>pc_now = ''102'', pc_state_revision = 3, pc_observed_unix_nanos = 102,
     pc_effective_unix_nanos = 102, pc_monotonic_nanos = 3\<rparr>"

definition sample_key :: grant_key where
  "sample_key = \<lparr>gk_grant_id = ''grant'', gk_token_id = ''token'', gk_task_id = ''task'',
     gk_execution_binding_id = ''binding'', gk_attempt_id = ''attempt'', gk_policy_decision_id = ''decision'',
     gk_issued_at = ''102''\<rparr>"

definition sample_approval :: approval_expiry_sources where
  "sample_approval = \<lparr>ax_request_expires_at = ''200'', ax_approved_until = ''150''\<rparr>"

definition sample_deadline :: prepared_grant_deadline where
  "sample_deadline = \<lparr>pd_grant_expires_at = ''150'', pd_grant_expiry = 150, pd_request_expiry = Some 200,
     pd_approved_until = Some 150, pd_effective_expiry = 150, pd_deadline_monotonic = 51\<rparr>"

definition sample_row :: deadline_row where
  "sample_row = deadline_from sample_key sample_deadline (Some sample_approval) (Some ''approval'') (Some ''ruling'')
     manager_id manager_id 1 issue_time"

definition issued_tables :: authority_tables where
  "issued_tables =
     \<lparr>at_grants = [\<lparr>gr_key = sample_key, gr_expires_at = ''150'', gr_approval_id = Some ''approval''\<rparr>],
      at_receipts = [\<lparr>rc_key = sample_key, rc_issuance_profile = ''coordinator-issued-v0.1''\<rparr>],
      at_approvals = [\<lparr>ar_approval_id = ''approval'', ar_status = ''APPROVED'', ar_expires_at = Some ''200''\<rparr>],
      at_decisions = [\<lparr>dr_decision_id = ''ruling'', dr_approval_id = ''approval'', dr_decision = ''APPROVE'',
                       dr_approved_until = Some ''150''\<rparr>],
      at_deadlines = [sample_row], at_latches = []\<rparr>"

definition issued_store :: authority_db where
  "issued_store = session_store\<lparr>db_rest := issued_tables\<rparr>"

definition late_time :: protected_time_context where
  "late_time = \<lparr>pc_now = ''160'', pc_state_revision = 5, pc_observed_unix_nanos = 160,
     pc_effective_unix_nanos = 160, pc_monotonic_nanos = 40\<rparr>"

text \<open>The session advanced in a protected observation at wall time 160, 40 ticks into the session.\<close>

definition advance_operation :: "authority_db \<Rightarrow> protected_time_context \<Rightarrow> (unit \<times> authority_db) tm_result" where
  "advance_operation db time = and_then (advance_clock_session_in manager_id 1 time db) (\<lambda>db. Inr ((), db))"

definition late_store :: authority_db where
  "late_store = snd (with_protected_observation decimal_rfc (tick ''159'' 39) (tick ''160'' 40) True
     advance_operation issued_store)"

lemma issued_run:
  "check_grant_deadline decimal_rfc issued_store ''grant'' manager_id 1 issue_time = Valid"
  "check_grant_deadline decimal_rfc late_store ''grant'' manager_id 1 late_time = ExpiredWall"
  by code_simp+

theorem valid_grant_before_caps_witness:
  "\<exists>d. d \<in> set (deadlines issued_store) \<and> dl_grant_id d = ''grant'' \<and> 102 < dl_grant_expiry d \<and> 3 < dl_deadline_monotonic d"
  using valid_grant_before_caps [OF issued_run(1)] by (auto simp: issue_time_def)

theorem issued_grant_valid_witness:
  "check_grant_deadline decimal_rfc issued_store ''grant'' manager_id 1 issue_time = Valid"
proof -
  have p: "prepare_local_artifact_deadline decimal_rfc issue_time (Some sample_approval) = Inr sample_deadline"
    by code_simp
  have e: "evidence issued_store ''grant'' manager_id 1 issue_time sample_row" by code_simp
  have "deadlines issued_store = [sample_row]" by (simp add: issued_store_def issued_tables_def)
  with e have "find (evidence issued_store ''grant'' manager_id 1 issue_time) (deadlines issued_store) = Some sample_row"
    by simp
  then show ?thesis unfolding sample_row_def by (rule issued_grant_valid [OF decimal_rfc_exact p])
qed

lemma issued_reachable: "authority_step\<^sup>*\<^sup>* (initial_store [''task''] empty_authority) issued_store"
proof -
  let ?a = "initial_store [''task''] empty_authority" and ?b = "claim manager_id (initial_store [''task''] empty_authority)"
  let ?c = "session_store\<lparr>db_rest := issued_tables\<lparr>at_deadlines := []\<rparr>\<rparr>"
  have "authority_step ?a ?b"
    by (rule clock_moves [OF opened]) (simp_all add: manager_id_def claim_def)
  moreover have "db_rest session_store = empty_authority" by code_simp
  then have "authority_step ?b session_store"
    unfolding session_store_def by (intro clock_moves session) (simp add: claim_def initial_store_def)
  moreover have "authority_step session_store ?c"
    by (rule other) (simp_all add: same_clock_def \<open>db_rest session_store = empty_authority\<close> empty_authority_def issued_tables_def)
  moreover have "authority_step ?c issued_store"
    by (rule issued [of sample_row]) (simp add: insert_deadline_def issued_store_def issued_tables_def)
  ultimately show ?thesis by (meson converse_rtranclp_into_rtranclp rtranclp.rtrancl_refl)
qed

lemma late_reachable: "authority_step\<^sup>*\<^sup>* (initial_store [''task''] empty_authority) late_store"
proof -
  have "advance_operation d ctx = Inr (v, d') \<Longrightarrow> same_clock d d'" for d ctx v d'
    by (auto simp: advance_operation_def and_then_Inr_iff dest: advance_session_frame)
  then have "time_step issued_store late_store" unfolding late_store_def by (rule observed)
  moreover have "db_rest issued_store = issued_tables" by (simp add: issued_store_def)
  moreover have "db_rest late_store = issued_tables" by code_simp
  ultimately have "authority_step issued_store late_store" by (intro clock_moves) simp_all
  with issued_reachable show ?thesis by (rule rtranclp.rtrancl_into_rtrancl)
qed

theorem expired_never_valid_witness:
  "check_grant_deadline decimal_rfc late_store ''grant'' manager_id 1 issue_time \<noteq> Valid"
proof -
  have "check_grant_deadline decimal_rfc late_store ''grant'' manager_id 1 late_time \<in> {ExpiredMonotonic, ExpiredWall}"
    by (simp add: issued_run(2))
  from expired_never_valid [OF late_reachable this rtranclp.rtrancl_refl] show ?thesis .
qed

theorem expiry_is_latched_witness:
  "\<exists>db'. check_and_latch_grant_deadline decimal_rfc ''grant'' manager_id 1 late_time late_store = Inr (False, db') \<and>
     \<not> not_latched db' ''grant''"
proof -
  have "check_grant_deadline decimal_rfc late_store ''grant'' manager_id 1 late_time \<in> {ExpiredMonotonic, ExpiredWall}"
    by (simp add: issued_run(2))
  from expiry_is_latched [OF late_reachable this] show ?thesis by blast
qed

end
