(* ===== verification/Aios_Journal_Events.thy ===== *)
theory Aios_Journal_Events
  imports Aios_Contracts Aios_Task_Types
begin

text \<open>
  What the provenance journal (\<open>crates/aios-provenance/src/lib.rs\<close>) accepts as an event: the shape
  bounds, the privacy-safe vocabulary of event details and the event contract. A
  \<open>serde_json::Map\<close> is an ordered map (\<open>bmap\<close>). Third-party code is the parameter \<open>journal_lib\<close>:
  SHA-256 on bytes, the RFC 8785 canonicalizer, the JSON reader and writer of \<open>serde_json\<close>, the
  RFC 3339 parser and the compiled JSON schemas.
\<close>

section \<open>Errors and libraries\<close>

datatype journal_error =
  JournalStorage string
  | JournalSerialization string
  | JournalCanonicalization string
  | JournalInvalid string

type_synonym 'a journal_result = "journal_error + 'a"

text \<open>A compiled schema, or why it cannot be compiled.\<close>

type_synonym schema_validator = "string + (json \<Rightarrow> bool)"

record journal_lib =
  jl_sha256 :: "string \<Rightarrow> string"
  jl_canonical :: "json \<Rightarrow> string + string"
  jl_to_string :: "json \<Rightarrow> string"
  jl_read :: "string \<Rightarrow> string + json"
  jl_time :: rfc3339
  jl_event_schema :: schema_validator
  jl_manifest_schema :: schema_validator
  jl_record_schema :: schema_validator
  jl_result_schema :: schema_validator

definition SCHEMA_VERSION :: string where "SCHEMA_VERSION = ''0.1''"
definition HASH_PROFILE :: string where "HASH_PROFILE = ''aios-provenance-event-v0.1''"
definition MAX_EVENT_BYTES :: int where "MAX_EVENT_BYTES = 524288"
definition MAX_DETAILS_BYTES :: int where "MAX_DETAILS_BYTES = 458752"
definition MAX_JSON_DEPTH :: nat where "MAX_JSON_DEPTH = 32"
definition MAX_STRING_CHARS :: int where "MAX_STRING_CHARS = 4096"
definition MAX_ARRAY_ITEMS :: int where "MAX_ARRAY_ITEMS = 512"
definition MAX_OBJECT_FIELDS :: int where "MAX_OBJECT_FIELDS = 256"
definition MAX_SAFE_JSON_INTEGER :: int where "MAX_SAFE_JSON_INTEGER = 9007199254740991"


section \<open>Characters\<close>

text \<open>
  \<open>char::is_whitespace\<close> and \<open>char::is_control\<close> of some scalar of a string, on its UTF-8 bytes: the
  Unicode \<open>White_Space\<close> property and the general category \<open>Cc\<close>. UTF-8 is self-synchronizing, so a
  byte sequence of one scalar never starts inside another.
\<close>

definition byte_between :: "int \<Rightarrow> char \<Rightarrow> int \<Rightarrow> bool" where
  "byte_between lo c hi = (lo \<le> of_char c \<and> of_char c \<le> hi)"

lemma of_char_int: "(of_char c :: int) = int (of_char c)"
  by (rule of_nat_of_char [symmetric])

fun has_whitespace :: "string \<Rightarrow> bool" where
  "has_whitespace [] = False"
| "has_whitespace (c # s) =
     (byte_between 9 c 13 \<or> byte_between 32 c 32 \<or>
      (byte_between 194 c 194 \<and> (case s of d # _ \<Rightarrow> byte_between 133 d 133 \<or> byte_between 160 d 160 | [] \<Rightarrow> False)) \<or>
      (byte_between 225 c 225 \<and>
         (case s of d # e # _ \<Rightarrow> byte_between 154 d 154 \<and> byte_between 128 e 128 | _ \<Rightarrow> False)) \<or>
      (byte_between 226 c 226 \<and>
         (case s of
            d # e # _ \<Rightarrow>
              (byte_between 128 d 128 \<and>
                 (byte_between 128 e 138 \<or> byte_between 168 e 169 \<or> byte_between 175 e 175)) \<or>
              (byte_between 129 d 129 \<and> byte_between 159 e 159)
          | _ \<Rightarrow> False)) \<or>
      (byte_between 227 c 227 \<and>
         (case s of d # e # _ \<Rightarrow> byte_between 128 d 128 \<and> byte_between 128 e 128 | _ \<Rightarrow> False)) \<or>
      has_whitespace s)"

fun has_control :: "string \<Rightarrow> bool" where
  "has_control [] = False"
| "has_control (c # s) =
     (byte_between 0 c 31 \<or> byte_between 127 c 127 \<or>
      (byte_between 194 c 194 \<and> (case s of d # _ \<Rightarrow> byte_between 128 d 159 | [] \<Rightarrow> False)) \<or>
      has_control s)"

definition is_hex_lower :: "char \<Rightarrow> bool" where
  "is_hex_lower c = (is_ascii_digit c \<or> byte_between 97 c 102)"

definition is_ascii_alphanumeric :: "char \<Rightarrow> bool" where
  "is_ascii_alphanumeric c = (is_ascii_digit c \<or> is_ascii_lowercase c \<or> is_ascii_uppercase c)"

definition valid_hash :: "string \<Rightarrow> bool" where
  "valid_hash value =
     (length value = 71 \<and> starts_with ''sha256:'' value \<and> list_all is_hex_lower (drop 7 value))"

definition hex_digit :: "int \<Rightarrow> char" where
  "hex_digit d = (if d < 10 then char_of (48 + d) else char_of (87 + d))"

definition hex_byte :: "char \<Rightarrow> string" where
  "hex_byte c = [hex_digit (of_char c div 16), hex_digit (of_char c mod 16)]"

definition hex_digest :: "string \<Rightarrow> string" where
  "hex_digest bytes = concat (map hex_byte bytes)"


section \<open>Access to JSON values\<close>

definition string_field :: "json \<Rightarrow> string \<Rightarrow> string option" where
  "string_field event key = Option.bind (json_get key event) as_str"

text \<open>\<open>Value::pointer\<close> with two segments, and the \<open>Index\<close> operator, which reads \<open>Null\<close> for a missing member.\<close>

definition pointer2 :: "string \<Rightarrow> string \<Rightarrow> json \<Rightarrow> json option" where
  "pointer2 a b v = Option.bind (json_get a v) (json_get b)"

definition json_index :: "json \<Rightarrow> string \<Rightarrow> json" where
  "json_index v k = (case json_get k v of None \<Rightarrow> Null | Some x \<Rightarrow> x)"

fun value_u64 :: "json \<Rightarrow> int option" where
  "value_u64 (Number n) = map_option uint (as_u64 n)"
| "value_u64 _ = None"

definition is_null :: "json \<Rightarrow> bool" where "is_null v = (v = Null)"

definition is_boolean :: "json \<Rightarrow> bool" where
  "is_boolean v = (case v of Bool _ \<Rightarrow> True | _ \<Rightarrow> False)"

definition unwrap_or_default :: "string option \<Rightarrow> string" where
  "unwrap_or_default v = (case v of None \<Rightarrow> [] | Some s \<Rightarrow> s)"


section \<open>Shape bounds\<close>

text \<open>
  \<open>f64::fract() != 0.0\<close> and \<open>f64::abs() <= 2^53 - 1\<close> on the bit pattern: the fraction of a number is
  in the mantissa bits below its binary point (of a number below one, in all its bits; not-a-number
  differs from zero), and the bit patterns of non-negative numbers are ordered as the numbers.
\<close>

definition f64_fract_nonzero :: "f64 \<Rightarrow> bool" where
  "f64_fract_nonzero w =
     (let magnitude = uint w mod 2 ^ 63; e = nat (magnitude div 2 ^ 52); m = magnitude mod 2 ^ 52 in
      if e = 2047 then True
      else if 1075 \<le> e then False
      else if e < 1023 then magnitude \<noteq> 0
      else m mod 2 ^ (1075 - e) \<noteq> 0)"

definition f64_abs_le_safe :: "f64 \<Rightarrow> bool" where
  "f64_abs_le_safe w = (uint w mod 2 ^ 63 \<le> 4845873199050653695)"

definition safe_json_number :: "json_number \<Rightarrow> bool" where
  "safe_json_number n =
     (case as_i64 n of
        Some i \<Rightarrow> - MAX_SAFE_JSON_INTEGER \<le> i \<and> i \<le> MAX_SAFE_JSON_INTEGER
      | None \<Rightarrow>
          (case as_u64 n of
             Some u \<Rightarrow> uint u \<le> MAX_SAFE_JSON_INTEGER
           | None \<Rightarrow> (case n of Float w \<Rightarrow> f64_fract_nonzero w \<or> f64_abs_le_safe w | _ \<Rightarrow> False)))"

text \<open>What one turn of the loop checks of the value it popped, and the values it pushes.\<close>

fun shape_ok :: "json \<Rightarrow> bool" where
  "shape_ok (String s) = (int (char_count s) \<le> MAX_STRING_CHARS)"
| "shape_ok (Number n) = safe_json_number n"
| "shape_ok (Array vs) = (int (length vs) \<le> MAX_ARRAY_ITEMS)"
| "shape_ok (Object m) =
     (int (length m) \<le> MAX_OBJECT_FIELDS \<and> \<not> list_ex (\<lambda>(k, _). 256 < int (char_count k)) m)"
| "shape_ok _ = True"

fun json_children :: "json \<Rightarrow> json list" where
  "json_children (Array vs) = vs"
| "json_children (Object m) = map snd m"
| "json_children _ = []"

lemma size_json_children: "sum_list (map size (json_children v)) + length (json_children v) \<le> size v"
proof -
  have "sum_list (map size vs) + length vs = size_list size vs" for vs :: "json list"
    by (induction vs) auto
  moreover have "sum_list (map size (map snd m)) + length m \<le> size_list (size_prod (\<lambda>x. 0) size) m"
    for m :: "(string \<times> json) list"
    by (induction m) auto
  ultimately show ?thesis by (cases v) (auto intro: le_SucI)
qed

text \<open>The stack is a list with its top first; \<open>extend\<close> pushes the children in order, so the last is popped first.\<close>

function shape_loop :: "(json \<times> nat) list \<Rightarrow> bool" where
  "shape_loop [] = True"
| "shape_loop ((v, depth) # pending) =
     (if MAX_JSON_DEPTH < depth then False
      else if \<not> shape_ok v then False
      else shape_loop (rev (map (\<lambda>c. (c, depth + 1)) (json_children v)) @ pending))"
  by pat_completeness auto
termination
proof (relation "measure (\<lambda>pending. sum_list (map (\<lambda>(v, _). Suc (size v)) pending))")
  fix v :: json and depth :: nat and pending
  have "sum_list (map (\<lambda>(v, _). Suc (size v)) (rev (map (\<lambda>c. (c, depth + 1)) cs))) =
      sum_list (map size cs) + length cs" for cs :: "json list"
    by (induction cs) auto
  with size_json_children [of v]
  show "(rev (map (\<lambda>c. (c, depth + 1)) (json_children v)) @ pending, (v, depth) # pending)
      \<in> measure (\<lambda>pending. sum_list (map (\<lambda>(v, _). Suc (size v)) pending))"
    by (simp add: le_imp_less_Suc)
qed simp

definition within_shape_bounds :: "json \<Rightarrow> bool" where
  "within_shape_bounds value = shape_loop [(value, 1)]"


section \<open>Validators of detail values\<close>

definition invalid_details :: "string \<Rightarrow> journal_error" where
  "invalid_details message = JournalInvalid (''invalid privacy-safe provenance details: '' @ message)"

definition expect_object_keys :: "json \<Rightarrow> string list \<Rightarrow> (string, json) bmap journal_result" where
  "expect_object_keys value keys =
     (case as_object value of
        None \<Rightarrow> Inl (invalid_details ''typed detail value must be an object'')
      | Some object \<Rightarrow>
          if list_ex (\<lambda>(k, _). k \<notin> set keys) object
          then Inl (invalid_details ''typed detail object has an unknown field'')
          else Inr object)"

definition expect_exact_object :: "json \<Rightarrow> string list \<Rightarrow> (string, json) bmap journal_result" where
  "expect_exact_object value keys =
     and_then (expect_object_keys value keys) (\<lambda>object.
       if length object \<noteq> length keys \<or> list_ex (\<lambda>k. \<not> contains_key object k) keys
       then Inl (invalid_details ''typed detail object has missing fields'')
       else Inr object)"

text \<open>\<open>object["key"]\<close> on a map that passed the exact check, where the member is present.\<close>

definition field :: "(string, json) bmap \<Rightarrow> string \<Rightarrow> json" where
  "field object k = (case map_of object k of None \<Rightarrow> Null | Some v \<Rightarrow> v)"

definition expect_integer :: "json \<Rightarrow> int \<Rightarrow> int option \<Rightarrow> unit journal_result" where
  "expect_integer value minimum maximum =
     ensure (case value_u64 value of
               Some u \<Rightarrow> minimum \<le> u \<and> u \<le> MAX_SAFE_JSON_INTEGER \<and>
                 (case maximum of None \<Rightarrow> True | Some m \<Rightarrow> u \<le> m)
             | None \<Rightarrow> False)
       (invalid_details ''detail value must be a bounded unsigned integer'')"

definition expect_bool :: "json \<Rightarrow> unit journal_result" where
  "expect_bool value = ensure (is_boolean value) (invalid_details ''detail value must be a boolean'')"

definition expect_null :: "json \<Rightarrow> unit journal_result" where
  "expect_null value = ensure (is_null value) (invalid_details ''detail value must be null'')"

definition expect_str :: "json \<Rightarrow> string \<Rightarrow> string journal_result" where
  "expect_str value message =
     (case as_str value of None \<Rightarrow> Inl (invalid_details message) | Some s \<Rightarrow> Inr s)"

definition nullable :: "(json \<Rightarrow> unit journal_result) \<Rightarrow> json \<Rightarrow> unit journal_result" where
  "nullable expect value = (if is_null value then Inr () else expect value)"

definition expect_identifier :: "int \<Rightarrow> json \<Rightarrow> unit journal_result" where
  "expect_identifier maximum value =
     and_then (expect_str value ''identifier detail must be a string'') (\<lambda>s.
       ensure (char_count s \<noteq> 0 \<and> int (char_count s) \<le> maximum \<and> \<not> has_whitespace s)
         (invalid_details ''identifier detail has invalid syntax''))"

definition expect_nullable_identifier :: "int \<Rightarrow> json \<Rightarrow> unit journal_result" where
  "expect_nullable_identifier maximum = nullable (expect_identifier maximum)"

definition expect_task_string :: "int \<Rightarrow> bool \<Rightarrow> json \<Rightarrow> unit journal_result" where
  "expect_task_string maximum nonempty value =
     and_then (expect_str value ''Task-origin detail must be a string'') (\<lambda>s.
       ensure (int (char_count s) \<le> maximum \<and> (nonempty \<longrightarrow> char_count s \<noteq> 0))
         (invalid_details ''Task-origin detail exceeds its Unicode-scalar bounds''))"

definition expect_nullable_task_string :: "int \<Rightarrow> json \<Rightarrow> unit journal_result" where
  "expect_nullable_task_string maximum = nullable (expect_task_string maximum True)"

definition expect_artifact_identifier :: "json \<Rightarrow> unit journal_result" where
  "expect_artifact_identifier value =
     and_then (expect_task_string 256 True value) (\<lambda>_.
       ensure (case as_str value of Some s \<Rightarrow> \<not> has_control s | None \<Rightarrow> True)
         (invalid_details ''Artifact-origin identifier contains a control character''))"

definition expect_nullable_artifact_identifier :: "json \<Rightarrow> unit journal_result" where
  "expect_nullable_artifact_identifier = nullable expect_artifact_identifier"

fun expect_unique_strings :: "int \<Rightarrow> bool \<Rightarrow> string bset \<Rightarrow> json list \<Rightarrow> unit journal_result" where
  "expect_unique_strings maximum_chars nonempty unique [] = Inr ()"
| "expect_unique_strings maximum_chars nonempty unique (v # vs) =
     and_then (expect_task_string maximum_chars nonempty v) (\<lambda>_.
       (let s = unwrap_or_default (as_str v) in
        if s \<in> set unique
        then Inl (invalid_details ''Task-origin collection contains duplicate values'')
        else expect_unique_strings maximum_chars nonempty (bs_insert s unique) vs))"

definition expect_task_string_array :: "int \<Rightarrow> int \<Rightarrow> bool \<Rightarrow> json \<Rightarrow> unit journal_result" where
  "expect_task_string_array maximum_items maximum_chars nonempty value =
     (case as_array value of
        None \<Rightarrow> Inl (invalid_details ''Task-origin collection must be an array'')
      | Some values \<Rightarrow>
          if maximum_items < int (length values)
          then Inl (invalid_details ''Task-origin collection exceeds its item bound'')
          else expect_unique_strings maximum_chars nonempty [] values)"

definition expect_token :: "int \<Rightarrow> json \<Rightarrow> unit journal_result" where
  "expect_token maximum value = expect_identifier maximum value"

definition expect_nullable_token :: "int \<Rightarrow> json \<Rightarrow> unit journal_result" where
  "expect_nullable_token maximum value = expect_nullable_identifier maximum value"

definition expect_safe_identifier :: "json \<Rightarrow> unit journal_result" where
  "expect_safe_identifier value = expect_identifier 256 value"

definition expect_safe_identifier_array :: "int \<Rightarrow> json \<Rightarrow> unit journal_result" where
  "expect_safe_identifier_array maximum_items value =
     (case as_array value of
        None \<Rightarrow> Inl (invalid_details ''action collection must be an array'')
      | Some values \<Rightarrow>
          if maximum_items < int (length values)
          then Inl (invalid_details ''action collection exceeds its item bound'')
          else for_each expect_safe_identifier values)"

definition expect_one_of :: "string list \<Rightarrow> json \<Rightarrow> unit journal_result" where
  "expect_one_of allowed value =
     ensure (case as_str value of Some s \<Rightarrow> s \<in> set allowed | None \<Rightarrow> False)
       (invalid_details ''detail value is not an allowed enum member'')"

definition reason_code_byte :: "char \<Rightarrow> bool" where
  "reason_code_byte c = (is_ascii_uppercase c \<or> is_ascii_digit c \<or> c = CHR ''_'')"

definition expect_reason_code :: "json \<Rightarrow> unit journal_result" where
  "expect_reason_code value =
     and_then (expect_str value ''reason code must be a string'') (\<lambda>s.
       ensure (s \<noteq> [] \<and> int (length s) \<le> 128 \<and> is_ascii_uppercase (hd s) \<and> list_all reason_code_byte s)
         (invalid_details ''reason code has invalid syntax''))"

definition expect_digest :: "json \<Rightarrow> unit journal_result" where
  "expect_digest value =
     ensure (case as_str value of Some s \<Rightarrow> valid_hash s | None \<Rightarrow> False)
       (invalid_details ''digest detail must be lowercase sha256'')"

definition expect_nullable_digest :: "json \<Rightarrow> unit journal_result" where
  "expect_nullable_digest = nullable expect_digest"

definition validate_timestamp :: "journal_lib \<Rightarrow> string \<Rightarrow> unit journal_result" where
  "validate_timestamp lib value =
     ensure (rfc_parse (jl_time lib) value \<noteq> None)
       (JournalInvalid ''provenance timestamp is not RFC 3339'')"

definition expect_timestamp :: "journal_lib \<Rightarrow> json \<Rightarrow> unit journal_result" where
  "expect_timestamp lib value =
     and_then (expect_str value ''timestamp detail must be a string'') (validate_timestamp lib)"

definition expect_nullable_timestamp :: "journal_lib \<Rightarrow> json \<Rightarrow> unit journal_result" where
  "expect_nullable_timestamp lib = nullable (expect_timestamp lib)"

definition expect_certainty :: "json \<Rightarrow> unit journal_result" where
  "expect_certainty =
     expect_one_of [''NOT_STARTED'', ''STARTED_NO_EFFECT'', ''COMPLETED'', ''FAILED_NO_EFFECT'',
       ''FAILED_PARTIAL_EFFECT'', ''OUTCOME_UNKNOWN'']"

definition expect_durability_state :: "json \<Rightarrow> unit journal_result" where
  "expect_durability_state =
     expect_one_of [''STAGED'', ''DURABLE'', ''ORPHANED'', ''CORRUPT'', ''MISSING'']"

definition expect_nullable_durability_state :: "json \<Rightarrow> unit journal_result" where
  "expect_nullable_durability_state = nullable expect_durability_state"


section \<open>Structured details\<close>

definition validate_commitment :: "string \<Rightarrow> bool \<Rightarrow> json \<Rightarrow> unit journal_result" where
  "validate_commitment expected_field is_nullable value =
     (if is_null value
      then (if is_nullable then Inr () else Inl (invalid_details ''required commitment is null''))
      else
        and_then (expect_exact_object value [''kind'', ''version'', ''algorithm'', ''field'', ''commitment'']) (\<lambda>object.
        if Option.bind (map_of object ''kind'') as_str \<noteq> Some ''task-field-commitment'' \<or>
           Option.bind (map_of object ''version'') as_str \<noteq> Some ''v1'' \<or>
           Option.bind (map_of object ''algorithm'') as_str \<noteq> Some ''sha256-keyed-prefix'' \<or>
           Option.bind (map_of object ''field'') as_str \<noteq> Some expected_field
        then Inl (invalid_details ''commitment profile or field is invalid'')
        else expect_digest (field object ''commitment'')))"

definition validate_principal :: "json \<Rightarrow> unit journal_result" where
  "validate_principal value =
     and_then (expect_exact_object value [''kind'', ''id'']) (\<lambda>object.
     and_then (expect_one_of [''user'', ''system-service''] (field object ''kind'')) (\<lambda>_.
     expect_task_string 256 True (field object ''id'')))"

definition validate_creation_constraint :: "journal_lib \<Rightarrow> string \<times> json \<Rightarrow> unit journal_result" where
  "validate_creation_constraint lib = (\<lambda>(key, value).
     if key = ''privacy'' then expect_one_of [''local-only'', ''local-first'', ''remote-allowed''] value
     else if key = ''max_cost_microunits'' then nullable (\<lambda>v. expect_integer v 0 None) value
     else if key = ''deadline'' then expect_nullable_timestamp lib value
     else expect_bool value)"

definition journal_task_creation_constraints :: "journal_lib \<Rightarrow> json \<Rightarrow> unit journal_result" where
  "journal_task_creation_constraints lib value =
     (if is_null value then Inr ()
      else
        and_then (expect_object_keys value
            [''privacy'', ''max_cost_microunits'', ''deadline'', ''preserve_inputs'']) (\<lambda>fields.
          for_each (validate_creation_constraint lib) fields))"

definition validate_creation_field :: "journal_lib \<Rightarrow> string \<times> json \<Rightarrow> unit journal_result" where
  "validate_creation_field lib = (\<lambda>(key, value).
     if key = ''principal'' then validate_principal value
     else if key = ''workspace_id'' then expect_nullable_task_string 256 value
     else if key = ''original_intent_ref'' then validate_commitment ''original_intent'' False value
     else if key = ''normalized_intent_ref'' then validate_commitment ''normalized_intent'' True value
     else if key = ''constraints'' then journal_task_creation_constraints lib value
     else expect_timestamp lib value)"

definition validate_creation_details :: "journal_lib \<Rightarrow> json \<Rightarrow> unit journal_result" where
  "validate_creation_details lib value =
     and_then (expect_exact_object value
         [''principal'', ''workspace_id'', ''original_intent_ref'', ''normalized_intent_ref'',
          ''constraints'', ''created_at'']) (\<lambda>object.
       for_each (validate_creation_field lib) object)"

definition validate_active_program :: "journal_lib \<Rightarrow> json \<Rightarrow> unit journal_result" where
  "validate_active_program lib value =
     (if is_null value then Inr ()
      else
        and_then (expect_exact_object value
            [''program_id'', ''ir_version'', ''semantic_hash'', ''registry_snapshot_id'',
             ''validation_result_id'', ''validated_at'', ''validator_id'', ''validator_version'',
             ''program_content_digest'']) (\<lambda>object.
        and_then (expect_identifier 256 (field object ''program_id'')) (\<lambda>_.
        and_then (expect_token 256 (field object ''ir_version'')) (\<lambda>_.
        and_then (expect_digest (field object ''semantic_hash'')) (\<lambda>_.
        and_then (expect_identifier 256 (field object ''registry_snapshot_id'')) (\<lambda>_.
        and_then (expect_nullable_identifier 256 (field object ''validation_result_id'')) (\<lambda>_.
        and_then (expect_nullable_timestamp lib (field object ''validated_at'')) (\<lambda>_.
        and_then (expect_nullable_identifier 256 (field object ''validator_id'')) (\<lambda>_.
        and_then (expect_nullable_token 256 (field object ''validator_version'')) (\<lambda>_.
        expect_digest (field object ''program_content_digest''))))))))))) "

definition validate_waiting_item :: "bool \<Rightarrow> json \<Rightarrow> unit journal_result" where
  "validate_waiting_item with_commitments value =
     and_then (expect_exact_object value
         (if with_commitments then [''kind'', ''id'', ''message_ref''] else [''kind'', ''id''])) (\<lambda>object.
     and_then (expect_one_of [''input'', ''approval'', ''resource'', ''provider'', ''validation'']
         (field object ''kind'')) (\<lambda>_.
     and_then (expect_task_string 256 True (field object ''id'')) (\<lambda>_.
     if with_commitments then validate_commitment ''waiting_message'' True (field object ''message_ref'')
     else Inr ())))"

definition validate_waiting_on :: "bool \<Rightarrow> json \<Rightarrow> unit journal_result" where
  "validate_waiting_on with_commitments value =
     (if is_null value \<and> with_commitments then Inr ()
      else
        (case as_array value of
           None \<Rightarrow> Inl (invalid_details ''waiting_on must be an array'')
         | Some values \<Rightarrow>
             if 64 < int (length values) then Inl (invalid_details ''waiting_on exceeds its item bound'')
             else for_each (validate_waiting_item with_commitments) values))"

definition validate_mutation_commitments :: "json \<Rightarrow> unit journal_result" where
  "validate_mutation_commitments value =
     and_then (expect_exact_object value [''waiting_on'', ''failure_summary'']) (\<lambda>object.
     and_then (validate_waiting_on True (field object ''waiting_on'')) (\<lambda>_.
     validate_commitment ''failure_summary'' True (field object ''failure_summary'')))"

definition validate_export_reconciliation :: "journal_lib \<Rightarrow> json \<Rightarrow> unit journal_result" where
  "validate_export_reconciliation lib value =
     and_then (expect_exact_object value
         [''verifier_id'', ''evidence_ref'', ''proof_hash'', ''challenge'', ''observed_at'',
          ''subject_hash'', ''recovery_ref'']) (\<lambda>object.
     and_then (expect_artifact_identifier (field object ''verifier_id'')) (\<lambda>_.
     and_then (expect_artifact_identifier (field object ''evidence_ref'')) (\<lambda>_.
     and_then (expect_digest (field object ''proof_hash'')) (\<lambda>_.
     and_then (expect_identifier 256 (field object ''challenge'')) (\<lambda>_.
     and_then (expect_timestamp lib (field object ''observed_at'')) (\<lambda>_.
     and_then (expect_digest (field object ''subject_hash'')) (\<lambda>_.
     expect_identifier 256 (field object ''recovery_ref''))))))))"

definition validate_exact_export_authority :: "json \<Rightarrow> unit journal_result" where
  "validate_exact_export_authority value =
     and_then (expect_exact_object value
         [''selector'', ''service_id'', ''destination_class'', ''descriptor_hash'', ''adapter_id'',
          ''operation_id'', ''source_artifact_id'', ''source_content_hash'', ''purpose'',
          ''sensitivity'', ''max_size_bytes'']) (\<lambda>object.
     and_then (expect_identifier 512 (field object ''selector'')) (\<lambda>_.
     and_then (expect_identifier 512 (field object ''service_id'')) (\<lambda>_.
     and_then (ensure (case as_str (field object ''service_id'') of
                         Some s \<Rightarrow> starts_with ''service://'' s | None \<Rightarrow> False)
                 (invalid_details ''export service identity is invalid'')) (\<lambda>_.
     and_then (expect_identifier 128 (field object ''destination_class'')) (\<lambda>_.
     and_then (expect_digest (field object ''descriptor_hash'')) (\<lambda>_.
     and_then (expect_identifier 256 (field object ''adapter_id'')) (\<lambda>_.
     and_then (expect_artifact_identifier (field object ''operation_id'')) (\<lambda>_.
     and_then (expect_artifact_identifier (field object ''source_artifact_id'')) (\<lambda>_.
     and_then (expect_digest (field object ''source_content_hash'')) (\<lambda>_.
     and_then (expect_task_string 256 True (field object ''purpose'')) (\<lambda>_.
     and_then (expect_one_of [''public'', ''local'', ''private'', ''confidential'', ''secret'']
                 (field object ''sensitivity'')) (\<lambda>_.
     expect_integer (field object ''max_size_bytes'') 1 (Some 8388608)))))))))))))"


section \<open>The vocabulary of event details\<close>

definition allowed_detail_key :: "string \<Rightarrow> string \<Rightarrow> bool" where
  "allowed_detail_key event_type key =
     (if event_type = ''task.created'' then
        key \<in> set [''revision'', ''creation'', ''active_plan'', ''active_step_ids'', ''waiting_on'',
          ''failure'', ''recovery'', ''fixture'']
      else if event_type = ''task.transitioned'' then
        key \<in> set [''related_ids'', ''reason_message_ref'', ''active_program'', ''mutation_text_commitments'']
      else if event_type = ''authorization.granted'' then key \<in> set [''actions'', ''resource'', ''resources'']
      else if event_type \<in> set [''plan.created'', ''plan.revised''] then key \<in> set [''plan_id'', ''revision'']
      else if event_type \<in> set [''provider.selected'', ''placement.selected''] then
        key \<in> set [''locality'', ''isolation_class'']
      else if event_type = ''execution.started'' then
        key \<in> set [''attempt_id'', ''binding_id'', ''node_id'', ''operation_id'', ''phase'', ''intent_hash'',
          ''admission_event_id'', ''admission_event_hash'', ''execution_profile'']
      else if event_type \<in> set [''execution.completed'', ''execution.failed''] then
        key \<in> set [''operation_id'', ''outcome_certainty'', ''effect_boundary'', ''certainty'',
          ''export_reconciliation'', ''recovery_ref'', ''inventory_id'', ''safe_action'', ''reason_code'',
          ''phase'', ''admission_event_id'', ''admission_event_hash'', ''attempt'', ''duration_ms'']
      else if event_type = ''artifact.imported'' then
        key \<in> set [''content_hash'', ''size_bytes'', ''blob_reused'', ''import_id'', ''request_digest'', ''source'']
      else if event_type = ''artifact.created'' then
        key \<in> set [''allocation_id'', ''publication_id'', ''content_hash'', ''size_bytes'', ''blob_reused'', ''type'']
      else if event_type = ''artifact.exported'' then
        key \<in> set [''operation_id'', ''size_bytes'', ''export_authority'']
      else if event_type = ''artifact.integrity-failed'' then
        key \<in> set [''content_hash'', ''observation_ordinal'', ''previous_durability_state'',
          ''durability_state'', ''publication_id'', ''allocation_id'', ''request_digest'', ''reason_code'',
          ''resulted_at'']
      else if event_type \<in> set [''verification.started'', ''verification.completed'', ''verification.failed''] then
        key \<in> set [''index'', ''verified_claims'', ''failed_claims'']
      else if event_type = ''task.completed'' then key \<in> set [''revision'', ''external_egress'', ''verified'']
      else False)"

type_synonym detail_contract = "json \<Rightarrow> unit journal_result"

definition lookup_contract :: "(string \<times> detail_contract) list \<Rightarrow> string \<Rightarrow> detail_contract option" where
  "lookup_contract table key = map_of table key"

definition execution_contracts :: "(string \<times> detail_contract) list" where
  "execution_contracts =
     [(''operation_id'', expect_artifact_identifier),
      (''phase'', expect_one_of [''admitted'', ''delivered'', ''pre-destination-admission'', ''effect-boundary-armed'']),
      (''admission_event_id'', expect_nullable_identifier 256),
      (''admission_event_hash'', expect_nullable_digest)]"

definition outcome_contracts :: "journal_lib \<Rightarrow> (string \<times> detail_contract) list" where
  "outcome_contracts lib =
     [(''outcome_certainty'', expect_certainty),
      (''effect_boundary'', expect_one_of [''destination-not-invoked'']),
      (''certainty'', expect_certainty),
      (''export_reconciliation'', validate_export_reconciliation lib),
      (''recovery_ref'', expect_identifier 256),
      (''inventory_id'', expect_task_string 276 True),
      (''safe_action'', expect_one_of [''CREATE_NEW_ATTEMPT'', ''RECONCILE_STATE'', ''MARK_ATTEMPT_FAILED'',
        ''REQUIRE_EXTERNAL_RECONCILIATION'', ''FAIL_TASK'', ''NO_ACTION'', ''CLEAN_STAGING'']),
      (''reason_code'', expect_reason_code),
      (''attempt'', \<lambda>v. expect_integer v 1 None),
      (''duration_ms'', \<lambda>v. expect_integer v 0 None)]"

definition artifact_contracts :: "journal_lib \<Rightarrow> string \<Rightarrow> (string \<times> detail_contract) list" where
  "artifact_contracts lib event_type =
     (if event_type = ''artifact.imported'' then
        [(''content_hash'', expect_digest), (''size_bytes'', \<lambda>v. expect_integer v 0 None),
         (''blob_reused'', expect_bool), (''import_id'', expect_nullable_artifact_identifier),
         (''request_digest'', expect_digest), (''source'', expect_one_of [''user-selected''])]
      else if event_type = ''artifact.created'' then
        [(''content_hash'', expect_digest), (''size_bytes'', \<lambda>v. expect_integer v 0 None),
         (''blob_reused'', expect_bool), (''allocation_id'', expect_artifact_identifier),
         (''publication_id'', expect_artifact_identifier), (''type'', expect_token 256)]
      else if event_type = ''artifact.exported'' then
        [(''size_bytes'', \<lambda>v. expect_integer v 0 None), (''operation_id'', expect_artifact_identifier),
         (''export_authority'', validate_exact_export_authority)]
      else if event_type = ''artifact.integrity-failed'' then
        [(''content_hash'', expect_digest), (''request_digest'', expect_digest),
         (''allocation_id'', expect_artifact_identifier), (''publication_id'', expect_artifact_identifier),
         (''observation_ordinal'', \<lambda>v. expect_integer v 1 None),
         (''previous_durability_state'', expect_nullable_durability_state),
         (''durability_state'', expect_durability_state), (''reason_code'', expect_reason_code),
         (''resulted_at'', expect_timestamp lib)]
      else [])"

definition detail_contracts :: "journal_lib \<Rightarrow> string \<Rightarrow> (string \<times> detail_contract) list" where
  "detail_contracts lib event_type =
     (if event_type = ''task.created'' then
        [(''revision'', \<lambda>v. expect_integer v 1 (Some 1)), (''creation'', validate_creation_details lib),
         (''active_plan'', expect_null), (''active_step_ids'', expect_task_string_array 512 128 True),
         (''waiting_on'', validate_waiting_on False), (''failure'', expect_null), (''recovery'', expect_null),
         (''fixture'', expect_bool)]
      else if event_type = ''task.transitioned'' then
        [(''related_ids'', expect_task_string_array 32 512 False),
         (''reason_message_ref'', validate_commitment ''reason_message'' True),
         (''active_program'', validate_active_program lib),
         (''mutation_text_commitments'', validate_mutation_commitments)]
      else if event_type = ''authorization.granted'' then
        [(''actions'', expect_safe_identifier_array 64), (''resource'', expect_safe_identifier),
         (''resources'', expect_safe_identifier_array 64)]
      else if event_type \<in> set [''plan.created'', ''plan.revised''] then
        [(''plan_id'', expect_task_string 256 True), (''revision'', \<lambda>v. expect_integer v 1 None)]
      else if event_type \<in> set [''provider.selected'', ''placement.selected''] then
        [(''locality'', expect_one_of [''local'', ''remote'', ''peer'', ''cloud'']),
         (''isolation_class'', expect_one_of [''P0'', ''P1'', ''P2'', ''P3''])]
      else if event_type = ''execution.started'' then
        [(''attempt_id'', expect_task_string 256 True), (''binding_id'', expect_task_string 256 True),
         (''node_id'', expect_task_string 128 True), (''intent_hash'', expect_digest),
         (''execution_profile'', expect_identifier 256)] @ execution_contracts
      else if event_type \<in> set [''execution.completed'', ''execution.failed''] then
        execution_contracts @ outcome_contracts lib
      else if event_type \<in> set [''verification.started'', ''verification.completed'', ''verification.failed''] then
        [(''index'', \<lambda>v. expect_integer v 1 None), (''verified_claims'', \<lambda>v. expect_integer v 0 None),
         (''failed_claims'', \<lambda>v. expect_integer v 0 None)]
      else if event_type = ''task.completed'' then
        [(''revision'', \<lambda>v. expect_integer v 1 None), (''external_egress'', expect_bool),
         (''verified'', expect_bool)]
      else artifact_contracts lib event_type)"

definition validate_detail_value :: "journal_lib \<Rightarrow> string \<Rightarrow> string \<Rightarrow> json \<Rightarrow> unit journal_result" where
  "validate_detail_value lib event_type key value =
     (case lookup_contract (detail_contracts lib event_type) key of
        Some expect \<Rightarrow> expect value
      | None \<Rightarrow> Inl (invalid_details ''detail field has no typed value contract''))"

definition validate_detail :: "journal_lib \<Rightarrow> string \<Rightarrow> string \<times> json \<Rightarrow> unit journal_result" where
  "validate_detail lib event_type = (\<lambda>(key, value).
     if \<not> allowed_detail_key event_type key
     then Inl (JournalInvalid (''provenance details field `'' @ key @ ''` is not in the privacy-safe vocabulary''))
     else validate_detail_value lib event_type key value)"

definition validate_details_vocabulary :: "journal_lib \<Rightarrow> json \<Rightarrow> unit journal_result" where
  "validate_details_vocabulary lib event =
     (case json_get ''details'' event of
        None \<Rightarrow> Inr ()
      | Some details \<Rightarrow>
          (case as_object details of
             None \<Rightarrow> Inl (JournalInvalid ''provenance details must be an object'')
           | Some details \<Rightarrow>
               (let event_type = unwrap_or_default (string_field event ''event_type'') in
                and_then (for_each (validate_detail lib event_type) details) (\<lambda>_.
                if event_type = ''task.created'' \<and>
                   list_ex (\<lambda>key. \<not> contains_key details key)
                     [''revision'', ''creation'', ''active_plan'', ''active_step_ids'', ''waiting_on'',
                      ''failure'', ''recovery'']
                then Inl (invalid_details ''task.created is missing its typed creation projection'')
                else Inr ()))))"


section \<open>The event contract\<close>

definition validate_task_id :: "string \<Rightarrow> unit journal_result" where
  "validate_task_id task_id =
     (let count = int (char_count task_id) in
      if count = 0 then Inl (JournalInvalid ''Task ID is empty'')
      else if 256 < count then Inl (JournalInvalid ''Task ID exceeds 256 Unicode scalars'')
      else Inr ())"

definition stream_char :: "char \<Rightarrow> bool" where
  "stream_char c = (is_ascii_alphanumeric c \<or> c \<in> set ''._:-'')"

definition validate_stream_id :: "string \<Rightarrow> unit journal_result" where
  "validate_stream_id value =
     (case strip_prefix ''task:'' value of
        None \<Rightarrow> Inl (JournalInvalid ''invalid provenance stream ID'')
      | Some key \<Rightarrow>
          (case key of
             [] \<Rightarrow> Inl (JournalInvalid ''invalid provenance stream ID'')
           | first # chars \<Rightarrow>
               ensure (int (length value) \<le> 256 \<and> is_ascii_alphanumeric first \<and> list_all stream_char chars)
                 (JournalInvalid ''invalid provenance stream ID'')))"

text \<open>Members are compared as \<open>Option<&Value>\<close>; a single-element array is compared with its element.\<close>

definition single_item :: "json \<Rightarrow> json option \<Rightarrow> bool" where
  "single_item v source =
     (case as_array v of None \<Rightarrow> False | Some items \<Rightarrow> length items = 1 \<and> Some (hd items) = source)"

definition validate_export_authority_links :: "json \<Rightarrow> unit journal_result" where
  "validate_export_authority_links event =
     (if string_field event ''event_type'' \<noteq> Some ''artifact.exported'' then Inr ()
      else
        (case pointer2 ''details'' ''export_authority'' event of
           None \<Rightarrow> Inr ()
         | Some authority \<Rightarrow>
             (let source = json_get ''source_artifact_id'' authority;
                  transfer = json_index event ''external_transfer''
              in ensure
                   ((case (Option.bind (pointer2 ''details'' ''size_bytes'' event) value_u64,
                           Option.bind (json_get ''max_size_bytes'' authority) value_u64) of
                       (Some bytes, Some maximum) \<Rightarrow> bytes \<le> maximum
                     | _ \<Rightarrow> False) \<and>
                    json_get ''operation_id'' authority = pointer2 ''details'' ''operation_id'' event \<and>
                    single_item (json_index event ''input_artifacts'') source \<and>
                    single_item (json_index transfer ''data_refs'') source \<and>
                    json_get ''service_id'' authority = json_get ''destination'' transfer \<and>
                    json_get ''purpose'' authority = json_get ''purpose'' transfer)
                   (JournalInvalid ''exact export authority conflicts with export event''))))"

definition event_validator :: "journal_lib \<Rightarrow> (json \<Rightarrow> bool) journal_result" where
  "event_validator lib =
     (case jl_event_schema lib of
        Inl e \<Rightarrow> Inl (JournalInvalid (''provenance schema unavailable: '' @ e))
      | Inr valid \<Rightarrow> Inr valid)"

definition checked_suc :: "int \<Rightarrow> int option" where
  "checked_suc n = (if n + 1 < 2 ^ 64 then Some (n + 1) else None)"

definition transition_contiguous :: "json \<Rightarrow> bool" where
  "transition_contiguous event =
     (let transition = json_index event ''task_transition'' in
      Option.bind (Option.bind (json_get ''previous_revision'' transition) value_u64) checked_suc =
      Option.bind (json_get ''new_revision'' transition) value_u64)"

definition event_size_bounds :: "journal_lib \<Rightarrow> json \<Rightarrow> unit journal_result" where
  "event_size_bounds lib event =
     and_then (ensure (int (length (jl_to_string lib event)) \<le> MAX_EVENT_BYTES)
       (JournalInvalid ''provenance event exceeds size or depth bounds'')) (\<lambda>_.
     ensure (case json_get ''details'' event of
               None \<Rightarrow> True
             | Some details \<Rightarrow> int (length (jl_to_string lib details)) \<le> MAX_DETAILS_BYTES)
       (JournalInvalid ''provenance details exceed size bounds''))"

definition identity_bound :: "json \<Rightarrow> string \<Rightarrow> unit journal_result" where
  "identity_bound event key =
     ensure (int (char_count (unwrap_or_default (string_field event key))) \<le> 256)
       (JournalInvalid (''provenance '' @ key @ '' exceeds bounds''))"

definition validate_event_contract :: "journal_lib \<Rightarrow> string \<Rightarrow> json \<Rightarrow> bool \<Rightarrow> unit journal_result" where
  "validate_event_contract lib task_id event source_size_bounds =
     and_then (validate_task_id task_id) (\<lambda>_.
     and_then (ensure (within_shape_bounds event)
       (JournalInvalid ''provenance event exceeds size or depth bounds'')) (\<lambda>_.
     and_then (if source_size_bounds then event_size_bounds lib event else Inr ()) (\<lambda>_.
     and_then (ensure (json_get ''event_hash'' event = None \<and> json_get ''previous_event_hash'' event = None)
       (JournalInvalid ''event payload must not supply journal hash fields'')) (\<lambda>_.
     and_then (event_validator lib) (\<lambda>valid.
     and_then (ensure (valid event)
       (JournalInvalid ''provenance event does not match the typed event contract'')) (\<lambda>_.
     and_then (ensure (string_field event ''task_id'' = Some task_id)
       (JournalInvalid ''provenance event Task identity mismatch'')) (\<lambda>_.
     and_then (for_each (identity_bound event) [''event_id'', ''task_id'']) (\<lambda>_.
     and_then (ensure (int (char_count (unwrap_or_default
                 (Option.bind (pointer2 ''actor'' ''id'' event) as_str))) \<le> 256)
       (JournalInvalid ''provenance actor ID exceeds bounds'')) (\<lambda>_.
     and_then (validate_timestamp lib (unwrap_or_default (string_field event ''timestamp''))) (\<lambda>_.
     and_then (ensure (string_field event ''event_type'' = Some ''task.transitioned'' \<longrightarrow> transition_contiguous event)
       (JournalInvalid ''invalid typed Task transition provenance'')) (\<lambda>_.
     validate_details_vocabulary lib event)))))))))))"

definition validate_event :: "journal_lib \<Rightarrow> string \<Rightarrow> json \<Rightarrow> unit journal_result" where
  "validate_event lib task_id event =
     and_then (validate_event_contract lib task_id event True) (\<lambda>_. validate_export_authority_links event)"

definition validate_stored_event :: "journal_lib \<Rightarrow> json \<Rightarrow> unit journal_result" where
  "validate_stored_event lib event =
     (case string_field event ''task_id'' of
        None \<Rightarrow> Inl (JournalInvalid ''provenance event has no typed Task identity'')
      | Some task_id \<Rightarrow> validate_event lib task_id event)"


section \<open>The shape loop checks every part\<close>

text \<open>
  The bounds on the tree of a value, with the number of levels that are left. The magnitude of a
  finite floating-point number is a multiple of \<open>2^-1074\<close>; \<open>f64_scaled\<close> is that multiple.
\<close>

definition f64_exponent :: "f64 \<Rightarrow> nat" where
  "f64_exponent w = nat (uint w div 2 ^ 52 mod 2 ^ 11)"

definition f64_scaled :: "f64 \<Rightarrow> int" where
  "f64_scaled w =
     (if f64_exponent w = 0 then uint w mod 2 ^ 52
      else (2 ^ 52 + uint w mod 2 ^ 52) * 2 ^ (f64_exponent w - 1))"

definition number_within :: "json_number \<Rightarrow> bool" where
  "number_within n =
     (case n of
        PosInt u \<Rightarrow> uint u \<le> 2 ^ 53 - 1
      | NegInt u \<Rightarrow> \<bar>sint u\<bar> \<le> 2 ^ 53 - 1
      | Float w \<Rightarrow> f64_exponent w = 2047 \<or> \<not> 2 ^ 1074 dvd f64_scaled w \<or> f64_scaled w \<le> (2 ^ 53 - 1) * 2 ^ 1074)"

fun json_within :: "nat \<Rightarrow> json \<Rightarrow> bool" where
  "json_within 0 v = False"
| "json_within (Suc n) Null = True"
| "json_within (Suc n) (Bool b) = True"
| "json_within (Suc n) (Number x) = number_within x"
| "json_within (Suc n) (String s) = (char_count s \<le> 4096)"
| "json_within (Suc n) (Array vs) = (length vs \<le> 512 \<and> (\<forall>v \<in> set vs. json_within n v))"
| "json_within (Suc n) (Object m) = (length m \<le> 256 \<and> (\<forall>(k, v) \<in> set m. char_count k \<le> 256 \<and> json_within n v))"

text \<open>A pattern without its sign is its exponent and mantissa; the order of patterns is that of magnitudes.\<close>

lemma f64_parts:
  fixes w :: f64
  defines "m \<equiv> uint w mod 2 ^ 52"
  shows "uint w mod 2 ^ 63 = int (f64_exponent w) * 2 ^ 52 + m" "0 \<le> m" "m < 2 ^ 52" "f64_exponent w < 2048"
proof -
  have "uint w mod 2 ^ 63 = (uint w div 2 ^ 52 mod 2 ^ 11) * 2 ^ 52 + uint w mod 2 ^ 52"
    using mod_mult2_eq' [of "uint w" "2 ^ 52" "2 ^ 11"] by (simp add: mult.commute)
  then show "uint w mod 2 ^ 63 = int (f64_exponent w) * 2 ^ 52 + m" by (simp add: f64_exponent_def m_def)
  show "0 \<le> m" "m < 2 ^ 52" by (simp_all add: m_def)
  show "f64_exponent w < 2048" by (simp add: f64_exponent_def nat_less_iff)
qed

lemma f64_fields:
  "nat ((uint w mod 2 ^ 63) div 2 ^ 52) = f64_exponent w" "(uint w mod 2 ^ 63) mod 2 ^ 52 = uint w mod 2 ^ 52" for w :: f64
  using f64_parts [of w] by (simp_all add: div_mult_self3 mod_mod_cancel le_imp_power_dvd)


lemma scaled_integral_iff:
  assumes "f64_exponent w < 2047"
  shows "2 ^ 1074 dvd f64_scaled w \<longleftrightarrow> \<not> f64_fract_nonzero w"
proof -
  define e where "e = f64_exponent w"
  define m where "m = uint w mod 2 ^ 52"
  have m: "0 \<le> m" "m < 2 ^ 52" and mag: "uint w mod 2 ^ 63 = int e * 2 ^ 52 + m"
    using f64_parts [of w] by (simp_all add: e_def m_def)
  have sc: "f64_scaled w = (if e = 0 then m else (2 ^ 52 + m) * 2 ^ (e - 1))"
    by (simp only: f64_scaled_def e_def m_def)
  have fr: "f64_fract_nonzero w \<longleftrightarrow>
      (if 1075 \<le> e then False else if e < 1023 then int e * 2 ^ 52 + m \<noteq> 0 else m mod 2 ^ (1075 - e) \<noteq> 0)"
    using assms unfolding f64_fract_nonzero_def Let_def f64_fields mag by (simp add: e_def m_def)
  consider (large) "1075 \<le> e" | (small) "0 < e" "e < 1023" | (zero) "e = 0" | (mixed) "1023 \<le> e" "e < 1075" by linarith
  then show ?thesis
  proof cases
    case large
    then have "(2::int) ^ 1074 dvd 2 ^ (e - 1)" by (intro le_imp_power_dvd) simp
    then show ?thesis using large fr by (simp add: sc)
  next
    case small
    have "(2 ^ 52 + m) * 2 ^ (e - 1) < 2 ^ 53 * 2 ^ (e - 1)" using m by simp
    also have "\<dots> \<le> (2 :: int) ^ 1074" unfolding power_add [symmetric] using small by (intro power_increasing) simp_all
    finally have "\<not> 2 ^ 1074 dvd (2 ^ 52 + m) * 2 ^ (e - 1)" using m by (intro zdvd_not_zless) (simp_all add: zero_less_mult_iff)
    then show ?thesis using small fr m by (simp add: sc)
  next
    case zero
    have "m < 2 ^ 1074" using m(2) power_increasing [of 52 1074 "2 :: int"] by simp
    then have "2 ^ 1074 dvd m \<longleftrightarrow> m = 0" using m(1) zdvd_not_zless [of m "2 ^ 1074"] by fastforce
    then show ?thesis using zero fr by (simp add: sc)
  next
    case mixed
    define k where "k = 1075 - e"
    have split: "(2 :: int) ^ 1074 = 2 ^ k * 2 ^ (e - 1)" using mixed by (simp add: k_def flip: power_add)
    have "2 ^ 1074 dvd (2 ^ 52 + m) * 2 ^ (e - 1) \<longleftrightarrow> 2 ^ k dvd 2 ^ 52 + m"
      unfolding split by (rule dvd_times_right_cancel_iff) simp
    also have "\<dots> \<longleftrightarrow> 2 ^ k dvd m"
      using mixed by (intro dvd_add_right_iff le_imp_power_dvd) (simp add: k_def)
    finally show ?thesis using mixed fr by (simp add: sc k_def dvd_eq_mod_eq_0)
  qed
qed

lemma scaled_le_iff:
  assumes "f64_exponent w < 2047" "2 ^ 1074 dvd f64_scaled w"
  shows "f64_scaled w \<le> (2 ^ 53 - 1) * 2 ^ 1074 \<longleftrightarrow> f64_abs_le_safe w"
proof -
  define e where "e = f64_exponent w"
  define m where "m = uint w mod 2 ^ 52"
  have m: "0 \<le> m" "m < 2 ^ 52" and mag: "uint w mod 2 ^ 63 = int e * 2 ^ 52 + m"
    using f64_parts [of w] by (simp_all add: e_def m_def)
  have sc: "f64_scaled w = (if e = 0 then m else (2 ^ 52 + m) * 2 ^ (e - 1))"
    by (simp only: f64_scaled_def e_def m_def)
  have safe: "f64_abs_le_safe w \<longleftrightarrow> int e * 2 ^ 52 + m \<le> 1075 * 2 ^ 52 + (2 ^ 52 - 1)"
    unfolding f64_abs_le_safe_def mag by simp
  consider (small) "e \<le> 1074" | (edge) "e = 1075" | (large) "1076 \<le> e" by linarith
  then show ?thesis
  proof cases
    case small
    have "f64_scaled w \<le> 2 ^ 53 * 2 ^ 1073"
    proof (cases "e = 0")
      case True
      have "m \<le> 2 ^ 53 * 2 ^ 1073" using m(2) power_increasing [of 52 "53 + 1073" "2 :: int"] unfolding power_add by linarith
      then show ?thesis using True by (simp add: sc)
    next
      case False
      have "(2 :: int) ^ (e - 1) \<le> 2 ^ 1073" using small by (intro power_increasing) simp_all
      then have "(2 ^ 52 + m) * 2 ^ (e - 1) \<le> 2 ^ 53 * 2 ^ 1073" using m by (intro mult_mono) simp_all
      then show ?thesis using False by (simp only: sc if_False)
    qed
    also have "\<dots> \<le> (2 ^ 53 - 1) * 2 ^ (1073 + 1)" unfolding power_add by simp
    finally have "f64_scaled w \<le> (2 ^ 53 - 1) * 2 ^ 1074" by simp
    moreover have "int e * 2 ^ 52 + m \<le> 1075 * 2 ^ 52 + (2 ^ 52 - 1)" using small m by simp
    ultimately show ?thesis using safe by blast
  next
    case edge
    then have "f64_scaled w = (2 ^ 52 + m) * 2 ^ 1074" by (simp add: sc)
    then show ?thesis using safe edge m by simp
  next
    case large
    have "(2 :: int) ^ 1075 \<le> 2 ^ (e - 1)" using large by (intro power_increasing) simp_all
    then have "2 ^ 52 * 2 ^ 1075 \<le> (2 ^ 52 + m) * 2 ^ (e - 1)" using m by (intro mult_mono) simp_all
    moreover have "(2 ^ 53 - 1) * 2 ^ 1074 < 2 ^ 52 * (2 :: int) ^ (1 + 1074)" unfolding power_add by simp
    ultimately have "\<not> f64_scaled w \<le> (2 ^ 53 - 1) * 2 ^ 1074" using large by (simp add: sc)
    moreover have "1076 * 2 ^ 52 \<le> int e * 2 ^ 52" using large by simp
    ultimately show ?thesis using safe m by linarith
  qed
qed

lemma safe_json_number_iff: "safe_json_number n \<longleftrightarrow> number_within n"
proof (cases n)
  case (PosInt u)
  have "- 9007199254740991 \<le> uint u" by (rule order_trans [OF _ uint_ge_0]) simp
  with PosInt show ?thesis by (simp add: safe_json_number_def number_within_def MAX_SAFE_JSON_INTEGER_def)
next
  case (NegInt u)
  then show ?thesis by (auto simp: safe_json_number_def number_within_def MAX_SAFE_JSON_INTEGER_def)
next
  case (Float w)
  note defs = safe_json_number_def number_within_def Float json_number.case as_i64.simps as_u64.simps option.case
  show ?thesis
  proof (cases "f64_exponent w = 2047")
    case True
    then have "f64_fract_nonzero w" unfolding f64_fract_nonzero_def Let_def f64_fields by simp
    then show ?thesis using True unfolding defs by blast
  next
    case False
    then have e: "f64_exponent w < 2047" using f64_parts(4) [of w] by linarith
    show ?thesis using False scaled_integral_iff [OF e] scaled_le_iff [OF e] unfolding defs by blast
  qed
qed

lemma json_within_Suc:
  "json_within (Suc n) v \<longleftrightarrow> shape_ok v \<and> (\<forall>c \<in> set (json_children v). json_within n c)"
  by (cases v) (auto simp: safe_json_number_iff list_ex_iff not_less MAX_STRING_CHARS_def MAX_ARRAY_ITEMS_def MAX_OBJECT_FIELDS_def)

lemma shape_loop_iff: "shape_loop pending \<longleftrightarrow> (\<forall>(v, depth) \<in> set pending. json_within (Suc MAX_JSON_DEPTH - depth) v)"
proof (induction pending rule: shape_loop.induct)
  case (2 v depth pending)
  show ?case
  proof (cases "MAX_JSON_DEPTH < depth")
    case False
    then have "json_within (Suc MAX_JSON_DEPTH - depth) v \<longleftrightarrow>
        shape_ok v \<and> (\<forall>c \<in> set (json_children v). json_within (Suc MAX_JSON_DEPTH - (depth + 1)) c)"
      by (simp add: Suc_diff_le json_within_Suc)
    then show ?thesis using 2 False by (auto simp: ball_Un)
  qed simp
qed simp

text \<open>
  C14: The shape check is exact and always ends. The loop over a stack of pending values accepts an event
  precisely when its tree is at most 32 levels deep, every string has at most 4096 characters, every
  array at most 512 items, every object at most 256 members with keys of at most 256 characters, and
  every number is an integer of magnitude at most \<open>2^53 - 1\<close> or has a fraction.
\<close>

theorem shape_bounds_exact: "within_shape_bounds v \<longleftrightarrow> json_within 32 v"
  by (simp add: within_shape_bounds_def shape_loop_iff MAX_JSON_DEPTH_def)


section \<open>The vocabulary is closed\<close>

lemma map_of_neq_None_iff: "map_of m k \<noteq> None \<longleftrightarrow> k \<in> set (map fst m)"
  by (metis map_of_eq_None_iff set_map)

lemma contract_iff_allowed:
  "lookup_contract (detail_contracts lib event_type) key \<noteq> None \<longleftrightarrow> allowed_detail_key event_type key"
  unfolding lookup_contract_def map_of_neq_None_iff detail_contracts_def allowed_detail_key_def
    artifact_contracts_def execution_contracts_def outcome_contracts_def
  by (simp add: disj_commute disj_left_commute)

end
