(* ===== verification/Aios_Journal.thy ===== *)
theory Aios_Journal
  imports Aios_Journal_Events
begin

text \<open>
  The append-only provenance journal (\<open>crates/aios-provenance/src/lib.rs\<close>): its records and table,
  the hash chain, appending, reading and the two verifiers. \<open>u64\<close> sequence numbers and revisions are
  integers with the saturation and range checks of the source written out. The table is the list of
  its rows; the \<open>UNIQUE\<close>, \<open>NOT NULL\<close>, \<open>CHECK\<close> and foreign key constraints of
  \<open>specs/persistence-v0.1.sql\<close> are the guard of \<open>insert_event\<close>, and a refused insert is a storage error.
\<close>

section \<open>Data\<close>

datatype expected_head = AnyHead | EmptyHead | ExactHead int string

record stream_head =
  sh_stream_id :: string
  sh_sequence :: int
  sh_event_hash :: string

record journal_record =
  jr_schema_version :: string
  jr_hash_profile :: string
  jr_stream_id :: string
  jr_sequence :: int
  jr_previous_event_hash :: "string option"
  jr_event :: json
  jr_event_hash :: string

record record_page =
  rp_records :: "journal_record list"
  rp_next_cursor :: "int option"

datatype journal_severity = JournalError | JournalWarning

record verification_diagnostic =
  vd_severity :: journal_severity
  vd_code :: string
  vd_message :: string
  vd_sequence :: "int option"
  vd_event_id :: "string option"
  vd_related :: "string list"

record verifier_identity =
  vi_id :: string
  vi_version :: string
  vi_build_hash :: "string option"

record verification_result =
  vr_schema_version :: string
  vr_valid :: bool
  vr_stream_id :: string
  vr_from_sequence :: int
  vr_to_sequence :: int
  vr_expected_head_hash :: "string option"
  vr_computed_head_hash :: "string option"
  vr_checkpoint_id :: "string option"
  vr_verifier :: verifier_identity
  vr_diagnostics :: "verification_diagnostic list"
  vr_diagnostics_truncated :: bool
  vr_verified_at :: string

record checkpoint_expectation =
  ck_checkpoint_id :: string
  ck_event_hash :: string

text \<open>A row of \<open>provenance_events\<close>, and the tables it refers to.\<close>

record event_row =
  er_schema_version :: string
  er_hash_profile :: string
  er_event_id :: string
  er_task_id :: string
  er_stream_id :: string
  er_sequence :: int
  er_timestamp :: string
  er_event_type :: string
  er_semantic_program_hash :: "string option"
  er_ir_version :: "string option"
  er_registry_snapshot_id :: "string option"
  er_node_id :: "string option"
  er_execution_binding_id :: "string option"
  er_provider_id :: "string option"
  er_status :: "string option"
  er_previous_event_hash :: "string option"
  er_event_hash :: string
  er_event_json :: string

record journal_db =
  jd_events :: "event_row list"
  jd_tasks :: "string list"
  jd_snapshots :: "string list"
  jd_bindings :: "string list"


section \<open>Reading JSON without duplicate keys\<close>

text \<open>
  The reader parameter gives the members of an object in the order of the text, duplicates included;
  the visitor builds the ordered map and refuses a key it has seen.
\<close>

fun unique_json :: "json \<Rightarrow> json journal_result"
  and unique_items :: "json list \<Rightarrow> json list journal_result"
  and unique_entries :: "(string, json) bmap \<Rightarrow> (string \<times> json) list \<Rightarrow> (string, json) bmap journal_result" where
  "unique_json Null = Inr Null"
| "unique_json (Bool b) = Inr (Bool b)"
| "unique_json (Number n) = Inr (Number n)"
| "unique_json (String s) = Inr (String s)"
| "unique_json (Array vs) = and_then (unique_items vs) (\<lambda>vs. Inr (Array vs))"
| "unique_json (Object es) = and_then (unique_entries [] es) (\<lambda>m. Inr (Object m))"
| "unique_items [] = Inr []"
| "unique_items (v # vs) = and_then (unique_json v) (\<lambda>v. and_then (unique_items vs) (\<lambda>vs. Inr (v # vs)))"
| "unique_entries acc [] = Inr acc"
| "unique_entries acc ((k, v) # es) =
     and_then (unique_json v) (\<lambda>v.
       if contains_key acc k then Inl (JournalSerialization ''duplicate JSON object key'')
       else unique_entries (bm_insert k v acc) es)"

definition parse_unique_json :: "journal_lib \<Rightarrow> string \<Rightarrow> json journal_result" where
  "parse_unique_json lib input =
     (case jl_read lib input of Inl e \<Rightarrow> Inl (JournalSerialization e) | Inr v \<Rightarrow> unique_json v)"


section \<open>Identities and hashes\<close>

definition nul :: string where "nul = [CHR 0x00]"

definition STREAM_DOMAIN :: string where
  "STREAM_DOMAIN = ''AIOS-TASK-PROVENANCE-STREAM-ID'' @ nul @ ''v1'' @ nul"

definition HASH_DOMAIN :: string where
  "HASH_DOMAIN = ''AIOS-PROVENANCE-EVENT'' @ nul @ ''v0.1'' @ nul"

definition stream_id :: "journal_lib \<Rightarrow> string \<Rightarrow> string journal_result" where
  "stream_id lib task_id =
     and_then (validate_task_id task_id) (\<lambda>_.
       Inr (''task:v1:sha256:'' @ hex_digest (jl_sha256 lib (STREAM_DOMAIN @ task_id))))"

definition optional_string :: "string option \<Rightarrow> json" where
  "optional_string v = (case v of None \<Rightarrow> Null | Some s \<Rightarrow> String s)"

definition u64_number :: "int \<Rightarrow> json" where
  "u64_number n = Number (PosInt (word_of_int n))"

definition canonical_bytes :: "journal_lib \<Rightarrow> json \<Rightarrow> string journal_result" where
  "canonical_bytes lib v =
     (case jl_canonical lib v of Inl e \<Rightarrow> Inl (JournalCanonicalization e) | Inr bytes \<Rightarrow> Inr bytes)"

definition record_view :: "string \<Rightarrow> int \<Rightarrow> string option \<Rightarrow> (string, json) bmap \<Rightarrow> json" where
  "record_view stream sequence previous object =
     Object [(''event'', Object (filter (\<lambda>(k, _). k \<noteq> ''event_hash'' \<and> k \<noteq> ''previous_event_hash'') object)),
             (''hash_profile'', String HASH_PROFILE),
             (''previous_event_hash'', optional_string previous),
             (''schema_version'', String SCHEMA_VERSION),
             (''sequence'', u64_number sequence),
             (''stream_id'', String stream)]"

definition hash_record :: "journal_lib \<Rightarrow> string \<Rightarrow> int \<Rightarrow> string option \<Rightarrow> json \<Rightarrow> string journal_result" where
  "hash_record lib stream sequence previous event =
     (if sequence = 0 \<or> MAX_SAFE_JSON_INTEGER < sequence \<or> \<not> within_shape_bounds event
      then Inl (JournalInvalid ''provenance event exceeds shape bounds'')
      else
        (case as_object event of
           None \<Rightarrow> Inl (JournalInvalid ''provenance event must be an object'')
         | Some object \<Rightarrow>
             and_then (canonical_bytes lib (record_view stream sequence previous object)) (\<lambda>canonical.
               Inr (''sha256:'' @ hex_digest (jl_sha256 lib (HASH_DOMAIN @ canonical))))))"


section \<open>Task revisions\<close>

type_synonym task_revision = "(int \<times> string) option"

definition validate_sequence_event_invariant :: "int \<Rightarrow> json \<Rightarrow> unit journal_result" where
  "validate_sequence_event_invariant sequence event =
     ensure ((sequence = 1) = (string_field event ''event_type'' = Some ''task.created''))
       (JournalInvalid ''task.created must occur exactly at provenance genesis'')"

definition transition_string :: "string \<Rightarrow> json \<Rightarrow> string option" where
  "transition_string key event = Option.bind (pointer2 ''task_transition'' key event) as_str"

definition transition_u64 :: "string \<Rightarrow> json \<Rightarrow> int option" where
  "transition_u64 key event = Option.bind (pointer2 ''task_transition'' key event) value_u64"

definition advance_task_revision :: "task_revision \<Rightarrow> json \<Rightarrow> task_revision journal_result" where
  "advance_task_revision latest event =
     (if string_field event ''event_type'' = Some ''task.created'' then
        (if latest \<noteq> None then Inl (JournalInvalid ''Task creation revision is not genesis'')
         else Inr (Some (1, ''CREATED'')))
      else if string_field event ''event_type'' = Some ''task.transitioned'' then
        (case (transition_u64 ''new_revision'' event, transition_string ''new_state'' event) of
           (Some next_revision, Some next_state) \<Rightarrow>
             if transition_u64 ''previous_revision'' event = map_option fst latest \<and>
                transition_string ''previous_state'' event = map_option snd latest
             then Inr (Some (next_revision, next_state))
             else Inl (JournalInvalid ''Task transition revision or state is discontinuous'')
         | _ \<Rightarrow> Inl (JournalInvalid ''Task transition revision or state is discontinuous''))
      else Inr latest)"


section \<open>The table\<close>

definition stream_rows :: "journal_db \<Rightarrow> string \<Rightarrow> event_row list" where
  "stream_rows db stream = sort_key er_sequence (filter (\<lambda>r. er_stream_id r = stream) (jd_events db))"

datatype row_error = FromSqlConversionFailure string | InvalidColumnType string | IntegralValueOutOfRange string | OtherSqlite string

definition malformed_row_error :: "row_error \<Rightarrow> bool" where
  "malformed_row_error e = (case e of OtherSqlite _ \<Rightarrow> False | _ \<Rightarrow> True)"

definition row_error_text :: "row_error \<Rightarrow> string" where
  "row_error_text e =
     (case e of FromSqlConversionFailure m \<Rightarrow> m | InvalidColumnType m \<Rightarrow> m | IntegralValueOutOfRange m \<Rightarrow> m
      | OtherSqlite m \<Rightarrow> m)"

definition bounded_row_text :: "string \<Rightarrow> row_error + string" where
  "bounded_row_text text_value =
     (if MAX_EVENT_BYTES < int (length text_value)
      then Inl (FromSqlConversionFailure ''stored provenance text column exceeds its byte bound'')
      else Inr text_value)"

definition bounded_nullable_row_text :: "string option \<Rightarrow> row_error + string option" where
  "bounded_nullable_row_text v =
     (case v of None \<Rightarrow> Inr None | Some s \<Rightarrow> and_then (bounded_row_text s) (\<lambda>s. Inr (Some s)))"

definition row_to_record :: "journal_lib \<Rightarrow> event_row \<Rightarrow> row_error + journal_record" where
  "row_to_record lib row =
     (if MAX_EVENT_BYTES < int (length (er_event_json row))
      then Inl (FromSqlConversionFailure ''stored provenance event exceeds its byte bound'')
      else
        (case parse_unique_json lib (er_event_json row) of
           Inl _ \<Rightarrow> Inl (FromSqlConversionFailure ''event_json'')
         | Inr event \<Rightarrow>
             and_then (bounded_row_text (er_schema_version row)) (\<lambda>schema_version.
             and_then (bounded_row_text (er_hash_profile row)) (\<lambda>hash_profile.
             and_then (bounded_row_text (er_stream_id row)) (\<lambda>stream.
             and_then (if er_sequence row < 0 then Inl (FromSqlConversionFailure ''sequence'')
                       else Inr (er_sequence row)) (\<lambda>sequence.
             and_then (bounded_nullable_row_text (er_previous_event_hash row)) (\<lambda>previous.
             and_then (bounded_row_text (er_event_hash row)) (\<lambda>event_hash.
             Inr \<lparr>jr_schema_version = schema_version, jr_hash_profile = hash_profile, jr_stream_id = stream,
                  jr_sequence = sequence, jr_previous_event_hash = previous, jr_event = event,
                  jr_event_hash = event_hash\<rparr>))))))))"

definition storage :: "row_error + 'a \<Rightarrow> 'a journal_result" where
  "storage r = (case r of Inl e \<Rightarrow> Inl (JournalStorage (row_error_text e)) | Inr x \<Rightarrow> Inr x)"

definition get_head :: "journal_db \<Rightarrow> string \<Rightarrow> stream_head option journal_result" where
  "get_head db stream =
     and_then (validate_stream_id stream) (\<lambda>_.
       (case rev (stream_rows db stream) of
          [] \<Rightarrow> Inr None
        | row # _ \<Rightarrow>
            and_then (storage (bounded_row_text (er_event_hash row))) (\<lambda>event_hash.
              if er_sequence row \<le> 0 \<or> \<not> valid_hash event_hash
              then Inl (JournalInvalid ''stored provenance head is invalid'')
              else Inr (Some \<lparr>sh_stream_id = stream, sh_sequence = er_sequence row, sh_event_hash = event_hash\<rparr>))))"

fun collect_rows :: "('a \<Rightarrow> 'e + 'b) \<Rightarrow> 'a list \<Rightarrow> 'e + 'b list" where
  "collect_rows f [] = Inr []"
| "collect_rows f (x # xs) = and_then (f x) (\<lambda>y. and_then (collect_rows f xs) (\<lambda>ys. Inr (y # ys)))"

definition MAX_PAGE_SIZE :: int where "MAX_PAGE_SIZE = 256"

definition list_events :: "journal_lib \<Rightarrow> journal_db \<Rightarrow> string \<Rightarrow> int option \<Rightarrow> int \<Rightarrow> record_page journal_result" where
  "list_events lib db stream after_sequence limit =
     and_then (validate_stream_id stream) (\<lambda>_.
     if limit = 0 \<or> MAX_PAGE_SIZE < limit then Inl (JournalInvalid ''provenance page limit is out of bounds'')
     else
       (case i64_checked (case after_sequence of None \<Rightarrow> 0 | Some s \<Rightarrow> s) of
          None \<Rightarrow> Inl (JournalInvalid ''provenance cursor exceeds SQLite range'')
        | Some cursor \<Rightarrow>
            and_then (storage (collect_rows (row_to_record lib)
                (take (nat limit + 1) (filter (\<lambda>r. cursor < er_sequence r) (stream_rows db stream))))) (\<lambda>records.
            Inr (if nat limit < length records
                 then \<lparr>rp_records = butlast records,
                       rp_next_cursor = (case rev (butlast records) of [] \<Rightarrow> None | r # _ \<Rightarrow> Some (jr_sequence r))\<rparr>
                 else \<lparr>rp_records = records, rp_next_cursor = None\<rparr>))))"

definition optional_in :: "string option \<Rightarrow> string list \<Rightarrow> bool" where
  "optional_in v ids = (case v of None \<Rightarrow> True | Some i \<Rightarrow> i \<in> set ids)"

definition insert_allowed :: "journal_db \<Rightarrow> event_row \<Rightarrow> bool" where
  "insert_allowed db row =
     (1 \<le> er_sequence row \<and> er_task_id row \<in> set (jd_tasks db) \<and>
      optional_in (er_registry_snapshot_id row) (jd_snapshots db) \<and>
      optional_in (er_execution_binding_id row) (jd_bindings db) \<and>
      \<not> list_ex (\<lambda>r. er_event_id r = er_event_id row \<or>
           (er_task_id r = er_task_id row \<or> er_stream_id r = er_stream_id row) \<and> er_sequence r = er_sequence row)
         (jd_events db))"

definition insert_event :: "event_row \<Rightarrow> journal_db \<Rightarrow> journal_db journal_result" where
  "insert_event row db =
     (if insert_allowed db row then Inr (db\<lparr>jd_events := jd_events db @ [row]\<rparr>)
      else Inl (JournalStorage ''constraint failed''))"


section \<open>Appending\<close>

definition is_task_event :: "event_row \<Rightarrow> bool" where
  "is_task_event row = (er_event_type row = ''task.created'' \<or> er_event_type row = ''task.transitioned'')"

definition latest_task_revision_in_tx :: "journal_lib \<Rightarrow> journal_db \<Rightarrow> string \<Rightarrow> task_revision journal_result" where
  "latest_task_revision_in_tx lib db stream =
     (case rev (filter is_task_event (stream_rows db stream)) of
        [] \<Rightarrow> Inr None
      | row # _ \<Rightarrow>
          and_then (storage (bounded_row_text (er_event_type row))) (\<lambda>event_type.
          and_then (storage (bounded_row_text (er_event_json row))) (\<lambda>event_json.
          and_then (parse_unique_json lib event_json) (\<lambda>event.
          and_then (ensure (string_field event ''event_type'' = Some event_type)
            (JournalInvalid ''stored Task revision event conflicts with its index'')) (\<lambda>_.
          and_then (validate_stored_event lib event) (\<lambda>_.
          if event_type = ''task.created'' then Inr (Some (1, ''CREATED''))
          else
            (let transition = json_index event ''task_transition'' in
             case value_u64 (json_index transition ''new_revision'') of
               None \<Rightarrow> Inl (JournalInvalid ''stored Task transition has no revision'')
             | Some revision \<Rightarrow>
                 (case as_str (json_index transition ''new_state'') of
                    None \<Rightarrow> Inl (JournalInvalid ''stored Task transition has no state'')
                  | Some state \<Rightarrow> Inr (Some (revision, state))))))))))"

definition service_export_without_authority :: "json \<Rightarrow> bool" where
  "service_export_without_authority event =
     (string_field event ''event_type'' = Some ''artifact.exported'' \<and>
      (case Option.bind (pointer2 ''external_transfer'' ''destination'' event) as_str of
         Some destination \<Rightarrow> starts_with ''service://'' destination | None \<Rightarrow> False) \<and>
      pointer2 ''details'' ''export_authority'' event = None)"

definition head_matches :: "expected_head \<Rightarrow> stream_head option \<Rightarrow> bool" where
  "head_matches expected head =
     (case (expected, head) of
        (AnyHead, _) \<Rightarrow> True
      | (EmptyHead, None) \<Rightarrow> True
      | (ExactHead sequence event_hash, Some actual) \<Rightarrow>
          sequence = sh_sequence actual \<and> event_hash = sh_event_hash actual
      | _ \<Rightarrow> False)"

definition u64_max :: int where "u64_max = 18446744073709551615"

definition saturating_suc :: "int \<Rightarrow> int" where
  "saturating_suc n = (if n < u64_max then n + 1 else u64_max)"

definition required :: "string option \<Rightarrow> string journal_result" where
  "required v = (case v of None \<Rightarrow> Inl (JournalStorage ''NOT NULL constraint failed'') | Some s \<Rightarrow> Inr s)"

text \<open>The \<open>INSERT\<close> of an event: the index columns are read from the event.\<close>

definition store_event ::
  "journal_lib \<Rightarrow> string \<Rightarrow> string \<Rightarrow> int \<Rightarrow> string option \<Rightarrow> string \<Rightarrow> json \<Rightarrow> journal_db \<Rightarrow> journal_db journal_result" where
  "store_event lib task_id stream sequence previous event_hash event db =
     and_then (case string_field event ''event_id'' of
                 None \<Rightarrow> Inl (JournalInvalid ''validated event has no event ID'') | Some i \<Rightarrow> Inr i) (\<lambda>event_id.
     and_then (case i64_checked sequence of
                 None \<Rightarrow> Inl (JournalInvalid ''provenance sequence exceeds SQLite range'') | Some s \<Rightarrow> Inr s) (\<lambda>sequence.
     and_then (required (string_field event ''timestamp'')) (\<lambda>timestamp.
     and_then (required (string_field event ''event_type'')) (\<lambda>event_type.
     insert_event
       \<lparr>er_schema_version = SCHEMA_VERSION, er_hash_profile = HASH_PROFILE, er_event_id = event_id,
        er_task_id = task_id, er_stream_id = stream, er_sequence = sequence, er_timestamp = timestamp,
        er_event_type = event_type, er_semantic_program_hash = string_field event ''semantic_program_hash'',
        er_ir_version = string_field event ''ir_version'',
        er_registry_snapshot_id = string_field event ''registry_snapshot_id'',
        er_node_id = string_field event ''step_id'',
        er_execution_binding_id = string_field event ''execution_binding_id'',
        er_provider_id = string_field event ''provider_id'', er_status = string_field event ''status'',
        er_previous_event_hash = previous, er_event_hash = event_hash,
        er_event_json = jl_to_string lib event\<rparr> db))))"

definition append_in_tx ::
  "journal_lib \<Rightarrow> string \<Rightarrow> json \<Rightarrow> expected_head \<Rightarrow> journal_db \<Rightarrow> (journal_record \<times> journal_db) journal_result" where
  "append_in_tx lib task_id event expected_head db =
     and_then (validate_event lib task_id event) (\<lambda>_.
     and_then (ensure (\<not> service_export_without_authority event)
       (JournalInvalid ''exact service export requires export authority'')) (\<lambda>_.
     and_then (stream_id lib task_id) (\<lambda>stream.
     and_then (get_head db stream) (\<lambda>head.
     and_then (ensure (head_matches expected_head head) (JournalInvalid ''stale provenance stream head'')) (\<lambda>_.
     (let sequence = (case head of None \<Rightarrow> 1 | Some h \<Rightarrow> saturating_suc (sh_sequence h)) in
     and_then (ensure (sequence \<noteq> u64_max) (JournalInvalid ''provenance sequence overflow'')) (\<lambda>_.
     and_then (validate_sequence_event_invariant sequence event) (\<lambda>_.
     and_then (if string_field event ''event_type'' = Some ''task.transitioned''
               then and_then (latest_task_revision_in_tx lib db stream) (\<lambda>latest.
                      and_then (advance_task_revision latest event) (\<lambda>_. Inr ()))
               else Inr ()) (\<lambda>_.
     (let previous = map_option sh_event_hash head in
     and_then (hash_record lib stream sequence previous event) (\<lambda>event_hash.
     and_then (store_event lib task_id stream sequence previous event_hash event db) (\<lambda>db.
     Inr (\<lparr>jr_schema_version = SCHEMA_VERSION, jr_hash_profile = HASH_PROFILE, jr_stream_id = stream,
           jr_sequence = sequence, jr_previous_event_hash = previous, jr_event = event,
           jr_event_hash = event_hash\<rparr>, db)))))))))))))"


section \<open>Verification\<close>

definition journal_verifier :: verifier_identity where
  "journal_verifier = \<lparr>vi_id = ''aios-provenance'', vi_version = ''0.1.0'', vi_build_hash = None\<rparr>"

definition diagnostic_event_id :: "string \<Rightarrow> string option" where
  "diagnostic_event_id value = (if value \<noteq> [] \<and> int (char_count value) \<le> 256 then Some value else None)"

definition failure ::
  "string \<Rightarrow> string \<Rightarrow> string \<Rightarrow> string \<Rightarrow> int option \<Rightarrow> string option \<Rightarrow> string option \<Rightarrow> checkpoint_expectation option
   \<Rightarrow> verification_result" where
  "failure stream verified_at code message sequence event_id computed_head_hash checkpoint =
     (let sequence = Option.bind sequence (\<lambda>s. if 0 < s then Some s else None) in
      \<lparr>vr_schema_version = SCHEMA_VERSION, vr_valid = False, vr_stream_id = stream, vr_from_sequence = 1,
       vr_to_sequence = max (case sequence of None \<Rightarrow> 1 | Some s \<Rightarrow> s) 1,
       vr_expected_head_hash = map_option ck_event_hash checkpoint,
       vr_computed_head_hash = computed_head_hash,
       vr_checkpoint_id = map_option ck_checkpoint_id checkpoint, vr_verifier = journal_verifier,
       vr_diagnostics =
         [\<lparr>vd_severity = JournalError, vd_code = code, vd_message = message, vd_sequence = sequence,
           vd_event_id = Option.bind event_id diagnostic_event_id, vd_related = []\<rparr>],
       vr_diagnostics_truncated = False, vr_verified_at = verified_at\<rparr>)"

text \<open>The error of a failed check is the failed verification result.\<close>

definition verify_one_record ::
  "journal_lib \<Rightarrow> journal_record \<Rightarrow> string \<Rightarrow> int \<Rightarrow> string option \<Rightarrow> bool \<Rightarrow> checkpoint_expectation option \<Rightarrow> string
   \<Rightarrow> verification_result + string" where
  "verify_one_record lib r stream expected_sequence previous expected_sequence_appears_later checkpoint verified_at =
     (let event_id = Option.bind (string_field (jr_event r) ''event_id'') diagnostic_event_id;
          invalid = (\<lambda>code message head.
            failure stream verified_at code message (Some (jr_sequence r)) event_id head checkpoint);
          task_id = unwrap_or_default (string_field (jr_event r) ''task_id'')
      in
      if jr_sequence r < expected_sequence \<or> expected_sequence_appears_later then
        Inl (invalid ''PROVENANCE_SEQUENCE_ORDER_INVALID'' ''records are not in strictly increasing sequence'' previous)
      else if expected_sequence < jr_sequence r then
        Inl (invalid ''PROVENANCE_SEQUENCE_GAP'' ''provenance stream contains a sequence gap'' previous)
      else if jr_schema_version r \<noteq> SCHEMA_VERSION then
        Inl (invalid ''PROVENANCE_SCHEMA_INVALID'' ''journal record schema version is unsupported'' previous)
      else if jr_hash_profile r \<noteq> HASH_PROFILE then
        Inl (invalid ''PROVENANCE_HASH_PROFILE_UNSUPPORTED'' ''journal record hash profile is unsupported'' previous)
      else if jr_stream_id r \<noteq> stream \<or>
          (case string_field (jr_event r) ''task_id'' of
             None \<Rightarrow> True | Some i \<Rightarrow> stream_id lib i \<noteq> Inr stream) then
        Inl (invalid ''PROVENANCE_STREAM_ID_MISMATCH''
          ''journal record identity does not match the verified stream'' previous)
      else if jr_previous_event_hash r \<noteq> previous then
        Inl (invalid ''PROVENANCE_PREVIOUS_HASH_MISMATCH''
          ''previous_event_hash does not match the prior computed head'' previous)
      else if \<not> is_ok (validate_event lib task_id (jr_event r)) \<or>
          \<not> is_ok (validate_sequence_event_invariant (jr_sequence r) (jr_event r)) \<or>
          \<not> valid_hash (jr_event_hash r) \<or>
          (case jr_previous_event_hash r of None \<Rightarrow> False | Some h \<Rightarrow> \<not> valid_hash h) then
        Inl (invalid ''PROVENANCE_SCHEMA_INVALID'' ''journal record or event is structurally invalid'' previous)
      else
        (case hash_record lib stream (jr_sequence r) (jr_previous_event_hash r) (jr_event r) of
           Inl _ \<Rightarrow>
             Inl (invalid ''PROVENANCE_SCHEMA_INVALID'' ''journal record cannot be canonicalized'' previous)
         | Inr computed \<Rightarrow>
             if computed \<noteq> jr_event_hash r
             then Inl (invalid ''PROVENANCE_EVENT_HASH_MISMATCH''
                    ''recomputed journal-record hash does not match event_hash'' (Some computed))
             else Inr computed))"

definition finish_verification ::
  "string \<Rightarrow> int \<Rightarrow> string option \<Rightarrow> checkpoint_expectation option \<Rightarrow> string \<Rightarrow> verification_result" where
  "finish_verification stream expected_sequence previous checkpoint verified_at =
     (case previous of
        None \<Rightarrow>
          failure stream verified_at ''PROVENANCE_SEQUENCE_GAP'' ''provenance stream is empty'' (Some 1) None None checkpoint
      | Some computed_head_hash \<Rightarrow>
          if (case checkpoint of None \<Rightarrow> False | Some c \<Rightarrow> ck_event_hash c \<noteq> computed_head_hash)
          then failure stream verified_at ''PROVENANCE_CHECKPOINT_HEAD_MISMATCH''
                 ''computed stream head does not match the supplied checkpoint''
                 (Some (expected_sequence - 1)) None (Some computed_head_hash) checkpoint
          else
            \<lparr>vr_schema_version = SCHEMA_VERSION, vr_valid = True, vr_stream_id = stream, vr_from_sequence = 1,
             vr_to_sequence = expected_sequence - 1,
             vr_expected_head_hash = map_option ck_event_hash checkpoint,
             vr_computed_head_hash = Some computed_head_hash,
             vr_checkpoint_id = map_option ck_checkpoint_id checkpoint, vr_verifier = journal_verifier,
             vr_diagnostics = [], vr_diagnostics_truncated = False, vr_verified_at = verified_at\<rparr>)"

definition validate_checkpoint :: "checkpoint_expectation option \<Rightarrow> unit journal_result" where
  "validate_checkpoint checkpoint =
     ensure (case checkpoint of
               None \<Rightarrow> True
             | Some c \<Rightarrow> ck_checkpoint_id c \<noteq> [] \<and> int (char_count (ck_checkpoint_id c)) \<le> 256 \<and>
                 valid_hash (ck_event_hash c))
       (JournalInvalid ''invalid provenance checkpoint expectation'')"

text \<open>The index columns of a stored row, and their agreement with the hashed event.\<close>

record journal_index =
  ix_event_id :: string
  ix_task_id :: string
  ix_timestamp :: string
  ix_event_type :: string
  ix_semantic_program_hash :: "string option"
  ix_ir_version :: "string option"
  ix_registry_snapshot_id :: "string option"
  ix_node_id :: "string option"
  ix_execution_binding_id :: "string option"
  ix_provider_id :: "string option"
  ix_status :: "string option"

definition index_matches :: "journal_index \<Rightarrow> json \<Rightarrow> bool" where
  "index_matches ix event =
     (ix_event_id ix = unwrap_or_default (string_field event ''event_id'') \<and>
      ix_task_id ix = unwrap_or_default (string_field event ''task_id'') \<and>
      ix_timestamp ix = unwrap_or_default (string_field event ''timestamp'') \<and>
      ix_event_type ix = unwrap_or_default (string_field event ''event_type'') \<and>
      ix_semantic_program_hash ix = string_field event ''semantic_program_hash'' \<and>
      ix_ir_version ix = string_field event ''ir_version'' \<and>
      ix_registry_snapshot_id ix = string_field event ''registry_snapshot_id'' \<and>
      ix_node_id ix = string_field event ''step_id'' \<and>
      ix_execution_binding_id ix = string_field event ''execution_binding_id'' \<and>
      ix_provider_id ix = string_field event ''provider_id'' \<and>
      ix_status ix = string_field event ''status'')"

definition row_to_index :: "event_row \<Rightarrow> row_error + journal_index" where
  "row_to_index row =
     and_then (bounded_row_text (er_event_id row)) (\<lambda>event_id.
     and_then (bounded_row_text (er_task_id row)) (\<lambda>task_id.
     and_then (bounded_row_text (er_timestamp row)) (\<lambda>timestamp.
     and_then (bounded_row_text (er_event_type row)) (\<lambda>event_type.
     and_then (bounded_nullable_row_text (er_semantic_program_hash row)) (\<lambda>semantic_program_hash.
     and_then (bounded_nullable_row_text (er_ir_version row)) (\<lambda>ir_version.
     and_then (bounded_nullable_row_text (er_registry_snapshot_id row)) (\<lambda>registry_snapshot_id.
     and_then (bounded_nullable_row_text (er_node_id row)) (\<lambda>node_id.
     and_then (bounded_nullable_row_text (er_execution_binding_id row)) (\<lambda>execution_binding_id.
     and_then (bounded_nullable_row_text (er_provider_id row)) (\<lambda>provider_id.
     and_then (bounded_nullable_row_text (er_status row)) (\<lambda>status.
     Inr \<lparr>ix_event_id = event_id, ix_task_id = task_id, ix_timestamp = timestamp, ix_event_type = event_type,
          ix_semantic_program_hash = semantic_program_hash, ix_ir_version = ir_version,
          ix_registry_snapshot_id = registry_snapshot_id, ix_node_id = node_id,
          ix_execution_binding_id = execution_binding_id, ix_provider_id = provider_id,
          ix_status = status\<rparr>)))))))))))"

definition read_row :: "journal_lib \<Rightarrow> event_row \<Rightarrow> row_error + (journal_record \<times> journal_index)" where
  "read_row lib row =
     and_then (row_to_record lib row) (\<lambda>r. and_then (row_to_index row) (\<lambda>ix. Inr (r, ix)))"

text \<open>The loop of \<open>verify_stream\<close>: an early return (\<open>Inl\<close>), or the next sequence and the head.\<close>

fun verify_rows ::
  "journal_lib \<Rightarrow> string \<Rightarrow> checkpoint_expectation option \<Rightarrow> string \<Rightarrow> int \<Rightarrow> string option \<Rightarrow> task_revision \<Rightarrow> event_row list
   \<Rightarrow> verification_result journal_result + (int \<times> string option)" where
  "verify_rows lib stream checkpoint verified_at expected_sequence previous latest [] =
     Inr (expected_sequence, previous)"
| "verify_rows lib stream checkpoint verified_at expected_sequence previous latest (row # rows) =
     (case read_row lib row of
        Inl e \<Rightarrow>
          if malformed_row_error e
          then Inl (Inr (failure stream verified_at ''PROVENANCE_SCHEMA_INVALID'' ''stored journal record is malformed''
                 None None previous checkpoint))
          else Inl (Inl (JournalStorage (row_error_text e)))
      | Inr (r, ix) \<Rightarrow>
          (case verify_one_record lib r stream expected_sequence previous False checkpoint verified_at of
             Inl result \<Rightarrow> Inl (Inr result)
           | Inr computed \<Rightarrow>
               if \<not> index_matches ix (jr_event r)
               then Inl (Inr (failure stream verified_at ''PROVENANCE_SCHEMA_INVALID''
                      ''journal index columns conflict with the hashed event'' (Some (jr_sequence r))
                      (Some (ix_event_id ix)) (Some computed) checkpoint))
               else
                 (case advance_task_revision latest (jr_event r) of
                    Inl _ \<Rightarrow>
                      Inl (Inr (failure stream verified_at ''PROVENANCE_SCHEMA_INVALID'' ''Task revision is discontinuous''
                        (Some (jr_sequence r)) (diagnostic_event_id (ix_event_id ix)) previous checkpoint))
                  | Inr latest \<Rightarrow>
                      verify_rows lib stream checkpoint verified_at (saturating_suc expected_sequence)
                        (Some computed) latest rows)))"

definition prefix_complete ::
  "string \<Rightarrow> string \<Rightarrow> checkpoint_expectation option \<Rightarrow> int option \<Rightarrow> verification_result \<Rightarrow> verification_result" where
  "prefix_complete stream verified_at checkpoint through_sequence result =
     (case through_sequence of
        None \<Rightarrow> result
      | Some through \<Rightarrow>
          if vr_valid result \<and> vr_to_sequence result \<noteq> through
          then failure stream verified_at ''PROVENANCE_SEQUENCE_GAP'' ''requested provenance prefix is incomplete''
                 (Some (saturating_suc (vr_to_sequence result))) None (vr_computed_head_hash result) checkpoint
          else result)"

definition rows_through :: "journal_db \<Rightarrow> string \<Rightarrow> int option \<Rightarrow> event_row list" where
  "rows_through db stream upper =
     filter (\<lambda>r. case upper of None \<Rightarrow> True | Some u \<Rightarrow> er_sequence r \<le> u) (stream_rows db stream)"

definition verify_stream ::
  "journal_lib \<Rightarrow> journal_db \<Rightarrow> string \<Rightarrow> int option \<Rightarrow> checkpoint_expectation option \<Rightarrow> string
   \<Rightarrow> verification_result journal_result" where
  "verify_stream lib db stream through_sequence checkpoint verified_at =
     and_then (validate_stream_id stream) (\<lambda>_.
     and_then (validate_timestamp lib verified_at) (\<lambda>_.
     and_then (validate_checkpoint checkpoint) (\<lambda>_.
     and_then (ensure (case through_sequence of None \<Rightarrow> True | Some s \<Rightarrow> i64_checked s \<noteq> None)
       (JournalInvalid ''verification sequence exceeds SQLite range'')) (\<lambda>_.
     case verify_rows lib stream checkpoint verified_at 1 None None (rows_through db stream through_sequence) of
       Inl early \<Rightarrow> early
     | Inr (expected_sequence, previous) \<Rightarrow>
         Inr (prefix_complete stream verified_at checkpoint through_sequence
           (finish_verification stream expected_sequence previous checkpoint verified_at))))))"

text \<open>The loop of \<open>verify_records\<close> over records in the order they are presented.\<close>

fun verify_record_list ::
  "journal_lib \<Rightarrow> string \<Rightarrow> checkpoint_expectation option \<Rightarrow> string \<Rightarrow> int \<Rightarrow> string option \<Rightarrow> task_revision \<Rightarrow> string list
   \<Rightarrow> journal_record list \<Rightarrow> verification_result + (int \<times> string option)" where
  "verify_record_list lib stream checkpoint verified_at expected_sequence previous latest event_ids [] =
     Inr (expected_sequence, previous)"
| "verify_record_list lib stream checkpoint verified_at expected_sequence previous latest event_ids (r # rs) =
     (if (case string_field (jr_event r) ''event_id'' of None \<Rightarrow> False | Some i \<Rightarrow> i \<in> set event_ids)
      then Inl (failure stream verified_at ''PROVENANCE_SCHEMA_INVALID'' ''duplicate provenance event ID''
             (Some (jr_sequence r))
             (Option.bind (string_field (jr_event r) ''event_id'') diagnostic_event_id) previous checkpoint)
      else
        (case verify_one_record lib r stream expected_sequence previous
            (expected_sequence < jr_sequence r \<and> list_ex (\<lambda>c. jr_sequence c = expected_sequence) (r # rs))
            checkpoint verified_at of
           Inl result \<Rightarrow> Inl result
         | Inr computed \<Rightarrow>
             (case advance_task_revision latest (jr_event r) of
                Inl _ \<Rightarrow>
                  Inl (failure stream verified_at ''PROVENANCE_SCHEMA_INVALID'' ''Task revision is discontinuous''
                    (Some (jr_sequence r))
                    (Option.bind (string_field (jr_event r) ''event_id'') diagnostic_event_id) previous checkpoint)
              | Inr latest \<Rightarrow>
                  verify_record_list lib stream checkpoint verified_at (saturating_suc expected_sequence)
                    (Some computed) latest
                    (case string_field (jr_event r) ''event_id'' of None \<Rightarrow> event_ids | Some i \<Rightarrow> i # event_ids) rs)))"

definition verify_records ::
  "journal_lib \<Rightarrow> journal_record list \<Rightarrow> string \<Rightarrow> checkpoint_expectation option \<Rightarrow> string
   \<Rightarrow> verification_result journal_result" where
  "verify_records lib records stream checkpoint verified_at =
     and_then (validate_stream_id stream) (\<lambda>_.
     and_then (validate_timestamp lib verified_at) (\<lambda>_.
     and_then (validate_checkpoint checkpoint) (\<lambda>_.
     case verify_record_list lib stream checkpoint verified_at 1 None None [] records of
       Inl result \<Rightarrow> Inr result
     | Inr (expected_sequence, previous) \<Rightarrow>
         Inr (finish_verification stream expected_sequence previous checkpoint verified_at))))"

end
