(* ===== verification/Aios_Journal_Safety.thy ===== *)
theory Aios_Journal_Safety
  imports Aios_Journal
begin

text \<open>
  What the journal guarantees: the two verifiers accept exactly the well-formed hash chains, every
  journal built by appending is accepted, and two accepted chains with the same head are the same
  history unless two of the hashed texts collide under SHA-256.
\<close>

section \<open>Well-formed chains\<close>

definition record_sound :: "journal_lib \<Rightarrow> string \<Rightarrow> journal_record \<Rightarrow> bool" where
  "record_sound lib stream r \<longleftrightarrow>
     jr_schema_version r = SCHEMA_VERSION \<and> jr_hash_profile r = HASH_PROFILE \<and> jr_stream_id r = stream \<and>
     (\<exists>t. string_field (jr_event r) ''task_id'' = Some t \<and> stream_id lib t = Inr stream \<and>
          validate_event lib t (jr_event r) = Inr ()) \<and>
     (jr_sequence r = 1 \<longleftrightarrow> string_field (jr_event r) ''event_type'' = Some ''task.created'') \<and>
     valid_hash (jr_event_hash r) \<and> (\<forall>h. jr_previous_event_hash r = Some h \<longrightarrow> valid_hash h) \<and>
     hash_record lib stream (jr_sequence r) (jr_previous_event_hash r) (jr_event r) = Inr (jr_event_hash r)"

fun linked :: "int \<Rightarrow> string option \<Rightarrow> journal_record list \<Rightarrow> bool" where
  "linked s p [] \<longleftrightarrow> True"
| "linked s p (r # rs) \<longleftrightarrow> jr_sequence r = s \<and> jr_previous_event_hash r = p \<and> linked (s + 1) (Some (jr_event_hash r)) rs"

fun revisions :: "task_revision \<Rightarrow> json list \<Rightarrow> task_revision journal_result" where
  "revisions latest [] = Inr latest"
| "revisions latest (e # es) = and_then (advance_task_revision latest e) (\<lambda>latest. revisions latest es)"

definition head_hash :: "string option \<Rightarrow> journal_record list \<Rightarrow> string option" where
  "head_hash p rs = (if rs = [] then p else Some (jr_event_hash (last rs)))"

definition event_ids :: "journal_record list \<Rightarrow> string list" where
  "event_ids rs = List.map_filter (\<lambda>r. string_field (jr_event r) ''event_id'') rs"

definition chain :: "journal_lib \<Rightarrow> string \<Rightarrow> journal_record list \<Rightarrow> bool" where
  "chain lib stream rs \<longleftrightarrow>
     list_all (record_sound lib stream) rs \<and> linked 1 None rs \<and> is_ok (revisions None (map jr_event rs))"

lemma is_ok_iff: "is_ok r \<longleftrightarrow> (\<exists>x. r = Inr x)"
  by (cases r) auto

lemma is_ok_unit: "is_ok r \<longleftrightarrow> r = Inr ()" for r :: "'e + unit"
  by (cases r) auto

lemma head_hash_Cons [simp]: "head_hash p (r # rs) = head_hash (Some (jr_event_hash r)) rs"
  by (simp add: head_hash_def)

lemma head_hash_Nil [simp]: "head_hash p [] = p"
  by (simp add: head_hash_def)

lemma event_ids_simps [simp]:
  "event_ids [] = []"
  "event_ids (r # rs) =
     (case string_field (jr_event r) ''event_id'' of None \<Rightarrow> event_ids rs | Some i \<Rightarrow> i # event_ids rs)"
  by (simp_all add: event_ids_def List.map_filter_simps split: option.split)


section \<open>One record\<close>

lemma hash_record_range:
  "hash_record lib stream s p e = Inr h \<Longrightarrow> s \<noteq> 0 \<and> s \<le> MAX_SAFE_JSON_INTEGER \<and> within_shape_bounds e"
  by (auto simp: hash_record_def split: if_splits)

lemma saturating_suc_safe: "s \<le> MAX_SAFE_JSON_INTEGER \<Longrightarrow> saturating_suc s = s + 1"
  by (simp add: saturating_suc_def u64_max_def MAX_SAFE_JSON_INTEGER_def)

lemma record_sound_range:
  assumes "record_sound lib stream r"
  shows "jr_sequence r \<le> MAX_SAFE_JSON_INTEGER"
proof -
  from assms have "hash_record lib stream (jr_sequence r) (jr_previous_event_hash r) (jr_event r) = Inr (jr_event_hash r)"
    unfolding record_sound_def by (elim conjE)
  from hash_record_range [OF this] show ?thesis by simp
qed

lemma verify_one_record_Inr_iff:
  assumes "later \<longrightarrow> s < jr_sequence r"
  shows "verify_one_record lib r stream s p later ck at = Inr h \<longleftrightarrow>
     jr_sequence r = s \<and> jr_previous_event_hash r = p \<and> record_sound lib stream r \<and> h = jr_event_hash r"
proof (cases "string_field (jr_event r) ''task_id''")
  case None
  then show ?thesis by (auto simp: verify_one_record_def record_sound_def Let_def split: if_splits)
next
  case (Some t)
  have "verify_one_record lib r stream s p later ck at = Inr h \<longleftrightarrow>
      jr_sequence r = s \<and> \<not> later \<and> jr_schema_version r = SCHEMA_VERSION \<and> jr_hash_profile r = HASH_PROFILE \<and>
      jr_stream_id r = stream \<and> stream_id lib t = Inr stream \<and> jr_previous_event_hash r = p \<and>
      is_ok (validate_event lib t (jr_event r)) \<and>
      is_ok (validate_sequence_event_invariant (jr_sequence r) (jr_event r)) \<and> valid_hash (jr_event_hash r) \<and>
      (\<forall>h. jr_previous_event_hash r = Some h \<longrightarrow> valid_hash h) \<and>
      hash_record lib stream (jr_sequence r) (jr_previous_event_hash r) (jr_event r) = Inr h \<and> h = jr_event_hash r"
    unfolding verify_one_record_def Let_def
    by (auto simp: Some unwrap_or_default_def split: sum.split option.split)
  also have "\<dots> \<longleftrightarrow> jr_sequence r = s \<and> jr_previous_event_hash r = p \<and> record_sound lib stream r \<and> h = jr_event_hash r"
    using assms Some
    by (auto simp: record_sound_def is_ok_unit validate_sequence_event_invariant_def)
  finally show ?thesis .
qed


section \<open>The verifier of presented records\<close>

lemma guarded_step:
  "(if d then Inl a else case v of Inl x \<Rightarrow> Inl x
      | Inr c \<Rightarrow> (case w of Inl u \<Rightarrow> Inl b | Inr l \<Rightarrow> f c l)) = Inr y \<longleftrightarrow>
   \<not> d \<and> (\<exists>c l. v = Inr c \<and> w = Inr l \<and> f c l = Inr y)"
  by (auto split: sum.splits)

lemma verify_record_list_Inr_iff:
  assumes "0 < s"
  shows "verify_record_list lib stream ck at s p latest seen rs = Inr (n, h) \<longleftrightarrow>
     list_all (record_sound lib stream) rs \<and> linked s p rs \<and> is_ok (revisions latest (map jr_event rs)) \<and>
     distinct (event_ids rs) \<and> set seen \<inter> set (event_ids rs) = {} \<and>
     n = s + int (length rs) \<and> h = head_hash p rs"
  using assms
proof (induction rs arbitrary: s p latest seen)
  case (Cons r rs)
  let ?dup = "case string_field (jr_event r) ''event_id'' of None \<Rightarrow> False | Some i \<Rightarrow> i \<in> set seen"
  let ?seen = "case string_field (jr_event r) ''event_id'' of None \<Rightarrow> seen | Some i \<Rightarrow> i # seen"
  let ?later = "s < jr_sequence r \<and> list_ex (\<lambda>c. jr_sequence c = s) (r # rs)"
  have "verify_record_list lib stream ck at s p latest seen (r # rs) = Inr (n, h) \<longleftrightarrow>
      \<not> ?dup \<and> (\<exists>computed latest'. verify_one_record lib r stream s p ?later ck at = Inr computed \<and>
        advance_task_revision latest (jr_event r) = Inr latest' \<and>
        verify_record_list lib stream ck at (saturating_suc s) (Some computed) latest' ?seen rs = Inr (n, h))"
    by (simp only: verify_record_list.simps(2) guarded_step)
  also have "\<dots> \<longleftrightarrow> \<not> ?dup \<and> jr_sequence r = s \<and> jr_previous_event_hash r = p \<and> record_sound lib stream r \<and>
      (\<exists>latest'. advance_task_revision latest (jr_event r) = Inr latest' \<and>
        verify_record_list lib stream ck at (s + 1) (Some (jr_event_hash r)) latest' ?seen rs = Inr (n, h))"
  proof -
    have "saturating_suc s = s + 1" if "record_sound lib stream r" "jr_sequence r = s"
      using record_sound_range [OF that(1)] that(2) saturating_suc_safe by simp
    then show ?thesis by (subst verify_one_record_Inr_iff) auto
  qed
  also have "\<dots> \<longleftrightarrow> \<not> ?dup \<and> jr_sequence r = s \<and> jr_previous_event_hash r = p \<and> record_sound lib stream r \<and>
      (\<exists>latest'. advance_task_revision latest (jr_event r) = Inr latest' \<and>
        list_all (record_sound lib stream) rs \<and> linked (s + 1) (Some (jr_event_hash r)) rs \<and>
        is_ok (revisions latest' (map jr_event rs)) \<and> distinct (event_ids rs) \<and>
        set ?seen \<inter> set (event_ids rs) = {} \<and> n = s + 1 + int (length rs) \<and>
        h = head_hash (Some (jr_event_hash r)) rs)"
    using Cons.prems by (subst Cons.IH) auto
  also have "\<dots> \<longleftrightarrow> list_all (record_sound lib stream) (r # rs) \<and> linked s p (r # rs) \<and>
      is_ok (revisions latest (map jr_event (r # rs))) \<and> distinct (event_ids (r # rs)) \<and>
      set seen \<inter> set (event_ids (r # rs)) = {} \<and> n = s + int (length (r # rs)) \<and> h = head_hash p (r # rs)"
    by (cases "advance_task_revision latest (jr_event r)") (auto split: option.splits)
  finally show ?case .
qed auto

lemma failure_invalid [simp]: "\<not> vr_valid (failure stream at code m s i h ck)"
  by (simp add: failure_def Let_def)

lemma verify_one_record_invalid:
  "verify_one_record lib r stream s p later ck at = Inl result \<Longrightarrow> \<not> vr_valid result"
  by (auto simp: verify_one_record_def Let_def split: if_splits sum.splits option.splits)

lemma verify_record_list_invalid:
  "verify_record_list lib stream ck at s p latest seen rs = Inl result \<Longrightarrow> \<not> vr_valid result"
proof (induction rs arbitrary: s p latest seen)
  case (Cons r rs)
  from Cons.prems show ?case
    by (auto simp only: verify_record_list.simps failure_invalid sum.inject sum.distinct split: if_splits sum.splits
        dest: verify_one_record_invalid Cons.IH)
qed simp

definition checkpoint_ok :: "checkpoint_expectation option \<Rightarrow> string option \<Rightarrow> bool" where
  "checkpoint_ok ck h \<longleftrightarrow> (\<forall>c. ck = Some c \<longrightarrow> h = Some (ck_event_hash c))"

lemma finish_verification_valid:
  "vr_valid (finish_verification stream n p ck at) \<longleftrightarrow> p \<noteq> None \<and> checkpoint_ok ck p"
  by (auto simp: finish_verification_def checkpoint_ok_def split: option.splits)

lemma finish_verification_head:
  "vr_valid (finish_verification stream n p ck at) \<Longrightarrow>
   vr_to_sequence (finish_verification stream n p ck at) = n - 1 \<and>
   vr_computed_head_hash (finish_verification stream n p ck at) = p"
  by (auto simp: finish_verification_def split: option.splits if_splits)


section \<open>The verifier of stored rows\<close>

definition row_sound :: "journal_lib \<Rightarrow> event_row \<Rightarrow> journal_record \<Rightarrow> bool" where
  "row_sound lib row r \<longleftrightarrow> (\<exists>ix. read_row lib row = Inr (r, ix) \<and> index_matches ix (jr_event r))"

lemma is_ok_and_then: "is_ok (and_then r f) \<longleftrightarrow> (\<exists>x. r = Inr x \<and> is_ok (f x))"
  by (cases r) auto

lemma is_ok_revisions_Cons:
  "is_ok (revisions latest (e # es)) \<longleftrightarrow> (\<exists>l. advance_task_revision latest e = Inr l \<and> is_ok (revisions l es))"
  by (simp add: is_ok_and_then)

lemma malformed_or_sound_step:
  "(case v of Inl e \<Rightarrow> if m e then Inl (a e) else Inl (b e)
     | Inr (r, ix) \<Rightarrow> (case w r of Inl x \<Rightarrow> Inl (Inr x)
         | Inr c \<Rightarrow> if \<not> i r ix then Inl (d r ix c)
             else (case z r of Inl u \<Rightarrow> Inl (f r ix) | Inr l \<Rightarrow> g c l))) = Inr y \<longleftrightarrow>
   (\<exists>r ix c l. v = Inr (r, ix) \<and> i r ix \<and> w r = Inr c \<and> z r = Inr l \<and> g c l = Inr y)"
  by (auto split: sum.splits prod.splits)

lemma verify_rows_Inr_iff:
  assumes "0 < s"
  shows "verify_rows lib stream ck at s p latest rows = Inr (n, h) \<longleftrightarrow>
     (\<exists>rs. list_all2 (row_sound lib) rows rs \<and> list_all (record_sound lib stream) rs \<and> linked s p rs \<and>
        is_ok (revisions latest (map jr_event rs)) \<and> n = s + int (length rows) \<and> h = head_hash p rs)"
  using assms
proof (induction rows arbitrary: s p latest)
  case (Cons row rows)
  let ?rest = "\<lambda>s p latest rs. list_all2 (row_sound lib) rows rs \<and> list_all (record_sound lib stream) rs \<and>
    linked s p rs \<and> is_ok (revisions latest (map jr_event rs))"
  have "verify_rows lib stream ck at s p latest (row # rows) = Inr (n, h) \<longleftrightarrow>
      (\<exists>r ix computed latest'. read_row lib row = Inr (r, ix) \<and> index_matches ix (jr_event r) \<and>
        verify_one_record lib r stream s p False ck at = Inr computed \<and>
        advance_task_revision latest (jr_event r) = Inr latest' \<and>
        verify_rows lib stream ck at (saturating_suc s) (Some computed) latest' rows = Inr (n, h))"
    by (simp only: verify_rows.simps(2) malformed_or_sound_step)
  also have "\<dots> \<longleftrightarrow> (\<exists>r latest'. row_sound lib row r \<and> jr_sequence r = s \<and> jr_previous_event_hash r = p \<and>
      record_sound lib stream r \<and> advance_task_revision latest (jr_event r) = Inr latest' \<and>
      verify_rows lib stream ck at (s + 1) (Some (jr_event_hash r)) latest' rows = Inr (n, h))"
  proof -
    have "saturating_suc s = s + 1" if "record_sound lib stream r" "jr_sequence r = s" for r
      using record_sound_range [OF that(1)] that(2) saturating_suc_safe by simp
    then show ?thesis by (subst verify_one_record_Inr_iff) (auto simp: row_sound_def)
  qed
  also have "\<dots> \<longleftrightarrow> (\<exists>r latest' rs. row_sound lib row r \<and> jr_sequence r = s \<and> jr_previous_event_hash r = p \<and>
      record_sound lib stream r \<and> advance_task_revision latest (jr_event r) = Inr latest' \<and>
      ?rest (s + 1) (Some (jr_event_hash r)) latest' rs \<and> n = s + 1 + int (length rows) \<and>
      h = head_hash (Some (jr_event_hash r)) rs)"
    using Cons.prems by (subst Cons.IH) auto
  also have "\<dots> \<longleftrightarrow> (\<exists>r rs. list_all2 (row_sound lib) (row # rows) (r # rs) \<and>
      list_all (record_sound lib stream) (r # rs) \<and> linked s p (r # rs) \<and>
      is_ok (revisions latest (map jr_event (r # rs))) \<and> n = s + int (length (row # rows)) \<and>
      h = head_hash p (r # rs))"
    by (simp add: is_ok_and_then add.assoc) blast
  also have "\<dots> \<longleftrightarrow> (\<exists>rs. list_all2 (row_sound lib) (row # rows) rs \<and>
      list_all (record_sound lib stream) rs \<and> linked s p rs \<and>
      is_ok (revisions latest (map jr_event rs)) \<and> n = s + int (length (row # rows)) \<and> h = head_hash p rs)"
  proof -
    have "\<exists>r rs'. rs = r # rs'" if "list_all2 (row_sound lib) (row # rows) rs" for rs
      using that by (auto simp: list_all2_Cons1)
    then show ?thesis by blast
  qed
  finally show ?case .
qed auto


section \<open>Digests\<close>

lemma length_hex_digest: "length (hex_digest bytes) = 2 * length bytes"
  by (induction bytes) (auto simp: hex_digest_def hex_byte_def)

lemma byte_digits: "0 \<le> (of_char c :: int) div 16" "(of_char c :: int) div 16 < 16" "0 \<le> (of_char c :: int) mod 16"
    "(of_char c :: int) mod 16 < 16"
proof -
  have "(of_char c :: nat) < 256" by (rule nat_of_char_less_256)
  then have "0 \<le> (of_char c :: int)" "(of_char c :: int) < 256" unfolding of_char_int by linarith+
  then show "0 \<le> (of_char c :: int) div 16" "(of_char c :: int) div 16 < 16" by linarith+
qed simp_all

lemma of_char_hex_digit:
  "0 \<le> d \<Longrightarrow> d < 16 \<Longrightarrow> (of_char (hex_digit d) :: int) = (if d < 10 then 48 + d else 87 + d)"
  by (simp add: hex_digit_def of_char_of split del: if_split) simp

lemma hex_byte_lower: "list_all is_hex_lower (hex_byte c)"
proof -
  have "is_hex_lower (hex_digit d)" if "0 \<le> d" "d < 16" for d
  proof -
    have "is_hex_lower e \<longleftrightarrow> byte_between 48 e 57 \<or> byte_between 97 e 102" for e
      unfolding is_hex_lower_def is_ascii_digit_def byte_between_def of_char_int by linarith
    then show ?thesis using of_char_hex_digit [OF that] that by (auto simp: byte_between_def)
  qed
  then show ?thesis using byte_digits [of c] by (simp add: hex_byte_def)
qed

lemma hex_digest_lower: "list_all is_hex_lower (hex_digest bytes)"
  using hex_byte_lower by (induction bytes) (auto simp: hex_digest_def list_all_iff)

lemma valid_hash_digest: "length bytes = 32 \<Longrightarrow> valid_hash (''sha256:'' @ hex_digest bytes)"
  using hex_digest_lower [of bytes] by (simp add: valid_hash_def starts_with_iff length_hex_digest)

lemma valid_hash_short: "valid_hash h \<Longrightarrow> int (length h) \<le> MAX_EVENT_BYTES"
  by (simp add: valid_hash_def MAX_EVENT_BYTES_def)


section \<open>The state of a journal\<close>

text \<open>
  What the journal relies on of its libraries: a SHA-256 digest has 32 bytes, and the JSON text of an
  event is at least as long as each string member of the event. Of each appended event it is asked that
  \<open>serde_json\<close> reads the text it prints as the same members in the same order. The objects of a
  \<open>Value\<close> are ordered maps; that the reader of the journal then gives the event back, and finds no
  duplicate key in it, is proved.
\<close>

definition library_ok :: "journal_lib \<Rightarrow> bool" where
  "library_ok lib \<longleftrightarrow>
     (\<forall>bytes. length (jl_sha256 lib bytes) = 32) \<and>
     (\<forall>e k s. string_field e k = Some s \<longrightarrow> length s \<le> length (jl_to_string lib e))"

fun json_ordered :: "json \<Rightarrow> bool" where
  "json_ordered (Array vs) = list_all json_ordered vs"
| "json_ordered (Object m) = (bm_wf m \<and> list_all (\<lambda>(_, v). json_ordered v) m)"
| "json_ordered _ = True"

definition reads_back :: "journal_lib \<Rightarrow> json \<Rightarrow> bool" where
  "reads_back lib event \<longleftrightarrow> json_ordered event \<and> jl_read lib (jl_to_string lib event) = Inr event"

lemma bm_insert_last: "\<forall>k' \<in> fst ` set m. k' < k \<Longrightarrow> bm_insert k v m = m @ [(k, v)]"
  by (induction m) auto

lemma unique_json_ordered:
  "json_ordered v \<Longrightarrow> unique_json v = Inr v"
  "list_all json_ordered vs \<Longrightarrow> unique_items vs = Inr vs"
  "bm_wf (acc @ es) \<Longrightarrow> list_all (\<lambda>(_, v). json_ordered v) es \<Longrightarrow> unique_entries acc es = Inr (acc @ es)"
proof (induction v and vs and acc es rule: unique_json_unique_items_unique_entries.induct)
  case (10 acc k v es)
  have less: "\<forall>k' \<in> fst ` set acc. k' < k" using "10.prems"(1) by (auto simp: bm_wf_def sorted_wrt_append)
  then have "\<not> contains_key acc k" by (auto simp: contains_key_iff)
  moreover have "bm_insert k v acc = acc @ [(k, v)]" by (rule bm_insert_last [OF less])
  ultimately show ?case using 10 by simp
qed simp_all

lemma reads_back_parse: "reads_back lib event \<Longrightarrow> parse_unique_json lib (jl_to_string lib event) = Inr event"
  by (simp add: reads_back_def parse_unique_json_def unique_json_ordered(1))

text \<open>Every stream of the table reads as a well-formed chain.\<close>

definition journal_inv :: "journal_lib \<Rightarrow> journal_db \<Rightarrow> bool" where
  "journal_inv lib db \<longleftrightarrow>
     (\<forall>stream. \<exists>rs. list_all2 (row_sound lib) (stream_rows db stream) rs \<and> chain lib stream rs)"

definition events_extend :: "journal_db \<Rightarrow> journal_db \<Rightarrow> bool" where
  "events_extend db db' \<longleftrightarrow> (\<exists>rows. jd_events db' = jd_events db @ rows)"

lemma row_sound_fields:
  assumes "row_sound lib row r"
  shows "jr_sequence r = er_sequence row \<and> jr_event_hash r = er_event_hash row \<and>
    jr_previous_event_hash r = er_previous_event_hash row \<and> jr_stream_id r = er_stream_id row \<and>
    parse_unique_json lib (er_event_json row) = Inr (jr_event r) \<and>
    er_event_id row = unwrap_or_default (string_field (jr_event r) ''event_id'') \<and>
    er_event_type row = unwrap_or_default (string_field (jr_event r) ''event_type'')"
proof -
  obtain ix where ix: "row_to_record lib row = Inr r" "row_to_index row = Inr ix" "index_matches ix (jr_event r)"
    using assms by (auto simp: row_sound_def read_row_def)
  have "ix_event_id ix = er_event_id row" "ix_event_type ix = er_event_type row"
    using ix(2) by (auto simp: row_to_index_def bounded_row_text_def split: if_splits)
  moreover have "jr_sequence r = er_sequence row \<and> jr_event_hash r = er_event_hash row \<and>
      jr_previous_event_hash r = er_previous_event_hash row \<and> jr_stream_id r = er_stream_id row \<and>
      parse_unique_json lib (er_event_json row) = Inr (jr_event r)"
    using ix(1)
    by (auto simp: row_to_record_def bounded_row_text_def bounded_nullable_row_text_def
        split: if_splits sum.splits option.splits)
  ultimately show ?thesis using ix(3) by (simp add: index_matches_def)
qed

lemma linked_append:
  "linked s p (rs @ [r]) \<longleftrightarrow> linked s p rs \<and> jr_sequence r = s + int (length rs) \<and> jr_previous_event_hash r = head_hash p rs"
  by (induction rs arbitrary: s p) (auto simp: algebra_simps)

lemma linked_sequences: "linked s p rs \<Longrightarrow> r \<in> set rs \<Longrightarrow> s \<le> jr_sequence r \<and> jr_sequence r < s + int (length rs)"
  by (induction rs arbitrary: s p) force+

lemma linked_nth: "linked s p rs \<Longrightarrow> i < length rs \<Longrightarrow> jr_sequence (rs ! i) = s + int i"
  by (induction rs arbitrary: s p i) (auto simp: less_Suc_eq_0_disj)

lemma revisions_append:
  "revisions latest (es @ [e]) = and_then (revisions latest es) (\<lambda>latest. advance_task_revision latest e)"
proof (induction es arbitrary: latest)
  case (Cons a es)
  then show ?case by (cases "advance_task_revision latest a") auto
next
  case Nil
  then show ?case by (cases "advance_task_revision latest e") auto
qed

lemma insort_key_snoc: "f y < f x \<Longrightarrow> insort_key f y (ys @ [x]) = insort_key f y ys @ [x]"
  by (induction ys) auto

lemma sort_key_snoc:
  fixes f :: "'a \<Rightarrow> int"
  assumes "\<And>y. y \<in> set xs \<Longrightarrow> f y < f x"
  shows "sort_key f (xs @ [x]) = sort_key f xs @ [x]"
  using assms by (induction xs) (auto simp: insort_key_snoc)

lemma stream_rows_snoc:
  assumes "\<And>r. r \<in> set (stream_rows db (er_stream_id row)) \<Longrightarrow> er_sequence r < er_sequence row"
  shows "stream_rows (db\<lparr>jd_events := jd_events db @ [row]\<rparr>) stream =
    stream_rows db stream @ (if er_stream_id row = stream then [row] else [])"
  using assms by (auto simp: stream_rows_def intro!: sort_key_snoc)


section \<open>What a successful append did\<close>

definition next_sequence :: "stream_head option \<Rightarrow> int" where
  "next_sequence head = (case head of None \<Rightarrow> 1 | Some h \<Rightarrow> saturating_suc (sh_sequence h))"

definition appended_row :: "journal_lib \<Rightarrow> string \<Rightarrow> journal_record \<Rightarrow> event_row" where
  "appended_row lib task_id r =
     (let event = jr_event r in
      \<lparr>er_schema_version = SCHEMA_VERSION, er_hash_profile = HASH_PROFILE,
       er_event_id = unwrap_or_default (string_field event ''event_id''),
       er_task_id = task_id, er_stream_id = jr_stream_id r, er_sequence = jr_sequence r,
       er_timestamp = unwrap_or_default (string_field event ''timestamp''),
       er_event_type = unwrap_or_default (string_field event ''event_type''),
       er_semantic_program_hash = string_field event ''semantic_program_hash'',
       er_ir_version = string_field event ''ir_version'',
       er_registry_snapshot_id = string_field event ''registry_snapshot_id'',
       er_node_id = string_field event ''step_id'',
       er_execution_binding_id = string_field event ''execution_binding_id'',
       er_provider_id = string_field event ''provider_id'', er_status = string_field event ''status'',
       er_previous_event_hash = jr_previous_event_hash r, er_event_hash = jr_event_hash r,
       er_event_json = jl_to_string lib event\<rparr>)"

lemma store_event_Inr:
  assumes "store_event lib task_id stream sequence previous h event db = Inr db'"
  shows "db' = db\<lparr>jd_events := jd_events db @
       [appended_row lib task_id \<lparr>jr_schema_version = v, jr_hash_profile = f, jr_stream_id = stream,
           jr_sequence = sequence, jr_previous_event_hash = previous, jr_event = event, jr_event_hash = h\<rparr>]\<rparr> \<and>
     string_field event ''event_id'' \<noteq> None \<and> string_field event ''timestamp'' \<noteq> None \<and>
     string_field event ''event_type'' \<noteq> None \<and>
     unwrap_or_default (string_field event ''event_id'') \<notin> er_event_id ` set (jd_events db)"
  using assms
  by (auto simp: store_event_def required_def insert_event_def insert_allowed_def appended_row_def Let_def
      unwrap_or_default_def i64_checked_def list_ex_iff split: option.splits if_splits)

lemma append_in_tx_Inr:
  assumes "append_in_tx lib task_id event expected db = Inr (r, db')"
  obtains head where
    "validate_event lib task_id event = Inr ()"
    "stream_id lib task_id = Inr (jr_stream_id r)"
    "get_head db (jr_stream_id r) = Inr head" "head_matches expected head"
    "jr_sequence r = next_sequence head" "jr_sequence r \<noteq> u64_max"
    "validate_sequence_event_invariant (jr_sequence r) event = Inr ()"
    "string_field event ''event_type'' = Some ''task.transitioned'' \<Longrightarrow>
       \<exists>latest l. latest_task_revision_in_tx lib db (jr_stream_id r) = Inr latest \<and>
         advance_task_revision latest event = Inr l"
    "hash_record lib (jr_stream_id r) (jr_sequence r) (jr_previous_event_hash r) event = Inr (jr_event_hash r)"
    "jr_previous_event_hash r = map_option sh_event_hash head" "jr_event r = event"
    "jr_schema_version r = SCHEMA_VERSION" "jr_hash_profile r = HASH_PROFILE"
    "store_event lib task_id (jr_stream_id r) (jr_sequence r) (jr_previous_event_hash r) (jr_event_hash r) event db = Inr db'"
proof -
  have guard: "(if t then x else Inr ()) = Inr u \<longleftrightarrow> (t \<longrightarrow> is_ok x)" for t u and x :: "unit journal_result"
    by (cases t; cases x) auto
  obtain stream head where h:
      "validate_event lib task_id event = Inr ()" "stream_id lib task_id = Inr stream"
      "get_head db stream = Inr head" "head_matches expected head"
      "next_sequence head \<noteq> u64_max" "validate_sequence_event_invariant (next_sequence head) event = Inr ()"
      "string_field event ''event_type'' = Some ''task.transitioned'' \<longrightarrow>
         is_ok (and_then (latest_task_revision_in_tx lib db stream) (\<lambda>latest.
           and_then (advance_task_revision latest event) (\<lambda>_. Inr ())))"
      "hash_record lib stream (next_sequence head) (map_option sh_event_hash head) event = Inr (jr_event_hash r)"
      "r = \<lparr>jr_schema_version = SCHEMA_VERSION, jr_hash_profile = HASH_PROFILE, jr_stream_id = stream,
         jr_sequence = next_sequence head, jr_previous_event_hash = map_option sh_event_hash head,
         jr_event = event, jr_event_hash = jr_event_hash r\<rparr>"
      "store_event lib task_id stream (next_sequence head) (map_option sh_event_hash head) (jr_event_hash r) event db = Inr db'"
    using assms unfolding append_in_tx_def Let_def next_sequence_def [symmetric]
    by (simp only: and_then_Inr_iff guard ensure_Inr_iff Inr_inject Pair_inject) auto
  then have [simp]: "jr_stream_id r = stream" "jr_sequence r = next_sequence head"
    "jr_previous_event_hash r = map_option sh_event_hash head" "jr_event r = event"
    "jr_schema_version r = SCHEMA_VERSION" "jr_hash_profile r = HASH_PROFILE"
    by (metis journal_record.select_convs)+
  show thesis
    by (rule that [of head]) (use h in \<open>auto simp: is_ok_and_then\<close>)
qed


lemma validate_event_contract_facts:
  assumes "validate_event_contract lib t e bounds = Inr ()"
  shows "(bounds \<longrightarrow> int (length (jl_to_string lib e)) \<le> MAX_EVENT_BYTES) \<and>
    string_field e ''task_id'' = Some t \<and> within_shape_bounds e \<and> json_get ''event_hash'' e = None \<and>
    json_get ''previous_event_hash'' e = None \<and> validate_details_vocabulary lib e = Inr () \<and>
    (string_field e ''event_type'' = Some ''task.transitioned'' \<longrightarrow> transition_contiguous e)"
  using assms unfolding validate_event_contract_def
  by (simp only: and_then_Inr_iff ensure_Inr_iff) (auto simp: event_size_bounds_def split: if_splits)

lemmas validate_event_facts =
  validate_event_contract_facts [where bounds = True, simplified]

lemma validate_event_contract: "validate_event lib t e = Inr () \<Longrightarrow> validate_event_contract lib t e True = Inr ()"
  by (simp add: validate_event_def)

lemma validate_stream_id_short: "validate_stream_id s = Inr () \<Longrightarrow> int (length s) \<le> MAX_EVENT_BYTES"
  by (auto simp: validate_stream_id_def MAX_EVENT_BYTES_def split: option.splits list.splits)

lemma bounded_row_text_Inr_iff [simp]: "bounded_row_text s = Inr s' \<longleftrightarrow> s' = s \<and> int (length s) \<le> MAX_EVENT_BYTES"
  by (auto simp: bounded_row_text_def)

lemma bounded_nullable_Inr_iff [simp]:
  "bounded_nullable_row_text v = Inr v' \<longleftrightarrow> v' = v \<and> (\<forall>s. v = Some s \<longrightarrow> int (length s) \<le> MAX_EVENT_BYTES)"
  by (auto simp: bounded_nullable_row_text_def split: option.splits)

lemma appended_row_sound:
  assumes lib: "library_ok lib" "reads_back lib (jr_event r)"
    and valid: "validate_event lib t (jr_event r) = Inr ()" and stream: "validate_stream_id (jr_stream_id r) = Inr ()"
    and hashes: "valid_hash (jr_event_hash r)" "\<forall>h. jr_previous_event_hash r = Some h \<longrightarrow> valid_hash h"
    and fields: "jr_schema_version r = SCHEMA_VERSION" "jr_hash_profile r = HASH_PROFILE" "0 < jr_sequence r"
  shows "row_sound lib (appended_row lib t r) r"
proof -
  let ?e = "jr_event r"
  note v = validate_event_facts [OF validate_event_contract [OF valid]]
  have short: "int (length s) \<le> MAX_EVENT_BYTES" if "string_field ?e k = Some s" for k s
  proof -
    have "length s \<le> length (jl_to_string lib ?e)" using lib(1) that unfolding library_ok_def by blast
    then show ?thesis using v by simp
  qed
  have default: "int (length (unwrap_or_default (string_field ?e k))) \<le> MAX_EVENT_BYTES" for k
    using short [of k] by (cases "string_field ?e k") (auto simp: unwrap_or_default_def MAX_EVENT_BYTES_def)
  have task: "int (length t) \<le> MAX_EVENT_BYTES" using short v by blast
  have "int (length SCHEMA_VERSION) \<le> MAX_EVENT_BYTES" "int (length HASH_PROFILE) \<le> MAX_EVENT_BYTES"
    by (simp_all add: SCHEMA_VERSION_def HASH_PROFILE_def MAX_EVENT_BYTES_def)
  then have "row_to_record lib (appended_row lib t r) = Inr r"
    using lib(2) v fields hashes valid_hash_short validate_stream_id_short [OF stream]
    by (auto simp: row_to_record_def appended_row_def Let_def reads_back_parse not_less [symmetric])
  moreover define ix where "ix = \<lparr>ix_event_id = unwrap_or_default (string_field ?e ''event_id''), ix_task_id = t,
      ix_timestamp = unwrap_or_default (string_field ?e ''timestamp''),
      ix_event_type = unwrap_or_default (string_field ?e ''event_type''),
      ix_semantic_program_hash = string_field ?e ''semantic_program_hash'', ix_ir_version = string_field ?e ''ir_version'',
      ix_registry_snapshot_id = string_field ?e ''registry_snapshot_id'', ix_node_id = string_field ?e ''step_id'',
      ix_execution_binding_id = string_field ?e ''execution_binding_id'',
      ix_provider_id = string_field ?e ''provider_id'', ix_status = string_field ?e ''status''\<rparr>"
  have "row_to_index (appended_row lib t r) = Inr ix"
    using default task short by (simp add: row_to_index_def appended_row_def Let_def ix_def)
  moreover have "index_matches ix ?e"
    using v by (simp add: index_matches_def ix_def unwrap_or_default_def)
  ultimately show ?thesis by (simp add: row_sound_def read_row_def)
qed


section \<open>The latest revision\<close>

definition task_json :: "json \<Rightarrow> bool" where
  "task_json e \<longleftrightarrow> string_field e ''event_type'' = Some ''task.created'' \<or>
     string_field e ''event_type'' = Some ''task.transitioned''"

definition revision_of :: "json \<Rightarrow> task_revision" where
  "revision_of e =
     (if string_field e ''event_type'' = Some ''task.created'' then Some (1, ''CREATED'')
      else Option.bind (transition_u64 ''new_revision'' e) (\<lambda>n.
        map_option (\<lambda>s. (n, s)) (transition_string ''new_state'' e)))"

lemma advance_task_revision_Inr:
  "advance_task_revision latest e = Inr l \<Longrightarrow> l = (if task_json e then revision_of e else latest)"
  by (auto simp: advance_task_revision_def task_json_def revision_of_def split: if_splits option.splits)

lemma revisions_last:
  "revisions latest es = Inr l \<Longrightarrow> l = (case rev (filter task_json es) of [] \<Rightarrow> latest | e # _ \<Rightarrow> revision_of e)"
  by (induction es arbitrary: latest l rule: rev_induct)
    (auto simp: revisions_append dest!: advance_task_revision_Inr)

lemma list_all2_filter:
  "list_all2 P xs ys \<Longrightarrow> (\<And>x y. P x y \<Longrightarrow> f x \<longleftrightarrow> g y) \<Longrightarrow> list_all2 P (filter f xs) (filter g ys)"
  by (induction rule: list_all2_induct) auto

lemma json_index_transition:
  "value_u64 (json_index (json_index e ''task_transition'') k) = transition_u64 k e"
  "as_str (json_index (json_index e ''task_transition'') k) = transition_string k e"
  by (auto simp: json_index_def transition_u64_def transition_string_def pointer2_def split: option.splits)

lemma latest_task_revision_exact:
  assumes rows: "list_all2 (row_sound lib) (stream_rows db stream) rs"
    and rev: "revisions None (map jr_event rs) = Inr l"
    and latest: "latest_task_revision_in_tx lib db stream = Inr l'"
  shows "l' = l"
proof -
  let ?rows = "filter is_task_event (stream_rows db stream)" and ?rs = "filter (task_json \<circ> jr_event) rs"
  have "is_task_event row \<longleftrightarrow> task_json (jr_event r)" if "row_sound lib row r" for row r
    using row_sound_fields [OF that]
    by (auto simp: is_task_event_def task_json_def unwrap_or_default_def split: option.splits)
  with rows have "list_all2 (row_sound lib) ?rows ?rs" by (auto intro: list_all2_filter)
  then have "list_all2 (row_sound lib) (rev ?rows) (rev ?rs)" by simp
  moreover have l: "l = (case rev ?rs of [] \<Rightarrow> None | r # _ \<Rightarrow> revision_of (jr_event r))"
    using revisions_last [OF rev] by (simp add: filter_map rev_map split: list.split)
  ultimately show ?thesis
  proof (cases "rev ?rows")
    case (Cons row rest)
    then obtain r rest' where r: "rev ?rs = r # rest'" "row_sound lib row r"
      using \<open>list_all2 (row_sound lib) (rev ?rows) (rev ?rs)\<close> by (auto simp: list_all2_Cons1)
    note f = row_sound_fields [OF r(2)]
    have "l' = revision_of (jr_event r)"
      using latest f unfolding latest_task_revision_in_tx_def Cons
      by (auto simp: storage_def revision_of_def json_index_transition Let_def split: option.splits if_splits sum.splits)
    then show ?thesis using l r(1) by simp
  qed (use latest l in \<open>simp add: latest_task_revision_in_tx_def\<close>)
qed


section \<open>Appending keeps the chain\<close>

lemma hash_record_valid:
  assumes "library_ok lib" and "hash_record lib stream s p e = Inr h"
  shows "valid_hash h"
proof -
  obtain b where h: "h = ''sha256:'' @ hex_digest (jl_sha256 lib b)"
    using assms(2) by (auto simp: hash_record_def split: if_splits option.splits)
  show ?thesis unfolding h by (rule valid_hash_digest) (use assms(1) in \<open>simp add: library_ok_def\<close>)
qed

lemma list_all2_memD: "list_all2 P xs ys \<Longrightarrow> x \<in> set xs \<Longrightarrow> \<exists>y \<in> set ys. P x y"
  by (induction rule: list_all2_induct) auto

lemma get_head_of_chain:
  assumes head: "get_head db stream = Inr head"
    and rows: "list_all2 (row_sound lib) (stream_rows db stream) rs" and chain: "chain lib stream rs"
  shows "next_sequence head = 1 + int (length rs) \<and> map_option sh_event_hash head = head_hash None rs"
proof (cases "rev (stream_rows db stream)")
  case Nil
  then have "rs = []" using rows by simp
  then show ?thesis using head Nil by (simp add: get_head_def next_sequence_def)
next
  case (Cons row rest)
  have "list_all2 (row_sound lib) (rev (stream_rows db stream)) (rev rs)" using rows by simp
  then obtain r rest' where r: "rev rs = r # rest'" "row_sound lib row r" by (auto simp: Cons list_all2_Cons1)
  then have rs: "rs = rev rest' @ [r]" by (metis rev_eq_Cons_iff rev_rev_ident)
  note f = row_sound_fields [OF r(2)]
  from head Cons f have h: "head = Some \<lparr>sh_stream_id = stream, sh_sequence = jr_sequence r, sh_event_hash = jr_event_hash r\<rparr>"
    by (auto simp: get_head_def storage_def split: sum.splits if_splits)
  have "record_sound lib stream r" "jr_sequence r = int (length rs)"
    using chain by (auto simp: chain_def rs linked_append)
  moreover from this(1) have "jr_sequence r \<le> MAX_SAFE_JSON_INTEGER" by (rule record_sound_range)
  ultimately show ?thesis by (simp add: h next_sequence_def saturating_suc_safe head_hash_def rs)
qed

lemma append_chain:
  assumes lib: "library_ok lib" "reads_back lib event" and append: "append_in_tx lib task_id event expected db = Inr (r, db')"
    and rows: "list_all2 (row_sound lib) (stream_rows db (jr_stream_id r)) rs" and chain: "chain lib (jr_stream_id r) rs"
  shows "chain lib (jr_stream_id r) (rs @ [r]) \<and> row_sound lib (appended_row lib task_id r) r \<and>
    jr_event r = event \<and> jr_sequence r = 1 + int (length rs) \<and>
    db' = db\<lparr>jd_events := jd_events db @ [appended_row lib task_id r]\<rparr>"
proof -
  from append obtain head where a:
      "validate_event lib task_id event = Inr ()" "stream_id lib task_id = Inr (jr_stream_id r)"
      "get_head db (jr_stream_id r) = Inr head" "jr_sequence r = next_sequence head"
      "validate_sequence_event_invariant (jr_sequence r) event = Inr ()"
      "string_field event ''event_type'' = Some ''task.transitioned'' \<Longrightarrow>
         \<exists>latest l. latest_task_revision_in_tx lib db (jr_stream_id r) = Inr latest \<and>
           advance_task_revision latest event = Inr l"
      "hash_record lib (jr_stream_id r) (jr_sequence r) (jr_previous_event_hash r) event = Inr (jr_event_hash r)"
      "jr_previous_event_hash r = map_option sh_event_hash head" "jr_event r = event"
      "jr_schema_version r = SCHEMA_VERSION" "jr_hash_profile r = HASH_PROFILE"
      "store_event lib task_id (jr_stream_id r) (jr_sequence r) (jr_previous_event_hash r) (jr_event_hash r) event db = Inr db'"
    by (rule append_in_tx_Inr) blast
  note h = get_head_of_chain [OF a(3) rows chain]
  have hash: "valid_hash (jr_event_hash r)"
    by (rule hash_record_valid [OF lib(1) a(7)])
  have prev: "\<forall>h. jr_previous_event_hash r = Some h \<longrightarrow> valid_hash h"
    using chain h a(8) by (cases rs rule: rev_cases) (auto simp: chain_def head_hash_def record_sound_def)
  have "record_sound lib (jr_stream_id r) r"
    using a hash prev validate_event_facts [OF validate_event_contract [OF a(1)]]
    by (simp add: record_sound_def validate_sequence_event_invariant_def)
  moreover obtain l where l: "revisions None (map jr_event rs) = Inr l" using chain by (auto simp: chain_def is_ok_iff)
  have "is_ok (advance_task_revision l event)"
  proof (cases "string_field event ''event_type'' = Some ''task.transitioned''")
    case True
    from a(6) [OF True] latest_task_revision_exact [OF rows l] show ?thesis by auto
  next
    case False
    have "l = None" if "string_field event ''event_type'' = Some ''task.created''"
    proof -
      have "rs = []" using that a(4,5) h by (simp add: validate_sequence_event_invariant_def)
      then show ?thesis using l by simp
    qed
    then show ?thesis using False by (simp add: advance_task_revision_def)
  qed
  then have "is_ok (revisions None (map jr_event (rs @ [r])))"
    by (simp add: revisions_append l a(9))
  ultimately have "chain lib (jr_stream_id r) (rs @ [r])"
    using chain h a by (simp add: chain_def linked_append)
  moreover have "validate_stream_id (jr_stream_id r) = Inr ()" using a(3) by (auto simp: get_head_def)
  then have "row_sound lib (appended_row lib task_id r) r"
    using lib a hash prev h by (intro appended_row_sound) auto
  moreover have "db' = db\<lparr>jd_events := jd_events db @ [appended_row lib task_id r]\<rparr>"
  proof -
    have r: "r = \<lparr>jr_schema_version = jr_schema_version r, jr_hash_profile = jr_hash_profile r,
        jr_stream_id = jr_stream_id r, jr_sequence = jr_sequence r, jr_previous_event_hash = jr_previous_event_hash r,
        jr_event = event, jr_event_hash = jr_event_hash r\<rparr>"
      using a(9) by simp
    show ?thesis by (subst r) (use store_event_Inr [OF a(12)] in blast)
  qed
  ultimately show ?thesis using a h by simp
qed

lemma append_rows:
  assumes lib: "library_ok lib" "reads_back lib event" and append: "append_in_tx lib task_id event expected db = Inr (r, db')"
    and rs: "list_all2 (row_sound lib) (stream_rows db (jr_stream_id r)) rs" "chain lib (jr_stream_id r) rs"
  shows "stream_rows db' stream = stream_rows db stream @
      (if jr_stream_id r = stream then [appended_row lib task_id r] else [])"
proof -
  note a = append_chain [OF lib append rs]
  have key: "er_stream_id (appended_row lib task_id r) = jr_stream_id r" "er_sequence (appended_row lib task_id r) = jr_sequence r"
    by (simp_all add: appended_row_def Let_def)
  have "er_sequence row < jr_sequence r" if row: "row \<in> set (stream_rows db (jr_stream_id r))" for row
  proof -
    obtain r' where "r' \<in> set rs" "row_sound lib row r'"
      using list_all2_memD [OF rs(1) row] by blast
    then show ?thesis
      using row_sound_fields [of lib row r'] linked_sequences [of 1 None rs r'] rs(2) a by (simp add: chain_def)
  qed
  then show ?thesis using stream_rows_snoc [of db "appended_row lib task_id r"] a key by simp
qed

lemma append_inv:
  assumes lib: "library_ok lib" "reads_back lib event" and append: "append_in_tx lib task_id event expected db = Inr (r, db')"
    and inv: "journal_inv lib db"
  shows "journal_inv lib db' \<and> events_extend db db'"
proof -
  obtain rs where rs: "list_all2 (row_sound lib) (stream_rows db (jr_stream_id r)) rs" "chain lib (jr_stream_id r) rs"
    using inv unfolding journal_inv_def by blast
  note a = append_chain [OF lib append rs] and rows = append_rows [OF lib append rs]
  have "\<exists>rs. list_all2 (row_sound lib) (stream_rows db' stream) rs \<and> chain lib stream rs" for stream
  proof (cases "jr_stream_id r = stream")
    case True
    then show ?thesis using a rs rows by (intro exI [of _ "rs @ [r]"]) (auto intro: list_all2_appendI)
  next
    case False
    then show ?thesis using inv rows [of stream] by (simp add: journal_inv_def)
  qed
  then show ?thesis using a by (auto simp: journal_inv_def events_extend_def)
qed


section \<open>Runs of the journal\<close>

text \<open>
  A run of the journal: successful appends, in any order of tasks, whose texts read back, and
  changes of the tables the journal only refers to. An append that fails, and a transaction that is
  rolled back, leave the table as it was.
\<close>

inductive journal_step :: "journal_lib \<Rightarrow> journal_db \<Rightarrow> journal_db \<Rightarrow> bool" for lib where
  journal_append: "append_in_tx lib task_id event expected db = Inr (r, db') \<Longrightarrow> reads_back lib event \<Longrightarrow>
    journal_step lib db db'"
| journal_other: "jd_events db' = jd_events db \<Longrightarrow> journal_step lib db db'"

definition journal_empty :: journal_db where
  "journal_empty = \<lparr>jd_events = [], jd_tasks = [], jd_snapshots = [], jd_bindings = []\<rparr>"

lemma journal_inv_empty: "journal_inv lib journal_empty"
  by (simp add: journal_inv_def journal_empty_def stream_rows_def chain_def)

lemma journal_inv_events: "jd_events db' = jd_events db \<Longrightarrow> journal_inv lib db' = journal_inv lib db"
  by (simp add: journal_inv_def stream_rows_def)

interpretation journal: run_system "journal_step lib" "\<lambda>db. library_ok lib \<and> journal_inv lib db" events_extend
  for lib
proof
  fix db db' assume step: "journal_step lib db db'" and inv: "library_ok lib \<and> journal_inv lib db"
  from step show "library_ok lib \<and> journal_inv lib db'"
    by cases (use inv append_inv journal_inv_events in blast)+
  from step show "events_extend db db'"
    by cases (use inv append_inv in \<open>auto simp: events_extend_def\<close>)
qed (auto simp: events_extend_def)

lemma journal_run_chain:
  assumes "library_ok lib" and "(journal_step lib)\<^sup>*\<^sup>* journal_empty db"
  obtains rs where "list_all2 (row_sound lib) (stream_rows db stream) rs" "chain lib stream rs"
  using journal.inv_run [OF assms(2)] assms(1) journal_inv_empty unfolding journal_inv_def by blast

lemma head_hash_rows:
  assumes "list_all2 (row_sound lib) rows rs" and "rows \<noteq> []"
  shows "head_hash None rs = Some (er_event_hash (last rows))"
proof -
  obtain row rows' where r: "rev rows = row # rows'" using assms(2) by (cases "rev rows") auto
  have "list_all2 (row_sound lib) (rev rows) (rev rs)" using assms(1) by simp
  then obtain x rs' where "rev rs = x # rs'" "row_sound lib row x" by (auto simp: r list_all2_Cons1)
  moreover from this have "rs = rev rs' @ [x]" "rows = rev rows' @ [row]"
    using r by (metis rev_eq_Cons_iff)+
  ultimately show ?thesis using row_sound_fields [of lib row x] by (simp add: head_hash_def)
qed

text \<open>
  C10: A journal that was only appended to always verifies: after any run from the empty journal, of
  appended events whose printed texts \<open>serde_json\<close> reads as the members it printed, the
  verification of a stream that has records returns (it neither fails nor reports an error) with a
  valid result whose last sequence is the number of records and whose head is the last stored hash.
\<close>

theorem appended_journal_verifies:
  assumes "library_ok lib" and "(journal_step lib)\<^sup>*\<^sup>* journal_empty db"
    and "validate_stream_id stream = Inr ()" and "validate_timestamp lib at = Inr ()"
    and "stream_rows db stream \<noteq> []"
  shows "\<exists>result. verify_stream lib db stream None None at = Inr result \<and> vr_valid result \<and>
    vr_to_sequence result = int (length (stream_rows db stream)) \<and>
    vr_computed_head_hash result = Some (er_event_hash (last (stream_rows db stream)))"
proof -
  obtain rs where rs: "list_all2 (row_sound lib) (stream_rows db stream) rs" "chain lib stream rs"
    by (rule journal_run_chain [OF assms(1,2)])
  let ?n = "1 + int (length (stream_rows db stream))" and ?h = "head_hash None rs"
  have "verify_rows lib stream None at 1 None None (stream_rows db stream) = Inr (?n, ?h)"
    using rs by (subst verify_rows_Inr_iff) (auto simp: chain_def)
  moreover have "vr_valid (finish_verification stream ?n ?h None at)"
    using head_hash_rows [OF rs(1) assms(5)] by (simp add: finish_verification_valid checkpoint_ok_def)
  ultimately show ?thesis
    using assms(3,4) finish_verification_head [of stream ?n ?h None at] head_hash_rows [OF rs(1) assms(5)]
    by (simp add: verify_stream_def validate_checkpoint_def rows_through_def prefix_complete_def ensure_def)
qed

lemma verify_records_exact_aux:
  assumes "validate_stream_id stream = Inr ()" and "validate_timestamp lib at = Inr ()"
    and "validate_checkpoint ck = Inr ()"
  shows "\<exists>result. verify_records lib rs stream ck at = Inr result \<and>
    (vr_valid result \<longleftrightarrow> rs \<noteq> [] \<and> chain lib stream rs \<and> distinct (event_ids rs) \<and> checkpoint_ok ck (head_hash None rs))"
proof (cases "verify_record_list lib stream ck at 1 None None [] rs")
  case (Inl result)
  have "\<not> vr_valid result" by (rule verify_record_list_invalid [OF Inl])
  moreover have "\<not> (chain lib stream rs \<and> distinct (event_ids rs))"
    using Inl verify_record_list_Inr_iff [of 1 lib stream ck at None None "[]" rs "1 + int (length rs)" "head_hash None rs"]
    by (auto simp: chain_def)
  ultimately show ?thesis using assms Inl by (auto simp: verify_records_def)
next
  case (Inr x)
  then obtain n h where x: "verify_record_list lib stream ck at 1 None None [] rs = Inr (n, h)" by (cases x) auto
  with assms have "verify_records lib rs stream ck at = Inr (finish_verification stream n h ck at)"
    by (simp add: verify_records_def)
  moreover have "chain lib stream rs" "distinct (event_ids rs)" "h = head_hash None rs"
    using x verify_record_list_Inr_iff [of 1 lib stream ck at None None "[]" rs n h] by (auto simp: chain_def)
  ultimately show ?thesis by (auto simp: finish_verification_valid head_hash_def)
qed


text \<open>
  C11: The verifier of presented records is exact. On an admissible request it always returns a
  result, and the result is valid precisely when the records form a well-formed chain (every record
  sound, sequences from one without gap, each linked to the computed hash of its predecessor, task
  revisions and states continuous), with distinct event identities, at least one record and the head
  the checkpoint expects.
\<close>

theorem verify_records_exact:
  assumes "validate_stream_id stream = Inr ()" and "validate_timestamp lib at = Inr ()"
    and "validate_checkpoint ck = Inr ()"
  shows "\<exists>result. verify_records lib rs stream ck at = Inr result \<and>
    (vr_valid result \<longleftrightarrow> rs \<noteq> [] \<and> chain lib stream rs \<and> distinct (event_ids rs) \<and> checkpoint_ok ck (head_hash None rs))"
  using assms by (rule verify_records_exact_aux)

lemma verify_records_head:
  assumes "verify_records lib rs stream ck at = Inr result" and "vr_valid result"
  shows "chain lib stream rs \<and> rs \<noteq> [] \<and> vr_computed_head_hash result = Some (jr_event_hash (last rs))"
proof -
  obtain n h where x: "verify_record_list lib stream ck at 1 None None [] rs = Inr (n, h)"
      "result = finish_verification stream n h ck at"
    using assms verify_record_list_invalid by (auto simp: verify_records_def split: sum.splits)
  then have "chain lib stream rs" "h = head_hash None rs"
    using verify_record_list_Inr_iff [of 1 lib stream ck at None None "[]" rs n h] by (auto simp: chain_def)
  moreover have "h \<noteq> None" "vr_computed_head_hash result = h"
    using x(2) assms(2) finish_verification_valid finish_verification_head by blast+
  ultimately show ?thesis by (auto simp: head_hash_def split: if_splits)
qed


section \<open>One writer wins\<close>

lemma stream_rows_extend:
  assumes "events_extend db db'"
  shows "length (stream_rows db stream) \<le> length (stream_rows db' stream)"
  using assms by (auto simp: events_extend_def stream_rows_def)

lemma append_head_length:
  assumes "library_ok lib" "journal_inv lib db" and "append_in_tx lib task_id event expected db = Inr (r, db')"
  shows "\<exists>head. head_matches expected head \<and> (head = None \<longleftrightarrow> stream_rows db (jr_stream_id r) = []) \<and>
    (\<forall>h. head = Some h \<longrightarrow> sh_sequence h = int (length (stream_rows db (jr_stream_id r))))"
proof -
  from assms(3) obtain head where h: "get_head db (jr_stream_id r) = Inr head" "head_matches expected head"
    by (rule append_in_tx_Inr) blast
  obtain rs where rs: "list_all2 (row_sound lib) (stream_rows db (jr_stream_id r)) rs" "chain lib (jr_stream_id r) rs"
    using assms(2) unfolding journal_inv_def by blast
  have len: "length rs = length (stream_rows db (jr_stream_id r))" using rs(1) by (simp add: list_all2_lengthD)
  have none: "head = None \<longleftrightarrow> stream_rows db (jr_stream_id r) = []"
    using h(1) by (cases "rev (stream_rows db (jr_stream_id r))") (auto simp: get_head_def split: if_splits)
  have "sh_sequence x = int (length rs)" if x: "head = Some x" for x
  proof -
    obtain row rest where rev: "rev (stream_rows db (jr_stream_id r)) = row # rest"
      using none x by (cases "rev (stream_rows db (jr_stream_id r))") auto
    have "list_all2 (row_sound lib) (rev (stream_rows db (jr_stream_id r))) (rev rs)" using rs(1) by simp
    then obtain y rest' where y: "rev rs = y # rest'" "row_sound lib row y" by (auto simp: rev list_all2_Cons1)
    then have "rs = rev rest' @ [y]" by (metis rev_eq_Cons_iff)
    then have "jr_sequence y = int (length rs)" using rs(2) by (simp add: chain_def linked_append)
    moreover have "sh_sequence x = er_sequence row"
      using h(1) x rev by (auto simp: get_head_def split: if_splits)
    ultimately show ?thesis using row_sound_fields [OF y(2)] by simp
  qed
  then show ?thesis using h(2) none len by auto
qed

text \<open>
  C13: Of the writers that name the same stream head, one wins: after an append under an expected head
  (the empty stream, or an exact sequence and hash) succeeded, no later append of the task under the
  same expectation succeeds, whatever was appended in between.
\<close>

theorem one_writer_wins:
  assumes "library_ok lib" and "(journal_step lib)\<^sup>*\<^sup>* journal_empty db"
    and "append_in_tx lib task_id event expected db = Inr (r, db1)" and "reads_back lib event"
    and "expected \<noteq> AnyHead" and "(journal_step lib)\<^sup>*\<^sup>* db1 db2"
  shows "\<not> is_ok (append_in_tx lib task_id event' expected db2)"
proof
  assume "is_ok (append_in_tx lib task_id event' expected db2)"
  then obtain r' db3 where a': "append_in_tx lib task_id event' expected db2 = Inr (r', db3)"
    by (auto simp: is_ok_iff)
  have inv: "journal_inv lib db" using journal.inv_run [OF assms(2)] assms(1) journal_inv_empty by blast
  have inv1: "journal_inv lib db1" and inv2: "journal_inv lib db2"
    using append_inv [OF assms(1,4,3) inv] journal.inv_run [OF assms(6)] assms(1) by blast+
  have stream: "jr_stream_id r' = jr_stream_id r"
  proof -
    from assms(3) have "stream_id lib task_id = Inr (jr_stream_id r)" by (rule append_in_tx_Inr) blast
    moreover from a' have "stream_id lib task_id = Inr (jr_stream_id r')" by (rule append_in_tx_Inr) blast
    ultimately show ?thesis by simp
  qed
  let ?n = "\<lambda>db. length (stream_rows db (jr_stream_id r))"
  have "?n db1 = Suc (?n db)"
  proof -
    obtain rs where rs: "list_all2 (row_sound lib) (stream_rows db (jr_stream_id r)) rs" "chain lib (jr_stream_id r) rs"
      using inv unfolding journal_inv_def by blast
    show ?thesis using append_chain [OF assms(1,4,3) rs]
      by (auto simp: stream_rows_def appended_row_def Let_def)
  qed
  moreover have "?n db1 \<le> ?n db2"
    using stream_rows_extend [OF journal.le_run [OF assms(6)]] inv1 assms(1) by blast
  moreover have "?n db2 = ?n db"
    using append_head_length [OF assms(1) inv assms(3)] append_head_length [OF assms(1) inv2 a'] assms(5) stream
    by (auto simp: head_matches_def split: expected_head.splits option.splits)
  ultimately show False by simp
qed


section \<open>The history of a task\<close>

definition transitions :: "json list \<Rightarrow> json list" where
  "transitions es = filter (\<lambda>e. string_field e ''event_type'' = Some ''task.transitioned'') es"

definition contiguous_history :: "json list \<Rightarrow> bool" where
  "contiguous_history ts \<longleftrightarrow>
     (\<forall>i < length ts.
        transition_u64 ''previous_revision'' (ts ! i) = Some (int i + 1) \<and>
        transition_u64 ''new_revision'' (ts ! i) = Some (int i + 2) \<and>
        transition_string ''previous_state'' (ts ! i) =
          (if i = 0 then Some ''CREATED'' else transition_string ''new_state'' (ts ! (i - 1))))"

definition final_state :: "json list \<Rightarrow> string option" where
  "final_state ts = (if ts = [] then Some ''CREATED'' else transition_string ''new_state'' (last ts))"

lemma contiguous_history_snoc:
  assumes "contiguous_history ts" and "transition_u64 ''previous_revision'' e = Some (int (length ts) + 1)"
    and "transition_u64 ''new_revision'' e = Some (int (length ts) + 2)"
    and "transition_string ''previous_state'' e = final_state ts"
  shows "contiguous_history (ts @ [e])"
proof -
  have "final_state ts = (if length ts = 0 then Some ''CREATED'' else transition_string ''new_state'' (ts ! (length ts - 1)))"
    by (simp add: final_state_def last_conv_nth)
  then show ?thesis
    using assms by (auto simp: contiguous_history_def nth_append less_Suc_eq)
qed

lemma transition_contiguous_next:
  assumes "transition_contiguous e" and "transition_u64 ''previous_revision'' e = Some n"
    and "transition_u64 ''new_revision'' e = Some n'"
  shows "n' = n + 1"
  using assms unfolding transition_contiguous_def Let_def
  by (auto simp: transition_u64_def pointer2_def json_index_def checked_suc_def Option.bind_eq_Some_conv
      split: option.splits if_splits)

lemma revisions_transitions:
  assumes "revisions None es = Inr l" and "es \<noteq> []"
    and "\<forall>i < length es. i = 0 \<longleftrightarrow> string_field (es ! i) ''event_type'' = Some ''task.created''"
    and "\<forall>e \<in> set (transitions es). transition_contiguous e"
  shows "(\<exists>s. l = Some (int (length (transitions es)) + 1, s) \<and> final_state (transitions es) = Some s) \<and>
    contiguous_history (transitions es)"
  using assms
proof (induction es arbitrary: l rule: rev_induct)
  case (snoc e es)
  from snoc.prems(1) obtain l0 where l0: "revisions None es = Inr l0" "advance_task_revision l0 e = Inr l"
    by (auto simp: revisions_append)
  show ?case
  proof (cases "es = []")
    case True
    then have "string_field e ''event_type'' = Some ''task.created''" using snoc.prems(3) by simp
    then show ?thesis
      using l0 True by (auto simp: advance_task_revision_def transitions_def final_state_def contiguous_history_def)
  next
    case False
    let ?t = "transitions es"
    have "\<forall>i < length es. i = 0 \<longleftrightarrow> string_field (es ! i) ''event_type'' = Some ''task.created''"
      using snoc.prems(3) by (auto simp: nth_append split: if_splits)
    moreover have "\<forall>e' \<in> set ?t. transition_contiguous e'"
      using snoc.prems(4) by (auto simp: transitions_def)
    ultimately obtain s where s: "l0 = Some (int (length ?t) + 1, s)" "final_state ?t = Some s" "contiguous_history ?t"
      using snoc.IH [OF l0(1) False] by blast
    have e: "string_field e ''event_type'' \<noteq> Some ''task.created''"
      using snoc.prems(3) [rule_format, of "length es"] False by simp
    show ?thesis
    proof (cases "string_field e ''event_type'' = Some ''task.transitioned''")
      case False
      then have "transitions (es @ [e]) = ?t" "l = l0"
        using e l0(2) by (auto simp: transitions_def advance_task_revision_def)
      then show ?thesis using s by auto
    next
      case True
      have t: "transitions (es @ [e]) = ?t @ [e]" using True by (simp add: transitions_def)
      obtain n s' where adv: "transition_u64 ''new_revision'' e = Some n" "transition_string ''new_state'' e = Some s'"
          "transition_u64 ''previous_revision'' e = Some (int (length ?t) + 1)"
          "transition_string ''previous_state'' e = Some s" "l = Some (n, s')"
        using l0(2) True s(1) by (auto simp: advance_task_revision_def split: option.splits if_splits)
      have "n = int (length ?t) + 2"
        using transition_contiguous_next [OF _ adv(3,1)] snoc.prems(4) t by simp
      then show ?thesis using adv s contiguous_history_snoc [OF s(3), of e] by (auto simp: t final_state_def)
    qed
  qed
qed simp

lemma chain_history:
  assumes "chain lib stream rs" and "rs \<noteq> []" and "revisions None (map jr_event rs) = Inr l"
  shows "(\<forall>i < length rs. i = 0 \<longleftrightarrow> string_field (jr_event (rs ! i)) ''event_type'' = Some ''task.created'') \<and>
    contiguous_history (transitions (map jr_event rs)) \<and>
    (\<exists>s. l = Some (int (length (transitions (map jr_event rs))) + 1, s) \<and> final_state (transitions (map jr_event rs)) = Some s)"
proof -
  have sound: "record_sound lib stream (rs ! i)" "jr_sequence (rs ! i) = int i + 1" if "i < length rs" for i
    using that assms(1) linked_nth [of 1 None rs i] by (auto simp: chain_def list_all_length)
  then have created: "i = 0 \<longleftrightarrow> string_field (jr_event (rs ! i)) ''event_type'' = Some ''task.created''"
    if "i < length rs" for i using that by (auto simp: record_sound_def)
  have "transition_contiguous e" if "e \<in> set (transitions (map jr_event rs))" for e
  proof -
    obtain r where r: "r \<in> set rs" "e = jr_event r" "string_field e ''event_type'' = Some ''task.transitioned''"
      using \<open>e \<in> _\<close> by (auto simp: transitions_def)
    obtain t where "validate_event lib t e = Inr ()"
      using r assms(1) by (auto simp: chain_def list_all_iff record_sound_def)
    then show ?thesis using validate_event_facts [OF validate_event_contract] r(3) by blast
  qed
  then show ?thesis using revisions_transitions [OF assms(3)] assms(2) created by simp
qed

text \<open>
  C12: A verified journal is the complete life of one task: it starts with the creation of the task
  and with no other creation, and its transitions, in order, carry the revisions 1, 2, 3, ... without
  gap, each leaving the state the one before it entered.
\<close>

theorem verified_history_contiguous:
  assumes "verify_records lib rs stream ck at = Inr result" and "vr_valid result"
  shows "(\<forall>i < length rs. i = 0 \<longleftrightarrow> string_field (jr_event (rs ! i)) ''event_type'' = Some ''task.created'') \<and>
    contiguous_history (transitions (map jr_event rs)) \<and>
    (\<forall>r \<in> set rs. \<exists>t. string_field (jr_event r) ''task_id'' = Some t \<and> stream_id lib t = Inr stream)"
proof -
  have chain: "chain lib stream rs" "rs \<noteq> []" using verify_records_head [OF assms] by auto
  from chain obtain l where l: "revisions None (map jr_event rs) = Inr l" by (auto simp: chain_def is_ok_iff)
  moreover have "\<forall>r \<in> set rs. \<exists>t. string_field (jr_event r) ''task_id'' = Some t \<and> stream_id lib t = Inr stream"
    using chain(1) by (auto simp: chain_def list_all_iff record_sound_def)
  ultimately show ?thesis using chain_history [OF chain l] by blast
qed


section \<open>Hash chains\<close>

text \<open>
  The interface of a hash chain: records that carry the digest of their predecessor, where equal
  digests come from equal SHA-256 values of the hashed texts and a hashed text determines the
  predecessor and the content. Clients learn that two chains with one head are one history, unless
  two hashed texts collide. The journal is one.
\<close>

fun chained :: "('r \<Rightarrow> string option) \<Rightarrow> ('r \<Rightarrow> string) \<Rightarrow> string option \<Rightarrow> 'r list \<Rightarrow> bool" where
  "chained prev digest p [] \<longleftrightarrow> True"
| "chained prev digest p (r # rs) \<longleftrightarrow> prev r = p \<and> chained prev digest (Some (digest r)) rs"

definition collision :: "(string \<Rightarrow> string) \<Rightarrow> string list \<Rightarrow> string list \<Rightarrow> bool" where
  "collision sha xs ys \<longleftrightarrow> (\<exists>x \<in> set xs. \<exists>y \<in> set ys. x \<noteq> y \<and> sha x = sha y)"

lemma chained_snoc:
  "chained prev digest p (rs @ [r]) \<longleftrightarrow>
     chained prev digest p rs \<and> prev r = (if rs = [] then p else Some (digest (last rs)))"
  by (induction rs arbitrary: p) auto

locale hash_chain =
  fixes ok :: "'r \<Rightarrow> bool" and prev :: "'r \<Rightarrow> string option" and digest input :: "'r \<Rightarrow> string"
    and same :: "'r \<Rightarrow> 'r \<Rightarrow> bool" and sha :: "string \<Rightarrow> string"
  assumes digest_sha: "ok r \<Longrightarrow> ok r' \<Longrightarrow> digest r = digest r' \<Longrightarrow> sha (input r) = sha (input r')"
    and input_faithful: "ok r \<Longrightarrow> ok r' \<Longrightarrow> input r = input r' \<Longrightarrow> prev r = prev r' \<and> same r r'"
begin

lemma same_head_same_history:
  assumes "chained prev digest None rs" and "chained prev digest None rs'"
    and "list_all ok rs" and "list_all ok rs'" and "rs \<noteq> []" and "rs' \<noteq> []"
    and "digest (last rs) = digest (last rs')"
  shows "list_all2 same rs rs' \<or> collision sha (map input rs) (map input rs')"
  using assms
proof (induction rs arbitrary: rs' rule: rev_induct)
  case (snoc r rs)
  obtain rs0 r' where rs': "rs' = rs0 @ [r']" using snoc.prems(6) by (cases rs' rule: rev_cases) auto
  have ok: "ok r" "ok r'" using snoc.prems rs' by auto
  show ?case
  proof (cases "input r = input r'")
    case False
    then have "collision sha (map input (rs @ [r])) (map input rs')"
      using digest_sha [OF ok] snoc.prems(7) rs' by (auto simp: collision_def)
    then show ?thesis ..
  next
    case True
    from input_faithful [OF ok True] have same: "prev r = prev r'" "same r r'" by auto
    then have heads: "(if rs = [] then None else Some (digest (last rs))) = (if rs0 = [] then None else Some (digest (last rs0)))"
      using snoc.prems(1,2) by (simp add: rs' chained_snoc)
    show ?thesis
    proof (cases "rs = []")
      case True
      then show ?thesis using heads same rs' by (auto split: if_splits)
    next
      case False
      then have "rs0 \<noteq> []" "digest (last rs) = digest (last rs0)" using heads by (auto split: if_splits)
      then have "list_all2 same rs rs0 \<or> collision sha (map input rs) (map input rs0)"
        using snoc.prems False by (intro snoc.IH) (auto simp: rs' chained_snoc)
      then show ?thesis using same by (auto simp: rs' collision_def intro: list_all2_appendI)
    qed
  qed
qed simp

end

lemma hex_digit_inj:
  assumes "hex_digit x = hex_digit y" and "0 \<le> x" "x < 16" "0 \<le> y" "y < 16"
  shows "x = y"
proof -
  have "(if x < 10 then 48 + x else 87 + x) = (if y < 10 then 48 + y else 87 + y)"
    using assms(1) of_char_hex_digit [OF assms(2,3)] of_char_hex_digit [OF assms(4,5)] by (simp only:)
  then show ?thesis using assms(2-) by (cases "x < 10"; cases "y < 10") simp_all
qed

lemma hex_byte_inj: "hex_byte c = hex_byte d \<Longrightarrow> c = d"
proof -
  assume "hex_byte c = hex_byte d"
  then have "(of_char c :: int) div 16 = of_char d div 16" "(of_char c :: int) mod 16 = of_char d mod 16"
    unfolding hex_byte_def using byte_digits [of c] byte_digits [of d] hex_digit_inj by (simp_all only: list.inject)
  then have "(of_char c :: int) = of_char d" by (metis div_mult_mod_eq)
  then show ?thesis by simp
qed

lemma hex_digest_inj: "hex_digest a = hex_digest b \<Longrightarrow> a = b"
proof (induction a arbitrary: b)
  case Nil
  then show ?case by (cases b) (auto simp: hex_digest_def hex_byte_def)
next
  case (Cons c a)
  show ?case
  proof (cases b)
    case Nil
    then show ?thesis using Cons.prems by (auto simp: hex_digest_def hex_byte_def)
  next
    case (Cons d b')
    have len: "length (hex_byte c) = length (hex_byte d)" by (simp add: hex_byte_def)
    have "hex_byte c @ hex_digest a = hex_byte d @ hex_digest b'"
      using Cons.prems Cons by (simp add: hex_digest_def)
    then have "hex_byte c = hex_byte d" "hex_digest a = hex_digest b'"
      using len by (auto simp: append_eq_append_conv)
    then show ?thesis using Cons Cons.IH hex_byte_inj by blast
  qed
qed


section \<open>The journal is a hash chain\<close>

text \<open>
  What RFC 8785 promises of canonical texts: equal texts of two objects have equal texts of each
  member, and the text of a string or of null determines it.
\<close>

definition canonical_faithful :: "journal_lib \<Rightarrow> bool" where
  "canonical_faithful lib \<longleftrightarrow>
     (\<forall>m m' b k v. bm_wf m \<longrightarrow> bm_wf m' \<longrightarrow> jl_canonical lib (Object m) = Inr b \<longrightarrow> jl_canonical lib (Object m') = Inr b \<longrightarrow>
        map_of m k = Some v \<longrightarrow>
        (\<exists>v' c. map_of m' k = Some v' \<and> jl_canonical lib v = Inr c \<and> jl_canonical lib v' = Inr c)) \<and>
     (\<forall>p q b. jl_canonical lib (optional_string p) = Inr b \<longrightarrow> jl_canonical lib (optional_string q) = Inr b \<longrightarrow> p = q)"

definition canonical_text :: "journal_lib \<Rightarrow> json \<Rightarrow> string" where
  "canonical_text lib v = (case jl_canonical lib v of Inl _ \<Rightarrow> [] | Inr b \<Rightarrow> b)"

definition journal_input :: "journal_lib \<Rightarrow> string \<Rightarrow> journal_record \<Rightarrow> string" where
  "journal_input lib stream r =
     (case as_object (jr_event r) of
        None \<Rightarrow> []
      | Some object \<Rightarrow>
          HASH_DOMAIN @ canonical_text lib (record_view stream (jr_sequence r) (jr_previous_event_hash r) object))"

definition same_event :: "journal_lib \<Rightarrow> journal_record \<Rightarrow> journal_record \<Rightarrow> bool" where
  "same_event lib r r' \<longleftrightarrow>
     (\<exists>b. jl_canonical lib (jr_event r) = Inr b \<and> jl_canonical lib (jr_event r') = Inr b)"

lemma record_view_wf: "\<exists>m. record_view stream s p object = Object m \<and> bm_wf m \<and>
    map_of m ''previous_event_hash'' = Some (optional_string p) \<and>
    map_of m ''event'' = Some (Object (filter (\<lambda>(k, _). k \<noteq> ''event_hash'' \<and> k \<noteq> ''previous_event_hash'') object))"
proof -
  have "sorted_wrt (<) [''event'', ''hash_profile'', ''previous_event_hash'', ''schema_version'', ''sequence'', ''stream_id'']"
    by code_simp
  then have "bm_wf [(''event'', v1), (''hash_profile'', v2), (''previous_event_hash'', v3), (''schema_version'', v4),
      (''sequence'', v5), (''stream_id'', v6)]" for v1 v2 v3 v4 v5 v6 :: json
    by (simp only: bm_wf_def list.map fst_conv)
  then show ?thesis by (simp add: record_view_def)
qed

lemma record_sound_input:
  assumes "record_sound lib stream r"
  obtains object b where "jr_event r = Object object" "jl_canonical lib (record_view stream (jr_sequence r) (jr_previous_event_hash r) object) = Inr b"
    "journal_input lib stream r = HASH_DOMAIN @ b" "jr_event_hash r = ''sha256:'' @ hex_digest (jl_sha256 lib (HASH_DOMAIN @ b))"
    "filter (\<lambda>(k, _). k \<noteq> ''event_hash'' \<and> k \<noteq> ''previous_event_hash'') object = object"
proof -
  from assms have hash: "hash_record lib stream (jr_sequence r) (jr_previous_event_hash r) (jr_event r) = Inr (jr_event_hash r)"
    and "\<exists>t. validate_event lib t (jr_event r) = Inr ()" unfolding record_sound_def by blast+
  then obtain t where "validate_event lib t (jr_event r) = Inr ()" by blast
  from validate_event_facts [OF validate_event_contract [OF this]]
  have absent: "json_get ''event_hash'' (jr_event r) = None" "json_get ''previous_event_hash'' (jr_event r) = None" by auto
  obtain object where o: "as_object (jr_event r) = Some object"
    using hash by (auto simp: hash_record_def split: if_splits option.splits)
  then have e: "jr_event r = Object object" by (cases "jr_event r") auto
  obtain b where b: "jl_canonical lib (record_view stream (jr_sequence r) (jr_previous_event_hash r) object) = Inr b"
      "jr_event_hash r = ''sha256:'' @ hex_digest (jl_sha256 lib (HASH_DOMAIN @ b))"
    using hash o by (auto simp: hash_record_def canonical_bytes_def split: if_splits sum.splits)
  have "filter (\<lambda>(k, _). k \<noteq> ''event_hash'' \<and> k \<noteq> ''previous_event_hash'') object = object"
    using absent by (auto simp: e map_of_eq_None_iff filter_id_conv rev_image_eqI split: prod.splits)
  then show thesis using that e b o by (simp add: journal_input_def canonical_text_def)
qed

interpretation journal_chain: hash_chain "\<lambda>r. record_sound lib stream r \<and> canonical_faithful lib"
  jr_previous_event_hash jr_event_hash "journal_input lib stream" "same_event lib" "jl_sha256 lib"
  for lib stream
proof
  fix r r' assume ok: "record_sound lib stream r \<and> canonical_faithful lib" "record_sound lib stream r' \<and> canonical_faithful lib"
  obtain o1 b where o1: "jr_event r = Object o1"
      "jl_canonical lib (record_view stream (jr_sequence r) (jr_previous_event_hash r) o1) = Inr b"
      "journal_input lib stream r = HASH_DOMAIN @ b" "jr_event_hash r = ''sha256:'' @ hex_digest (jl_sha256 lib (HASH_DOMAIN @ b))"
      "filter (\<lambda>(k, _). k \<noteq> ''event_hash'' \<and> k \<noteq> ''previous_event_hash'') o1 = o1"
    using ok(1) by (elim conjE) (rule record_sound_input)
  obtain o2 b' where o2: "jr_event r' = Object o2"
      "jl_canonical lib (record_view stream (jr_sequence r') (jr_previous_event_hash r') o2) = Inr b'"
      "journal_input lib stream r' = HASH_DOMAIN @ b'" "jr_event_hash r' = ''sha256:'' @ hex_digest (jl_sha256 lib (HASH_DOMAIN @ b'))"
      "filter (\<lambda>(k, _). k \<noteq> ''event_hash'' \<and> k \<noteq> ''previous_event_hash'') o2 = o2"
    using ok(2) by (elim conjE) (rule record_sound_input)
  show "jl_sha256 lib (journal_input lib stream r) = jl_sha256 lib (journal_input lib stream r')"
    if "jr_event_hash r = jr_event_hash r'"
    using that hex_digest_inj unfolding o1(3,4) o2(3,4) by (simp only: same_append_eq)
  show "jr_previous_event_hash r = jr_previous_event_hash r' \<and> same_event lib r r'"
    if "journal_input lib stream r = journal_input lib stream r'"
  proof -
    have b: "b' = b" using that o1(3) o2(3) by simp
    obtain m where m: "record_view stream (jr_sequence r) (jr_previous_event_hash r) o1 = Object m" "bm_wf m"
        "map_of m ''previous_event_hash'' = Some (optional_string (jr_previous_event_hash r))"
        "map_of m ''event'' = Some (jr_event r)"
      using record_view_wf [of stream "jr_sequence r" "jr_previous_event_hash r" o1] o1(1,5) by auto
    obtain m' where m': "record_view stream (jr_sequence r') (jr_previous_event_hash r') o2 = Object m'" "bm_wf m'"
        "map_of m' ''previous_event_hash'' = Some (optional_string (jr_previous_event_hash r'))"
        "map_of m' ''event'' = Some (jr_event r')"
      using record_view_wf [of stream "jr_sequence r'" "jr_previous_event_hash r'" o2] o2(1,5) by auto
    have member: "\<exists>v' c. map_of m' k = Some v' \<and> jl_canonical lib v = Inr c \<and> jl_canonical lib v' = Inr c"
      if "map_of m k = Some v" for k v
      using ok(1) m(1,2) m'(1,2) o1(2) o2(2) b that unfolding canonical_faithful_def by metis
    have "same_event lib r r'" using member [OF m(4)] m'(4) by (auto simp: same_event_def)
    moreover have "jr_previous_event_hash r = jr_previous_event_hash r'"
      using member [OF m(3)] m'(3) ok(1) unfolding canonical_faithful_def by (metis option.inject)
    ultimately show ?thesis by blast
  qed
qed

lemma linked_chained: "linked s p rs \<Longrightarrow> chained jr_previous_event_hash jr_event_hash p rs"
  by (induction rs arbitrary: s p) auto

text \<open>
  C9: The journal is tamper evident. If two sequences of records of a stream both verify, with the
  same computed head (say, a trusted checkpoint), then they have the same length and record by record
  byte-identical canonical events, unless two of the texts hashed for them, which the theorem names,
  are a SHA-256 collision.
\<close>

theorem journal_tamper_evident:
  assumes "canonical_faithful lib"
    and "verify_records lib rs stream ck at = Inr result" and "vr_valid result"
    and "verify_records lib rs' stream ck' at' = Inr result'" and "vr_valid result'"
    and "vr_computed_head_hash result = vr_computed_head_hash result'"
  shows "list_all2 (same_event lib) rs rs' \<or>
    collision (jl_sha256 lib) (map (journal_input lib stream) rs) (map (journal_input lib stream) rs')"
proof -
  have valid: "chain lib stream rs \<and> rs \<noteq> [] \<and> vr_computed_head_hash result = Some (jr_event_hash (last rs))"
    if "verify_records lib rs stream ck at = Inr result" "vr_valid result" for rs ck at result
    using verify_records_head [OF that] .
  show ?thesis
    using valid [OF assms(2,3)] valid [OF assms(4,5)] assms(1,6)
    by (intro journal_chain.same_head_same_history)
      (auto simp: chain_def list_all_iff intro: linked_chained)
qed

end
