(* ===== verification/Aios_Journal_Example.thy ===== *)
theory Aios_Journal_Example
  imports Aios_Journal_Safety
begin

text \<open>
  A small journal at which the theorems of the provenance journal apply: a task is created and starts
  planning. The libraries are instantiated by concrete functions: a prefix-free JSON text, a reader
  that knows the texts of the sample, and a 32-byte parity checksum in the place of SHA-256. They satisfy
  what the theorems ask of the libraries, so those hypotheses can hold together.
\<close>

section \<open>Evaluation of characters\<close>

text \<open>Code equations that read a byte as bits or as a binary integer.\<close>

lemma utf8_continuation_bits [code]: "utf8_continuation (Char b0 b1 b2 b3 b4 b5 b6 b7) \<longleftrightarrow> b7 \<and> \<not> b6"
  by (cases b0; cases b1; cases b2; cases b3; cases b4; cases b5; cases b6; cases b7) (simp_all add: utf8_continuation_def)

lemma is_ascii_digit_int [code]: "is_ascii_digit c = byte_between 48 c 57"
  unfolding is_ascii_digit_def byte_between_def of_char_int by linarith

lemma is_ascii_lowercase_int [code]: "is_ascii_lowercase c = byte_between 97 c 122"
  unfolding is_ascii_lowercase_def byte_between_def of_char_int by linarith

lemma is_ascii_uppercase_int [code]: "is_ascii_uppercase c = byte_between 65 c 90"
  unfolding is_ascii_uppercase_def byte_between_def of_char_int by linarith

lemma as_i64_int [code]:
  "as_i64 (PosInt n) = (if uint n < 9223372036854775808 then Some (uint n) else None)"
  "as_i64 (NegInt n) = Some (sint n)"
  "as_i64 (Float w) = None"
proof -
  have "unat n < 9223372036854775808 \<longleftrightarrow> uint n < 9223372036854775808"
    by (simp only: unat_eq_nat_uint nat_less_iff uint_ge_0 of_nat_numeral)
  then show "as_i64 (PosInt n) = (if uint n < 9223372036854775808 then Some (uint n) else None)" by simp
qed simp_all


section \<open>A prefix-free JSON text\<close>

definition encode_string :: "string \<Rightarrow> string" where
  "encode_string s = concat (map (\<lambda>c. [CHR ''c'', c]) s) @ ''.''"

definition encode_word :: "u64 \<Rightarrow> string" where
  "encode_word w = map (\<lambda>i. if bit w i then CHR ''1'' else CHR ''0'') [0..<64]"

fun encode_number :: "json_number \<Rightarrow> string" where
  "encode_number (PosInt w) = ''p'' @ encode_word w"
| "encode_number (NegInt w) = ''m'' @ encode_word w"
| "encode_number (Float w) = ''f'' @ encode_word w"

fun encode :: "json \<Rightarrow> string" and encode_list :: "json list \<Rightarrow> string"
  and encode_entries :: "(string \<times> json) list \<Rightarrow> string" where
  "encode Null = ''n''"
| "encode (Bool b) = (if b then ''t'' else ''u'')"
| "encode (Number n) = ''#'' @ encode_number n"
| "encode (String s) = ''s'' @ encode_string s"
| "encode (Array vs) = ''a'' @ encode_list vs"
| "encode (Object m) = ''o'' @ encode_entries m"
| "encode_list [] = ''.''"
| "encode_list (v # vs) = ''+'' @ encode v @ encode_list vs"
| "encode_entries [] = ''.''"
| "encode_entries ((k, v) # m) = ''+'' @ encode_string k @ encode v @ encode_entries m"

lemma encode_string_inj: "encode_string s @ x = encode_string t @ y \<Longrightarrow> s = t \<and> x = y"
proof (induction s arbitrary: t)
  case Nil
  then show ?case by (cases t) (auto simp: encode_string_def)
next
  case (Cons c s)
  then show ?case by (cases t) (auto simp: encode_string_def)
qed

lemma encode_word_inj: "encode_word v = encode_word w \<Longrightarrow> v = w"
  by (rule bit_eqI) (auto simp: encode_word_def split: if_splits)

lemma length_encode_word: "length (encode_word w) = 64"
  by (simp add: encode_word_def)

lemma encode_number_inj: "encode_number a @ x = encode_number b @ y \<Longrightarrow> a = b \<and> x = y"
  by (cases a; cases b) (auto simp: length_encode_word dest: encode_word_inj)

lemma encode_inj:
  "encode v @ x = encode w @ y \<Longrightarrow> v = w \<and> x = y"
  "encode_list vs @ x = encode_list ws @ y \<Longrightarrow> vs = ws \<and> x = y"
  "encode_entries m @ x = encode_entries m' @ y \<Longrightarrow> m = m' \<and> x = y"
proof (induction v and vs and m arbitrary: w x y and ws x y and m' x y rule: encode_encode_list_encode_entries.induct)
  case (8 v vs)
  from 8(3) obtain w ws' where ws: "ws = w # ws'" by (cases ws) auto
  with 8(3) have "encode v @ encode_list vs @ x = encode w @ encode_list ws' @ y" by simp
  from 8(1) [OF this] 8(2) [of x ws' y] ws show ?case by simp
next
  case (10 k v m)
  from 10(3) obtain k' w m0 where m': "m' = (k', w) # m0" by (cases m') auto
  with 10(3) have "encode_string k @ encode v @ encode_entries m @ x = encode_string k' @ encode w @ encode_entries m0 @ y"
    by simp
  from encode_string_inj [OF this] have k: "k = k'" "encode v @ encode_entries m @ x = encode w @ encode_entries m0 @ y"
    by auto
  from 10(1) [OF k(2)] 10(2) [of x m0 y] m' k(1) show ?case by simp
next
  case (2 b)
  then show ?case by (cases w) (auto split: if_splits)
next
  case (3 n)
  then show ?case by (cases w) (auto split: if_splits dest: encode_number_inj)
next
  case (4 s)
  then show ?case by (cases w) (auto split: if_splits dest: encode_string_inj)
next
  case (5 vs)
  from 5(2) obtain ws where "w = Array ws" by (cases w) (simp_all split: if_splits)
  then show ?case using 5(1) [of x ws y] 5(2) by simp
next
  case (6 m)
  from 6(2) obtain m' where "w = Object m'" by (cases w) (simp_all split: if_splits)
  then show ?case using 6(1) [of x m' y] 6(2) by simp
next
  case 7
  then show ?case by (cases ws) auto
next
  case 9
  then show ?case by (cases m') auto
next
  case 1
  then show ?case by (cases w) (auto split: if_splits)
qed

lemma length_encode_string: "length s \<le> length (encode_string s)"
  by (induction s) (auto simp: encode_string_def)

lemma length_encode_entries: "map_of m k = Some v \<Longrightarrow> length (encode v) \<le> length (encode_entries m)"
  by (induction m) (auto split: if_splits)


section \<open>A library and a journal\<close>

definition sample_time :: string where "sample_time = ''2026-01-01T00:00:00Z''"

definition sample_digest :: string where
  "sample_digest = ''sha256:'' @ replicate 64 (CHR ''0'')"

definition sample_created :: json where
  "sample_created = Object
     [(''actor'', Object [(''id'', String ''u''), (''kind'', String ''user'')]),
      (''details'', Object
         [(''active_plan'', Null), (''active_step_ids'', Array []),
          (''creation'', Object
             [(''constraints'', Null), (''created_at'', String sample_time), (''normalized_intent_ref'', Null),
              (''original_intent_ref'', Object
                 [(''algorithm'', String ''sha256-keyed-prefix''), (''commitment'', String sample_digest),
                  (''field'', String ''original_intent''), (''kind'', String ''task-field-commitment''),
                  (''version'', String ''v1'')]),
              (''principal'', Object [(''id'', String ''u''), (''kind'', String ''user'')]),
              (''workspace_id'', Null)]),
          (''failure'', Null), (''recovery'', Null), (''revision'', Number (PosInt 1)), (''waiting_on'', Array [])]),
      (''event_id'', String ''e1''), (''event_type'', String ''task.created''),
      (''schema_version'', String ''0.1''), (''task_id'', String ''t''), (''timestamp'', String sample_time)]"

definition sample_planning :: json where
  "sample_planning = Object
     [(''actor'', Object [(''id'', String ''u''), (''kind'', String ''user'')]),
      (''event_id'', String ''e2''), (''event_type'', String ''task.transitioned''),
      (''schema_version'', String ''0.1''), (''task_id'', String ''t''),
      (''task_transition'', Object
         [(''new_revision'', Number (PosInt 2)), (''new_state'', String ''PLANNING''),
          (''previous_revision'', Number (PosInt 1)), (''previous_state'', String ''CREATED'')]),
      (''timestamp'', String sample_time)]"

fun xor_char :: "char \<Rightarrow> char \<Rightarrow> char" where
  "xor_char (Char a0 a1 a2 a3 a4 a5 a6 a7) (Char b0 b1 b2 b3 b4 b5 b6 b7) =
     Char (a0 \<noteq> b0) (a1 \<noteq> b1) (a2 \<noteq> b2) (a3 \<noteq> b3) (a4 \<noteq> b4) (a5 \<noteq> b5) (a6 \<noteq> b6) (a7 \<noteq> b7)"

definition sample_sha :: "string \<Rightarrow> string" where
  "sample_sha s = replicate 31 (CHR 0x00) @ [foldl xor_char (CHR 0x00) s]"

definition sample_lib :: journal_lib where
  "sample_lib =
     \<lparr>jl_sha256 = sample_sha, jl_canonical = (\<lambda>v. Inr (encode v)), jl_to_string = encode,
      jl_read = (\<lambda>s. case find (\<lambda>e. encode e = s) [sample_created, sample_planning] of
                        None \<Rightarrow> Inl ''unknown text'' | Some e \<Rightarrow> Inr e),
      jl_time = \<lparr>rfc_parse = (\<lambda>s. if s = sample_time then Some 0 else None), rfc_format = (\<lambda>_. None)\<rparr>,
      jl_event_schema = Inr (\<lambda>e. string_field e ''event_id'' \<noteq> None), jl_manifest_schema = Inr (\<lambda>_. True),
      jl_record_schema = Inr (\<lambda>_. True), jl_result_schema = Inr (\<lambda>_. True)\<rparr>"

lemma as_str_Some_iff: "as_str v = Some s \<longleftrightarrow> v = String s"
  by (cases v) auto

lemma sample_library_ok: "library_ok sample_lib"
proof -
  have "length s \<le> length (encode e)" if "string_field e k = Some s" for e k s
  proof -
    obtain m where m: "e = Object m" "map_of m k = Some (String s)"
      using \<open>string_field e k = Some s\<close>
      by (cases e) (auto simp: string_field_def Option.bind_eq_Some_conv as_str_Some_iff)
    then show ?thesis using length_encode_entries [OF m(2)] length_encode_string [of s] by simp
  qed
  then show ?thesis by (simp add: library_ok_def sample_lib_def sample_sha_def)
qed

lemma sample_canonical_faithful: "canonical_faithful sample_lib"
proof -
  have inj: "v = w" if "encode v = encode w" for v w using encode_inj(1) [of v "[]" w "[]"] that by simp
  have "p = q" if "optional_string p = optional_string q" for p q
    using that by (auto simp: optional_string_def split: option.splits)
  moreover have "m = m'" if "encode (Object m) = encode (Object m')" for m m' using inj [OF that] by simp
  ultimately show ?thesis using inj unfolding canonical_faithful_def sample_lib_def
    by (simp del: encode.simps) metis
qed

definition sample_stream :: string where
  "sample_stream = ''task:v1:sha256:'' @ hex_digest (sample_sha (STREAM_DOMAIN @ ''t''))"

definition sample_db0 :: journal_db where
  "sample_db0 = journal_empty\<lparr>jd_tasks := [''t'']\<rparr>"

definition sample_first :: "journal_record \<times> journal_db" where
  "sample_first = projr (append_in_tx sample_lib ''t'' sample_created EmptyHead sample_db0)"

definition sample_second :: "journal_record \<times> journal_db" where
  "sample_second = projr (append_in_tx sample_lib ''t'' sample_planning AnyHead (snd sample_first))"

lemma projr_is_ok: "is_ok r \<Longrightarrow> r = Inr (projr r)"
  by (cases r) auto


lemma sample_reads_back: "reads_back sample_lib sample_created" "reads_back sample_lib sample_planning"
  unfolding reads_back_def by code_simp+

lemma sample_append1: "append_in_tx sample_lib ''t'' sample_created EmptyHead sample_db0 = Inr (fst sample_first, snd sample_first)"
proof -
  have "is_ok (append_in_tx sample_lib ''t'' sample_created EmptyHead sample_db0)" by code_simp
  from projr_is_ok [OF this] show ?thesis by (simp add: sample_first_def)
qed

lemma sample_append2: "append_in_tx sample_lib ''t'' sample_planning AnyHead (snd sample_first) = Inr (fst sample_second, snd sample_second)"
proof -
  have "is_ok (append_in_tx sample_lib ''t'' sample_planning AnyHead (snd sample_first))" by code_simp
  from projr_is_ok [OF this] show ?thesis by (simp add: sample_second_def)
qed


abbreviation sample_r1 :: journal_record where "sample_r1 \<equiv> fst sample_first"
abbreviation sample_r2 :: journal_record where "sample_r2 \<equiv> fst sample_second"
abbreviation sample_db1 :: journal_db where "sample_db1 \<equiv> snd sample_first"
abbreviation sample_db2 :: journal_db where "sample_db2 \<equiv> snd sample_second"

lemma sample_stream_id: "stream_id sample_lib ''t'' = Inr sample_stream"
proof -
  have "validate_task_id ''t'' = Inr ()" by code_simp
  then show ?thesis by (simp add: stream_id_def sample_stream_def sample_lib_def)
qed

lemma sample_stream_valid: "validate_stream_id sample_stream = Inr ()"
  by code_simp

lemma sample_time_valid: "validate_timestamp sample_lib sample_time = Inr ()"
  by code_simp

lemma sample_runs:
  "(journal_step sample_lib)\<^sup>*\<^sup>* journal_empty sample_db0"
  "(journal_step sample_lib)\<^sup>*\<^sup>* journal_empty sample_db2"
proof -
  have 0: "journal_step sample_lib journal_empty sample_db0"
    by (rule journal_other) (simp add: sample_db0_def)
  then show "(journal_step sample_lib)\<^sup>*\<^sup>* journal_empty sample_db0" by blast
  have "journal_step sample_lib sample_db0 sample_db1" "journal_step sample_lib sample_db1 sample_db2"
    using journal_append [OF sample_append1 sample_reads_back(1)] journal_append [OF sample_append2 sample_reads_back(2)]
    by blast+
  then show "(journal_step sample_lib)\<^sup>*\<^sup>* journal_empty sample_db2"
    using 0 by (meson converse_rtranclp_into_rtranclp rtranclp.rtrancl_refl)
qed

lemma sample_chain:
  "chain sample_lib sample_stream [sample_r1, sample_r2] \<and>
   jr_event sample_r1 = sample_created \<and> jr_event sample_r2 = sample_planning \<and>
   length (stream_rows sample_db2 sample_stream) = 2"
proof -
  have s1: "jr_stream_id sample_r1 = sample_stream"
    by (rule append_in_tx_Inr [OF sample_append1]) (use sample_stream_id in simp)
  have s2: "jr_stream_id sample_r2 = sample_stream"
    by (rule append_in_tx_Inr [OF sample_append2]) (use sample_stream_id in simp)
  have rows0: "stream_rows sample_db0 sample_stream = []"
    by (simp add: stream_rows_def sample_db0_def journal_empty_def)
  have c1: "chain sample_lib sample_stream [sample_r1] \<and> row_sound sample_lib (appended_row sample_lib ''t'' sample_r1) sample_r1 \<and>
      jr_event sample_r1 = sample_created \<and> sample_db1 = sample_db0\<lparr>jd_events := [appended_row sample_lib ''t'' sample_r1]\<rparr>"
  proof -
    have "chain sample_lib sample_stream []" "jd_events sample_db0 = []"
      by (simp_all add: chain_def sample_db0_def journal_empty_def)
    then show ?thesis
      using append_chain [OF sample_library_ok sample_reads_back(1) sample_append1, of "[]"] s1 rows0 by simp
  qed
  have key: "er_stream_id (appended_row sample_lib ''t'' sample_r1) = sample_stream"
      "er_stream_id (appended_row sample_lib ''t'' sample_r2) = sample_stream"
    by (simp_all add: appended_row_def Let_def s1 s2)
  have rows1: "stream_rows sample_db1 sample_stream = [appended_row sample_lib ''t'' sample_r1]"
    using c1 key by (simp add: stream_rows_def)
  have c2: "chain sample_lib sample_stream [sample_r1, sample_r2] \<and> jr_event sample_r2 = sample_planning \<and>
      sample_db2 = sample_db1\<lparr>jd_events := jd_events sample_db1 @ [appended_row sample_lib ''t'' sample_r2]\<rparr>"
    using append_chain [OF sample_library_ok sample_reads_back(2) sample_append2, of "[sample_r1]"] s2 rows1 c1 by simp
  have "length (stream_rows sample_db2 sample_stream) = 2"
    using c1 c2 key by (simp add: stream_rows_def)
  then show ?thesis using c1 c2 by simp
qed

lemma sample_verified:
  "\<exists>result. verify_records sample_lib [sample_r1, sample_r2] sample_stream None sample_time = Inr result \<and> vr_valid result"
proof -
  have "validate_checkpoint None = Inr ()" by (simp add: validate_checkpoint_def)
  moreover have "distinct (event_ids [sample_r1, sample_r2])"
  proof -
    have "string_field sample_created ''event_id'' = Some ''e1''" "string_field sample_planning ''event_id'' = Some ''e2''"
      by code_simp+
    then show ?thesis using sample_chain by simp
  qed
  ultimately show ?thesis
    using verify_records_exact_aux [OF sample_stream_valid sample_time_valid, of None "[sample_r1, sample_r2]"] sample_chain
    by (auto simp: checkpoint_ok_def)
qed


section \<open>The theorems at the sample\<close>

theorem appended_journal_verifies_witness:
  "\<exists>result. verify_stream sample_lib sample_db2 sample_stream None None sample_time = Inr result \<and> vr_valid result \<and>
     vr_to_sequence result = 2"
proof -
  have "stream_rows sample_db2 sample_stream \<noteq> []" using sample_chain by (metis list.size(3) zero_neq_numeral)
  from appended_journal_verifies [OF sample_library_ok sample_runs(2) sample_stream_valid sample_time_valid this]
  show ?thesis using sample_chain by auto
qed

theorem verify_records_exact_witness:
  "\<exists>result. verify_records sample_lib [sample_r1, sample_r2] sample_stream None sample_time = Inr result \<and>
     (vr_valid result \<longleftrightarrow> chain sample_lib sample_stream [sample_r1, sample_r2] \<and> distinct (event_ids [sample_r1, sample_r2]))"
  using verify_records_exact [OF sample_stream_valid sample_time_valid, of None "[sample_r1, sample_r2]"]
  by (auto simp: validate_checkpoint_def checkpoint_ok_def)

theorem one_writer_wins_witness:
  "\<not> is_ok (append_in_tx sample_lib ''t'' sample_planning EmptyHead sample_db1)"
  by (rule one_writer_wins [OF sample_library_ok sample_runs(1) sample_append1 sample_reads_back(1)]) auto

theorem verified_history_contiguous_witness:
  "contiguous_history (transitions [sample_created, sample_planning]) \<and>
   transition_u64 ''new_revision'' sample_planning = Some 2"
proof -
  obtain result where "verify_records sample_lib [sample_r1, sample_r2] sample_stream None sample_time = Inr result"
      "vr_valid result" using sample_verified by blast
  from verified_history_contiguous [OF this] sample_chain
  have "contiguous_history (transitions [sample_created, sample_planning])" by simp
  moreover have "transition_u64 ''new_revision'' sample_planning = Some 2" by code_simp
  ultimately show ?thesis ..
qed

theorem journal_tamper_evident_witness:
  "list_all2 (same_event sample_lib) [sample_r1, sample_r2] [sample_r1, sample_r2] \<or>
   collision sample_sha (map (journal_input sample_lib sample_stream) [sample_r1, sample_r2])
     (map (journal_input sample_lib sample_stream) [sample_r1, sample_r2])"
proof -
  obtain result where r: "verify_records sample_lib [sample_r1, sample_r2] sample_stream None sample_time = Inr result"
      "vr_valid result" using sample_verified by blast
  have "jl_sha256 sample_lib = sample_sha" by (simp add: sample_lib_def)
  then show ?thesis using journal_tamper_evident [OF sample_canonical_faithful r r refl] by simp
qed

end
