(* ===== verification/Spec2Isabelle.thy ===== *)
theory Spec2Isabelle
  imports Aios_Example Aios_Deadline Aios_Journal_Example
begin

text \<open>
  A verification development for AI-native OS (\<open>src/\<close>): the AIOS IR validator, the semantic registry,
  the provenance journal and the clock and authority core of the task manager.

  \<^bold>\<open>The program.\<close> A task is submitted as an AIOS IR program: a graph of nodes, each invoking a
  capability of a semantic registry. The validator (\<open>crates/aios-ir\<close>) decides whether the program is
  well formed against the registry (\<open>crates/aios-registry\<close>) and summarises its effects and the
  authority it needs. The task manager (\<open>crates/aios-task-manager\<close>) keeps tasks, authority grants and
  a trusted clock in one SQLite store, and records every change as an event of a hash-chained
  provenance journal (\<open>crates/aios-provenance\<close>). The data contracts are in \<open>crates/aios-contracts\<close>.

  \<^bold>\<open>Theories and sources.\<close>

  \<^item> \<open>Aios_Prelude\<close>: strings as UTF-8 bytes, results as sums, ordered maps and sets, and the
    interfaces as locales: \<open>ordered_index\<close> (maps), \<open>graph_search\<close> (worklist loops), \<open>run_system\<close>
    (steps of a state machine and their runs).
  \<^item> \<open>Aios_Contracts\<close>, \<open>Aios_Diagnostics\<close>, \<open>Aios_Version\<close>: the records and enums of
    \<open>aios-contracts\<close>, the reason code catalogs and the bounded collector
    (\<open>aios-ir/src/diagnostics.rs\<close>), versions and references (\<open>aios-registry/src/version.rs\<close>).
  \<^item> \<open>Aios_Numbers\<close>: \<open>aios-registry/src/numbers.rs\<close>, the exact reading and rewriting of JSON numbers.
  \<^item> \<open>Aios_Registry\<close>: contract validation, snapshot indexing and cross references of
    \<open>aios-registry/src/loader.rs\<close>, declared hashes of \<open>hash.rs\<close>.
  \<^item> \<open>Aios_References\<close>, \<open>Aios_Graph\<close>, \<open>Aios_Effects\<close>, \<open>Aios_Fallbacks\<close>, \<open>Aios_Semantics\<close>: the analyzer
    \<open>aios-ir/src/semantics.rs\<close> pass by pass (references and types, cycles, effects and egress,
    fallbacks and unused nodes, the driver); \<open>Aios_Example\<close> has accepted programs, one with a remote node
    and an unused one, and a cyclic program.
  \<^item> \<open>Aios_Task_Types\<close>, \<open>Aios_Time\<close>, \<open>Aios_Time_Safety\<close>: the data of the task manager, the trusted
    clock \<open>trusted_time.rs\<close> over its tables (state row, observation ledger, in-flight markers, clock
    sessions, lease), and what runs of it guarantee.
  \<^item> \<open>Aios_Deadline\<close>: grant deadlines and expiry latches, \<open>authority_deadline.rs\<close>.
  \<^item> \<open>Aios_Journal_Events\<close>, \<open>Aios_Journal\<close>, \<open>Aios_Journal_Safety\<close>, \<open>Aios_Journal_Example\<close>: the
    provenance journal \<open>aios-provenance/src/lib.rs\<close>: what it accepts as an event, appending and the
    two verifiers, what they guarantee (with the locale \<open>hash_chain\<close>), a sample journal.

  A Rust struct is a record, an enum a datatype, \<open>Result\<close> a sum whose left side is the error, a loop a
  recursive function with its termination proof. Where the source could panic (an index, an
  \<open>expect\<close>, a subtraction) the model has a separate outcome, and the theorems exclude it. A SQLite
  table is the list of its rows; the statements of a transaction are functions on the tables, the
  constraints and triggers of \<open>specs/persistence-v0.1.sql\<close> the guards of the inserts.

  \<^bold>\<open>What is shown.\<close> The analyzer refines a declarative notion of a well-formed program
  (\<open>analyze_sound_complete\<close>), from which follow the safety properties of accepted programs: effects,
  authority and egress inside the contract envelope, acyclicity, agreement of effects and authority.
  The clock never runs backward, a transaction is atomic with its clock sample, uncertainty and grant
  expiry are final, a permit is used once, a crash with an effect in flight is detected. The journal
  verifier accepts exactly the well-formed chains, every appended journal verifies, a verified journal
  is a contiguous task history, and two verified journals with one head are one history unless two
  hashed texts collide. The shape check of the journal accepts exactly the bounded trees. Smaller
  components have round trips, exactness of parsers and orders, bounds and error behaviour.

  \<^bold>\<open>Parameters.\<close> Third-party code is an argument: the \<open>time\<close> crate (\<open>rfc3339\<close>), clock samples and the
  acknowledgement of a commit, and for the journal SHA-256, the RFC 8785 canonicalizer, the JSON reader
  and writer and the compiled JSON schemas (\<open>journal_lib\<close>). What a theorem relies on is a named
  predicate: \<open>rfc_exact\<close> (a printed instant parses back), \<open>library_ok\<close> (digests have 32 bytes, a JSON
  text contains its strings), \<open>reads_back\<close> (\<open>serde_json\<close> reads the text of an event as the members it
  printed; that the journal's own reader then returns the event is proved), \<open>canonical_faithful\<close>
  (canonical texts determine their members). Collision freedom is never assumed: the theorem about
  tampering names the two colliding texts instead. There is no fuel: every loop of the model
  terminates by a measure.

  \<^bold>\<open>Not modelled.\<close> The JSON reader (\<open>strict_json.rs\<close>, \<open>parse.rs\<close>), the validator driver and the command
  line, which are glue around third-party parsers, schema engines and hashes; the stores \<open>store.rs\<close>, \<open>provider_store.rs\<close>
  and \<open>artifact_store.rs\<close>, whose logic is SQL and file system calls; provider conformance; the task
  state machine, admission and policy of the task manager; the redacted projection of the journal.
\<close>

section \<open>The analyzer refines its specification\<close>

text \<open>
  C1: the analyzer is total, sound and complete. Started on a collector without errors it returns
  (no \<open>expect\<close>, index or subtraction in it can panic, and its loops end); it yields a summary, and
  leaves the collector without errors, exactly when the program is well formed against the
  registry; and the summary is the one the specification describes.
\<close>

theorem analyze_sound_complete:
  assumes "\<not> has_errors c"
  shows "\<exists>r c'. analyze program registry c = Some (r, c') \<and>
    (well_formed program registry \<longrightarrow> \<not> has_errors c' \<and> (\<exists>s. r = Some s \<and> summary_of program registry s)) \<and>
    (\<not> well_formed program registry \<longrightarrow> has_errors c' \<and> r = None)"
  using assms by (rule analyze_refines)

lemma analyze_sound_complete_witness:
  "\<exists>s c'. analyze sample_program sample_registry (collector_new 8) = Some (Some s, c') \<and>
     \<not> has_errors c' \<and> summary_of sample_program sample_registry s"
  using analyze_sound_complete [of "collector_new 8" sample_program sample_registry] sample_well_formed
  by auto

section \<open>What an accepted program guarantees\<close>

text \<open>The analyzer accepts the program with the summary.\<close>

definition accepted :: "aios_ir \<Rightarrow> semantic_registry \<Rightarrow> effect_summary \<Rightarrow> bool" where
  "accepted program registry s \<longleftrightarrow>
     (\<exists>c c'. \<not> has_errors c \<and> analyze program registry c = Some (Some s, c'))"

lemma acceptedD:
  assumes "accepted program registry s"
  shows "well_formed program registry" and "summary_of program registry s"
proof -
  obtain c c' where c: "\<not> has_errors c" and run: "analyze program registry c = Some (Some s, c')"
    using assms unfolding accepted_def by blast
  show "well_formed program registry" "summary_of program registry s"
    using analyze_refines [OF c, of program registry] run by (cases "well_formed program registry"; auto)+
qed

lemma acceptedI: "analyze program registry (collector_new m) = Some (Some s, c') \<Longrightarrow> accepted program registry s"
  using has_errors_collector_new unfolding accepted_def by blast

lemma sample_is_accepted: "\<exists>s. accepted sample_program sample_registry s \<and> es_effects s = [effect_class.ArtifactRead]"
  using sample_accepted by (auto dest!: acceptedI split: option.splits prod.splits)

lemma placed_is_accepted: "\<exists>s. accepted placed_program placed_registry s"
  using placed_accepted by (auto dest!: acceptedI split: option.splits prod.splits)

lemma accepted_contract:
  assumes "accepted program registry s" and "n \<in> set (ir_nodes program)"
  obtains contract where "contract_of registry n = Some contract"
  using acceptedD(1) [OF assms(1)] assms(2) unfolding well_formed_def effects_ok_def contract_of_def by blast

lemma accepted_node:
  assumes "accepted program registry s" and "n \<in> set (ir_nodes program)"
    and "contract_of registry n = Some contract"
  shows "node_effects_ok program n contract"
  using acceptedD(1) [OF assms(1)] assms(2,3)
  unfolding well_formed_def effects_ok_def contract_of_def by (metis option.inject)

text \<open>
  C2: no node of an accepted program exceeds its contract. The effects it is charged with and the
  authority it requests lie inside the contract's envelope, everything the contract requires is
  requested, its egress mode is one the contract allows, and every fallback it names lies inside
  what the node itself was granted.
\<close>

theorem accepted_stays_in_envelope:
  assumes "accepted program registry s" and "n \<in> set (ir_nodes program)"
  shows "\<exists>contract. contract_of registry n = Some contract \<and>
    charged_effects n contract \<subseteq> set (cap_allowed_effect_classes contract) \<and>
    requested_actions n \<subseteq> set (cap_allowed_authority_classes contract) \<and>
    set (cap_required_authority_classes contract) \<subseteq> requested_actions n \<and>
    eg_mode (node_egress n) \<in> set (cap_allowed_egress_modes contract) \<and>
    (\<forall>fs f. node_failure n = Fallback fs \<longrightarrow> f \<in> set fs \<longrightarrow>
       (\<exists>fallback. ok_flatten (resolve_capability registry f) = Some fallback \<and>
          set (cap_allowed_effect_classes fallback) - {Pure} \<subseteq> charged_effects n contract \<and>
          set (cap_allowed_authority_classes fallback) \<subseteq> requested_actions n \<and>
          (eg_mode (node_egress n) = Deny \<longrightarrow> set (cap_allowed_egress_modes fallback) \<subseteq> {Deny})))"
proof -
  have wf: "well_formed program registry" using acceptedD assms(1) by blast
  obtain contract where contract: "contract_of registry n = Some contract"
    using wf assms(2) unfolding well_formed_def effects_ok_def contract_of_def by blast
  have ok: "node_effects_ok program n contract" using accepted_node [OF assms contract] .
  have "fallback_ok program registry n contract f" if "node_failure n = Fallback fs" "f \<in> set fs" for fs f
    using wf assms(2) contract that unfolding well_formed_def fallbacks_ok_def contract_of_def by blast
  then have "\<forall>fs f. node_failure n = Fallback fs \<longrightarrow> f \<in> set fs \<longrightarrow>
       (\<exists>fallback. ok_flatten (resolve_capability registry f) = Some fallback \<and>
          set (cap_allowed_effect_classes fallback) - {Pure} \<subseteq> charged_effects n contract \<and>
          set (cap_allowed_authority_classes fallback) \<subseteq> requested_actions n \<and>
          (eg_mode (node_egress n) = Deny \<longrightarrow> set (cap_allowed_egress_modes fallback) \<subseteq> {Deny}))"
    unfolding fallback_ok_def fallback_within_def by metis
  moreover have "requested_actions n \<subseteq> set (cap_allowed_authority_classes contract)"
    using ok by (auto simp: node_effects_ok_def requested_actions_def request_ok_def)
  ultimately show ?thesis
    using contract ok unfolding node_effects_ok_def egress_ok_def by blast
qed

lemma sample_first_node: "hd (ir_nodes sample_program) \<in> set (ir_nodes sample_program)"
  by (simp add: sample_program_def)

lemma accepted_stays_in_envelope_witness:
  "\<exists>s contract. accepted sample_program sample_registry s \<and>
     contract_of sample_registry (hd (ir_nodes sample_program)) = Some contract \<and>
     charged_effects (hd (ir_nodes sample_program)) contract \<subseteq> set (cap_allowed_effect_classes contract)"
  using sample_is_accepted accepted_stays_in_envelope [OF _ sample_first_node] by blast

text \<open>
  C3: an accepted program has neither a data-flow cycle nor a fallback cycle: following producers or
  following fallbacks always ends.
\<close>

theorem accepted_acyclic:
  assumes "accepted program registry s"
  shows "acyclic (flow program) \<and> acyclic (fallback_relation program)"
  using acceptedD(1) [OF assms] fallbacks_ok_acyclic unfolding well_formed_def by blast

lemma accepted_acyclic_witness: "acyclic (flow sample_program) \<and> acyclic (fallback_relation sample_program)"
  using sample_is_accepted accepted_acyclic by blast

text \<open>
  C4: data leaves a node only under a matching declaration. In an accepted program a node that denies
  egress is not charged with \<open>DATA_EGRESS\<close>, requests no \<open>data.egress\<close> authority and names no
  destination; and a node with inputs that can only be placed away from the local machine runs under
  the policy mode, with at least one destination and a \<open>data.egress\<close> request for each destination.
\<close>

theorem accepted_egress:
  assumes "accepted program registry s" and "n \<in> set (ir_nodes program)"
    and "contract_of registry n = Some contract"
  shows "(eg_mode (node_egress n) = Deny \<longrightarrow>
      DataEgress \<notin> charged_effects n contract \<and> ''data.egress'' \<notin> requested_actions n \<and>
      eg_destination_classes (node_egress n) = []) \<and>
    (non_local_only n \<and> node_inputs n \<noteq> [] \<longrightarrow>
      eg_mode (node_egress n) = Policy \<and> eg_destination_classes (node_egress n) \<noteq> [] \<and>
      (\<forall>d \<in> set (eg_destination_classes (node_egress n)). \<exists>q \<in> set (node_authority_requests n).
         ar_action q = ''data.egress'' \<and> ar_resource q = ''destination:'' @ d))"
proof -
  have ok: "node_effects_ok program n contract" using accepted_node [OF assms] .
  show ?thesis
  proof (cases "eg_mode (node_egress n)")
    case Deny
    then show ?thesis using ok by (auto simp: node_effects_ok_def egress_ok_def)
  next
    case Policy
    have "\<exists>q \<in> set (node_authority_requests n). ar_action q = ''data.egress'' \<and> ar_resource q = ''destination:'' @ d"
      if "d \<in> set (eg_destination_classes (node_egress n))" for d
    proof -
      have "''destination:'' @ d \<in> {r. (''data.egress'', r) \<in> request_pair ` set (node_authority_requests n)}"
        using ok that Policy unfolding node_effects_ok_def egress_ok_def by auto
      then show ?thesis unfolding request_pair_def by auto
    qed
    then show ?thesis using ok Policy by (simp add: node_effects_ok_def egress_ok_def)
  qed
qed

lemma accepted_egress_witness:
  "''data.egress'' \<notin> requested_actions (hd (ir_nodes sample_program)) \<and>
   eg_mode (node_egress send_node) = Policy \<and>
   (\<exists>q \<in> set (node_authority_requests send_node). ar_action q = ''data.egress'' \<and> ar_resource q = ''destination:mail'')"
proof
  let ?n = "hd (ir_nodes sample_program)"
  obtain s where s: "accepted sample_program sample_registry s" using sample_is_accepted by blast
  obtain contract where "contract_of sample_registry ?n = Some contract"
    by (rule accepted_contract [OF s sample_first_node])
  moreover have "eg_mode (node_egress ?n) = Deny" by (simp add: sample_program_def sample_node_def)
  ultimately show "''data.egress'' \<notin> requested_actions ?n" using accepted_egress [OF s sample_first_node] by blast
next
  obtain s where s: "accepted placed_program placed_registry s" using placed_is_accepted by blast
  have n: "send_node \<in> set (ir_nodes placed_program)" by (simp add: placed_program_def)
  obtain contract where c: "contract_of placed_registry send_node = Some contract" by (rule accepted_contract [OF s n])
  have "non_local_only send_node" "node_inputs send_node \<noteq> []" "''mail'' \<in> set (eg_destination_classes (node_egress send_node))"
    by (simp_all add: send_node_def sample_node_def non_local_only_def)
  then show "eg_mode (node_egress send_node) = Policy \<and>
      (\<exists>q \<in> set (node_authority_requests send_node). ar_action q = ''data.egress'' \<and> ar_resource q = ''destination:mail'')"
    using accepted_egress [OF s n c] by fastforce
qed

text \<open>
  C5: effects and authority agree. When every contract of the registry has passed validation, a
  protected effect other than \<open>LEGACY_OPAQUE\<close> is in the summary of an accepted program exactly when
  the authority class that stands for it is: nothing is charged without being requested and nothing
  is requested without being charged.
\<close>

theorem accepted_effects_match_authority:
  assumes acc: "accepted program registry s"
    and valid: "\<And>k c. map_of (reg_capabilities registry) k = Some c \<Longrightarrow> validate_capability_contract c = Inr ()"
    and e: "e \<noteq> Pure" "e \<noteq> LegacyOpaque"
  shows "e \<in> set (es_effects s) \<longleftrightarrow>
    (\<exists>a \<in> set (es_authority_classes s). effect_for_authority_class a = Some e)"
proof -
  have wf: "well_formed program registry" using acceptedD(1) [OF acc] .
  note sum = acceptedD(2) [OF acc, unfolded summary_of_def, THEN conjunct2]
  note eff = sum [THEN conjunct1] and authority = sum [THEN conjunct2, THEN conjunct1]
  have effects: "e \<in> set (es_effects s) \<longleftrightarrow> e \<in> program_effects program registry"
    unfolding eff using e by simp
  have node: "e \<in> charged_effects n contract \<longleftrightarrow> (\<exists>a \<in> requested_actions n. effect_for_authority_class a = Some e)"
    if n: "n \<in> set (ir_nodes program)" and contract: "contract_of registry n = Some contract" for n contract
  proof -
    have ok: "node_effects_ok program n contract" using accepted_node [OF acc n contract] .
    have "envelope_ok contract"
      using contract valid
      by (auto simp: contract_of_def resolve_capability_Some_iff validate_capability_contract_Inr)
    then show ?thesis using charged_effects_requested [OF ok _ e] by blast
  qed
  have resolved: "\<exists>contract. contract_of registry n = Some contract" if "n \<in> set (ir_nodes program)" for n
    using wf that unfolding well_formed_def effects_ok_def contract_of_def by blast
  have "e \<in> program_effects program registry \<longleftrightarrow>
      (\<exists>n \<in> set (ir_nodes program). \<exists>a \<in> requested_actions n. effect_for_authority_class a = Some e)"
    unfolding program_effects_def mem_Collect_eq
  proof (rule bex_cong [OF refl])
    fix n assume n: "n \<in> set (ir_nodes program)"
    obtain contract where "contract_of registry n = Some contract" using resolved [OF n] by blast
    then show "(\<exists>contract. contract_of registry n = Some contract \<and> e \<in> charged_effects n contract) \<longleftrightarrow>
        (\<exists>a \<in> requested_actions n. effect_for_authority_class a = Some e)"
      using node [OF n] by simp
  qed
  then show ?thesis unfolding effects authority by simp
qed

lemma accepted_effects_match_authority_witness:
  "\<exists>s. accepted sample_program sample_registry s \<and> effect_class.ArtifactRead \<in> set (es_effects s) \<and>
     (\<exists>a \<in> set (es_authority_classes s). effect_for_authority_class a = Some effect_class.ArtifactRead)"
proof -
  obtain s where s: "accepted sample_program sample_registry s" "es_effects s = [effect_class.ArtifactRead]"
    using sample_is_accepted by blast
  have "validate_capability_contract (text_capability ''text.copy'') = Inr ()"
    "validate_capability_contract (text_capability ''text.keep'') = Inr ()" by code_simp+
  then have "validate_capability_contract c = Inr ()" if "map_of (reg_capabilities sample_registry) k = Some c" for k c
    using that by (auto simp: sample_registry_def split: if_splits)
  then show ?thesis using accepted_effects_match_authority [OF s(1), of effect_class.ArtifactRead] s by auto
qed




section \<open>Graph algorithms\<close>

text \<open>
  C6: cycle detection is exact. On a program whose node references resolve, the elimination loop
  ends without a panic, reports nothing when the data-flow relation is acyclic, and otherwise
  reports one \<open>IR_GRAPH_CYCLE\<close> error that names exactly the nodes on a cycle or downstream of one.
\<close>

theorem cycle_detection_exact:
  assumes "flow program \<subseteq> node_ids program \<times> node_ids program"
  shows "\<exists>ds. validate_acyclic program (snd (index_nodes program)) = Some ds \<and>
    (acyclic (flow program) \<longrightarrow> ds = []) \<and>
    (\<not> acyclic (flow program) \<longrightarrow> (\<exists>d. ds = [d] \<and> dg_code d = IrGraphCycle \<and> is_error d \<and>
       set (dg_related d) = {c. \<exists>x. (x, x) \<in> (flow program)\<^sup>+ \<and> (x, c) \<in> (flow program)\<^sup>*}))"
  using validate_acyclic_result [OF assms] unfolding node_table_def downstream_of_cycle_def .

lemma cyclic_program_flow: "flow cyclic_program \<subseteq> node_ids cyclic_program \<times> node_ids cyclic_program"
proof (rule references_ok_flow)
  have "unique_ids cyclic_program" "validate_references cyclic_program (snd (index_nodes cyclic_program)) = []"
    by code_simp+
  then show "references_ok cyclic_program"
    by (simp add: validate_references_clean flip: node_table_def)
qed

lemma cycle_detection_exact_witness:
  "\<not> acyclic (flow cyclic_program) \<and>
   (\<exists>d. validate_acyclic cyclic_program (snd (index_nodes cyclic_program)) = Some [d] \<and> dg_code d = IrGraphCycle)"
proof -
  have edges: "(''a'', ''b'') \<in> flow cyclic_program" "(''b'', ''a'') \<in> flow cyclic_program"
    unfolding set_flow_edges [symmetric] by code_simp+
  then have "(''a'', ''a'') \<in> (flow cyclic_program)\<^sup>+" by (meson r_into_trancl' trancl_trans)
  then have cyc: "\<not> acyclic (flow cyclic_program)" unfolding acyclic_def by blast
  then show ?thesis using cycle_detection_exact [OF cyclic_program_flow] by auto
qed

text \<open>
  C8: the fallback worklist decides reachability: \<open>fallback_path_exists\<close> ends and answers whether the
  target can be reached from the start along the declared fallback capabilities.
\<close>

theorem fallback_path_exists_reachable:
  "fallback_path_exists (build_fallback_relation program) start target \<longleftrightarrow>
     (start, target) \<in> {(a, b). \<exists>n \<in> set (ir_nodes program). \<exists>fs.
       node_capability n = a \<and> node_failure n = Fallback fs \<and> b \<in> set fs}\<^sup>*"
  using fallback_path_exists_iff [of program start target] unfolding fallback_relation_def .

end
